theory Spec2Isabelle
  imports Complex_Main "HOL-Library.Sublist" "HOL-Library.AList"
begin

section \<open>JavaScript strings\<close>

text \<open>
  A JavaScript string is modelled as a \<^typ>\<open>string\<close> (a list of characters).  The
  string methods the build module calls are the list functions below.  All
  the patterns the module searches for are ASCII, where bytes and UTF-16 code units agree.
\<close>

definition startsWith :: "string \<Rightarrow> string \<Rightarrow> bool" where
  "startsWith s p = prefix p s"

definition endsWith :: "string \<Rightarrow> string \<Rightarrow> bool" where
  "endsWith s p = suffix p s"

definition str_includes :: "string \<Rightarrow> string \<Rightarrow> bool" where
  "str_includes s p = sublist p s"

text \<open>\<open>String.prototype.toLowerCase\<close>, on the ASCII letters.\<close>

definition lowerChar :: "char \<Rightarrow> char" where
  "lowerChar c =
     (case map_of (zip ''ABCDEFGHIJKLMNOPQRSTUVWXYZ'' ''abcdefghijklmnopqrstuvwxyz'') c of
        None \<Rightarrow> c
      | Some l \<Rightarrow> l)"

definition toLowerCase :: "string \<Rightarrow> string" where
  "toLowerCase s = map lowerChar s"

text \<open>
  \<open>s.split(sep)\<close> for a non-empty separator string: \<open>cur\<close> is the piece being
  read.  The empty string splits into one empty piece.
\<close>

fun split_from :: "string \<Rightarrow> string \<Rightarrow> string \<Rightarrow> string list" where
  "split_from sep cur [] = [cur]"
| "split_from sep cur (c # cs) =
     (if prefix sep (c # cs) then cur # split_from sep [] (drop (length sep - 1) cs)
      else split_from sep (cur @ [c]) cs)"

definition str_split :: "string \<Rightarrow> string \<Rightarrow> string list" where
  "str_split s sep = split_from sep [] s"

text \<open>\<open>pieces.join(sep)\<close>.\<close>

fun str_join :: "string \<Rightarrow> string list \<Rightarrow> string" where
  "str_join sep [] = []"
| "str_join sep [x] = x"
| "str_join sep (x # y # ys) = x @ sep @ str_join sep (y # ys)"

text \<open>
  The white space of \<open>\<bsol>s\<close> and of \<open>trim\<close>, in ASCII: space, tab, line feed,
  vertical tab, form feed, carriage return.
\<close>

definition isWhiteSpace :: "char \<Rightarrow> bool" where
  "isWhiteSpace c = (c \<in> set [CHR '' '', CHR 0x09, CHR 0x0A, CHR 0x0B, CHR 0x0C, CHR 0x0D])"

definition trim :: "string \<Rightarrow> string" where
  "trim s = rev (dropWhile isWhiteSpace (rev (dropWhile isWhiteSpace s)))"

text \<open>The maximal runs of characters that are not white space, in order.\<close>

fun tokens :: "string \<Rightarrow> string list" where
  "tokens [] = []"
| "tokens (c # cs) =
     (if isWhiteSpace c then tokens cs
      else (case cs of
              [] \<Rightarrow> [[c]]
            | d # _ \<Rightarrow>
                if isWhiteSpace d then [c] # tokens cs
                else (case tokens cs of [] \<Rightarrow> [[c]] | t # ts \<Rightarrow> (c # t) # ts)))"

text \<open>
  \<open>s.split(/\<bsol>s+/)\<close>: the tokens, with an empty piece in front when the string
  starts with white space and one behind when it ends with white space; the empty
  string gives one empty piece.
\<close>

definition split_rspace :: "string \<Rightarrow> string list" where
  "split_rspace s =
     (if s = [] then [[]]
      else (if isWhiteSpace (hd s) then [[]] else []) @ tokens s @
           (if isWhiteSpace (last s) then [[]] else []))"

section \<open>The HTML tree\<close>

text \<open>
  The tree \<open>cheerio.load\<close> returns: an element has a tag name, its attributes in
  insertion order and its child nodes; every other node (text, comment) is a \<open>Text\<close>.
  A loaded document is the list of the root's children.
\<close>

type_synonym attribs = "(string \<times> string) list"

datatype node = Element string attribs "node list" | Text string

type_synonym tree = "node list"

subsection \<open>Selectors\<close>

text \<open>\<open>.c\<close>: the class attribute has the token \<open>c\<close>.\<close>

definition hasClass :: "string \<Rightarrow> attribs \<Rightarrow> bool" where
  "hasClass c as =
     (case map_of as ''class'' of None \<Rightarrow> False | Some v \<Rightarrow> c \<in> set (tokens v))"

text \<open>\<open>[n]\<close>: the attribute is present.\<close>

definition hasAttr :: "string \<Rightarrow> attribs \<Rightarrow> bool" where
  "hasAttr n as = (map_of as n \<noteq> None)"

text \<open>\<open>[n^=p]\<close>: the attribute is present and its value starts with \<open>p\<close>.\<close>

definition attrStartsWith :: "string \<Rightarrow> string \<Rightarrow> attribs \<Rightarrow> bool" where
  "attrStartsWith n p as =
     (case map_of as n of None \<Rightarrow> False | Some v \<Rightarrow> startsWith v p)"

subsection \<open>Mutations of a selection\<close>

text \<open>
  \<open>$(selector).f(...)\<close> for an \<open>f\<close> that rewrites the attributes of each selected
  element: the selector \<open>sel\<close> reads the tag name and the attributes of an element.
\<close>

fun onSelected :: "(string \<Rightarrow> attribs \<Rightarrow> bool) \<Rightarrow> (attribs \<Rightarrow> attribs) \<Rightarrow> node \<Rightarrow> node" where
  "onSelected sel f (Element t as cs) =
     Element t (if sel t as then f as else as) (map (onSelected sel f) cs)"
| "onSelected sel f (Text s) = Text s"

text \<open>\<open>$(selector).remove()\<close>: every selected element leaves its parent, with its subtree.\<close>

fun selected :: "(string \<Rightarrow> attribs \<Rightarrow> bool) \<Rightarrow> node \<Rightarrow> bool" where
  "selected sel (Element t as cs) = sel t as"
| "selected sel (Text s) = False"

fun removeWithin :: "(string \<Rightarrow> attribs \<Rightarrow> bool) \<Rightarrow> node \<Rightarrow> node" where
  "removeWithin sel (Element t as cs) =
     Element t as (map (removeWithin sel) (filter (\<lambda>c. \<not> selected sel c) cs))"
| "removeWithin sel (Text s) = Text s"

definition removeSelected :: "(string \<Rightarrow> attribs \<Rightarrow> bool) \<Rightarrow> tree \<Rightarrow> tree" where
  "removeSelected sel ns = map (removeWithin sel) (filter (\<lambda>c. \<not> selected sel c) ns)"

text \<open>\<open>.attr(name, value)\<close> and \<open>.removeAttr(name)\<close> on one element.\<close>

definition setAttr :: "string \<Rightarrow> string \<Rightarrow> attribs \<Rightarrow> attribs" where
  "setAttr n v as = AList.update n v as"

definition removeAttr :: "string \<Rightarrow> attribs \<Rightarrow> attribs" where
  "removeAttr n as = AList.delete n as"

text \<open>
  \<open>.addClass(value)\<close> on one element, as cheerio does it: the class names of \<open>value\<close>
  are looked for, each between two spaces, in the class attribute padded with a space
  on both sides, appended when not found, and the result is trimmed.
\<close>

fun addClassNames :: "string list \<Rightarrow> string \<Rightarrow> string" where
  "addClassNames [] setClass = setClass"
| "addClassNames (c # cs) setClass =
     addClassNames cs
       (if sublist ('' '' @ c @ '' '') setClass then setClass else setClass @ c @ '' '')"

definition addClass :: "string \<Rightarrow> attribs \<Rightarrow> attribs" where
  "addClass value as =
     (if value = [] then as
      else
        let classNames = split_rspace value in
        (case map_of as ''class'' of
           None \<Rightarrow> setAttr ''class'' (trim (str_join '' '' classNames)) as
         | Some className \<Rightarrow>
             if className = [] then setAttr ''class'' (trim (str_join '' '' classNames)) as
             else setAttr ''class''
                    (trim (addClassNames classNames ('' '' @ className @ '' ''))) as))"

text \<open>
  \<open>.removeClass(name)\<close> on one element: every occurrence of each of the names leaves
  the list of the element's class names, and the attribute is rewritten only when one
  was found.
\<close>

definition splitNames :: "string option \<Rightarrow> string list" where
  "splitNames names =
     (case names of
        None \<Rightarrow> []
      | Some n \<Rightarrow> if n = [] then [] else split_rspace (trim n))"

definition removeClass :: "string \<Rightarrow> attribs \<Rightarrow> attribs" where
  "removeClass name as =
     (let classes = splitNames (Some name);
          elClasses = splitNames (map_of as ''class'')
      in if set classes \<inter> set elClasses = {} then as
         else setAttr ''class''
                (str_join '' '' (filter (\<lambda>e. e \<notin> set classes) elClasses)) as)"

section \<open>The post-processors\<close>

definition injectNoTranslate :: "tree \<Rightarrow> tree" where
  "injectNoTranslate t =
     map (onSelected (\<lambda>tag as. tag = ''pre'') (addClass ''notranslate'')) t"

definition injectLoadingLazyAttributes :: "tree \<Rightarrow> tree" where
  "injectLoadingLazyAttributes t =
     map (onSelected
            (\<lambda>tag as. (tag = ''img'' \<or> tag = ''iframe'') \<and> \<not> hasAttr ''loading'' as)
            (setAttr ''loading'' ''lazy'')) t"

text \<open>
  The body of the \<open>each\<close> callback of \<open>postProcessExternalLinks\<close>, on the attributes
  of one selected \<open>a\<close> element; an absent \<open>rel\<close> reads as the empty string.
  The selector gives the callback elements with an \<open>href\<close> only.
\<close>

definition externalLink :: "attribs \<Rightarrow> attribs" where
  "externalLink as =
     (case map_of as ''href'' of
        None \<Rightarrow> as
      | Some href \<Rightarrow>
          if startsWith href ''https://developer.mozilla.org'' then as
          else
            let as1 = addClass ''external'' as;
                rel = str_split (case map_of as1 ''rel'' of None \<Rightarrow> [] | Some r \<Rightarrow> r) '' ''
            in if ''noopener'' \<in> set rel then as1
               else setAttr ''rel'' (str_join '' '' (rel @ [''noopener''])) as1)"

definition postProcessExternalLinks :: "tree \<Rightarrow> tree" where
  "postProcessExternalLinks t =
     map (onSelected (\<lambda>tag as. tag = ''a'' \<and> attrStartsWith ''href'' ''http'' as) externalLink) t"

definition injectInPageCallout :: "tree \<Rightarrow> tree" where
  "injectInPageCallout t =
     map (onSelected (\<lambda>tag as. tag = ''div'' \<and> hasClass ''in-page-callout'' as)
            (\<lambda>as. removeClass ''in-page-callout webdev'' (addClass ''callout'' as))) t"

definition injectNotecardOnWarnings :: "tree \<Rightarrow> tree" where
  "injectNotecardOnWarnings t =
     map (onSelected
            (\<lambda>tag as. tag = ''div'' \<and>
               (hasClass ''warning'' as \<or> hasClass ''note'' as \<or> hasClass ''blockIndicator'' as))
            (\<lambda>as. removeClass ''blockIndicator'' (addClass ''notecard'' as))) t"

section \<open>Documents, flaws and options\<close>

text \<open>
  The records of the content store and of the macro engine, with the fields the build
  module reads.  A field that may be absent is an \<open>option\<close>; a JavaScript number is
  the rational it denotes.
\<close>

record fileInfo =
  folder :: string
  path :: string
  root :: string

record metadata =
  slug :: string
  title :: string
  locale_code :: string
  popularity :: "rat option"
  modified :: "string option"
  translation_of :: "string option"
  hash :: string

record translation =
  locale_code :: string
  title :: string
  native :: string

record document =
  url :: string
  metadata :: metadata
  fileInfo :: fileInfo
  rawHTML :: string
  isArchive :: bool
  isTranslated :: bool
  isActive :: bool
  other_locales :: "translation list option"

record language =
  native :: string
  English :: string

text \<open>
  A flaw of the macro engine (a source-code error object): \<open>errorMessage\<close> is its
  \<open>error.message\<close>, \<open>redirectInfo\<close> its pair \<open>(current, suggested)\<close>, which is read
  of a redirected link only.
\<close>

record flaw =
  name :: string
  filepath :: "string option"
  line :: nat
  column :: nat
  errorMessage :: string
  macroSource :: string
  redirectInfo :: "string \<times> string"

text \<open>What a collaborator throws: a source-code error of the macro engine, or anything else.\<close>

datatype 'x thrown = SourceCodeError flaw | OtherError 'x

record sampleID =
  sample_id :: string

record liveSamplePage =
  page_html :: string
  page_flaw :: "flaw option"

record liveSample =
  ls_id :: string
  ls_html :: string

text \<open>The levels of \<open>FLAW_LEVELS\<close>.\<close>

datatype flawLevel = ERROR | WARN | IGNORE

record options =
  clearKumascriptRenderCache :: bool
  flawLevels :: "string \<Rightarrow> flawLevel option"
  fixFlaws :: bool

record documentOptions =
  opt_clearKumascriptRenderCache :: "bool option"
  opt_flawLevels :: "(string \<Rightarrow> flawLevel option) option"
  opt_fixFlaws :: "bool option"

text \<open>\<open>Object.assign({}, buildOptions, documentOptions)\<close>: a key of the call wins.\<close>

definition mergeOptions :: "options \<Rightarrow> documentOptions \<Rightarrow> options" where
  "mergeOptions buildOptions documentOptions =
     \<lparr> clearKumascriptRenderCache =
         (case opt_clearKumascriptRenderCache documentOptions of
            None \<Rightarrow> clearKumascriptRenderCache buildOptions | Some v \<Rightarrow> v),
       flawLevels =
         (case opt_flawLevels documentOptions of
            None \<Rightarrow> flawLevels buildOptions | Some v \<Rightarrow> v),
       fixFlaws =
         (case opt_fixFlaws documentOptions of
            None \<Rightarrow> fixFlaws buildOptions | Some v \<Rightarrow> v) \<rparr>"

section \<open>The document being built\<close>

text \<open>
  A macro flaw as \<open>doc.flaws.macros\<close> lists it: the flaw of the macro engine with
  the four fields the build adds; the id \<open>macro\<close>\<open>i\<close> is the index \<open>i\<close>.
\<close>

record macroFlaw =
  macro_id :: nat
  fixable :: bool
  suggestion :: "string option"
  explanation :: string
  macro_flaw :: flaw

record 'a bodySection =
  sec_type :: string
  sec_id :: "string option"
  sec_title :: "string option"
  sec_isH3 :: bool
  sec_content :: 'a

record tocEntry =
  toc_text :: string
  toc_id :: string

record source =
  folder :: string
  github_url :: string
  last_commit_url :: string

text \<open>
  The object \<open>doc\<close>.  \<open>flaws_macros\<close> is \<open>doc.flaws.macros\<close>; the flaws of every
  other kind, which the collaborators write, are \<open>flaws_other\<close>, a list of kinds with
  their records.  A field not yet assigned holds an empty value.  Data that only the
  collaborators read and write has the type \<open>'a\<close>.
\<close>

record 'a doc =
  isArchive :: bool
  isTranslated :: bool
  isActive :: bool
  flaws_macros :: "macroFlaw list option"
  flaws_other :: "(string \<times> 'a list) list"
  title :: string
  mdn_url :: string
  locale_code :: string
  native :: string
  sidebarHTML :: string
  body :: "'a bodySection list"
  toc :: "tocEntry list"
  summary :: string
  popularity :: rat
  modified :: "string option"
  other_translations :: "translation list option"
  source :: "source option"
  parents :: "'a option"
  pageTitle :: string
  noIndexing :: bool

record 'a result =
  doc :: "'a doc"
  liveSamples :: "liveSample list"
  fileAttachments :: "'a list"
  bcdData :: 'a

section \<open>Errors, effects and collaborators\<close>

text \<open>
  The message of an \<open>Error\<close> the module creates, with the values its template
  string holds.
\<close>

datatype message =
    SlugFolderMismatch string string
  | MacroInvocationMessage "string option" nat nat string
  | FlawErrorEncountered
  | SlugIsEmpty
  | SlugStartsWithSlash string
  | SlugEndsWithSlash string
  | SlugContainsDoubleSlash string
  | NoDocumentFoundFor string
  | FlawAsString string
  | NoLiveSampleFound "string option" string

text \<open>
  A rejected build: an \<open>Error\<close> of the module, a \<open>TypeError\<close> of the runtime (a
  locale without an entry in the table of languages), or what a collaborator threw,
  passed on.
\<close>

datatype 'x exn = Error message | TypeError string | Rethrown "'x thrown"

text \<open>What a build writes to the console, and the reset of the render cache.\<close>

datatype 'x consoleLine =
    FlawsWithin nat string
  | FlawNumberName nat string
  | FlawText string
  | InjectingFlawsFailed string string
  | ErrorObject "'x thrown"

datatype 'x effect =
    RenderCacheReset
  | ConsoleError "'x consoleLine"
  | ConsoleWarn "'x consoleLine"

text \<open>
  The collaborators: the content store (\<open>urlToFolderPath\<close>, \<open>findByURL\<close>), the macro
  engine (\<open>render\<close>, \<open>getLiveSampleIDs\<close>, \<open>buildLiveSamplePage\<close>, the flaw methods
  \<open>updateFileInfo\<close> and \<open>toString\<close>), the configuration, the process environment,
  the HTML parser and the passes of the other build modules.  A pass that mutates the
  tree or \<open>doc\<close> returns what it writes: the tree, the flaws of the other kinds, the
  body.
\<close>

record ('x, 'a) env =
  urlToFolderPath :: "string \<Rightarrow> string"
  findByURL :: "string \<Rightarrow> document option"
  render :: "string \<Rightarrow> 'x thrown + string \<times> flaw list"
  getLiveSampleIDs :: "string \<Rightarrow> string \<Rightarrow> sampleID list"
  buildLiveSamplePage :: "string \<Rightarrow> string \<Rightarrow> string \<Rightarrow> sampleID \<Rightarrow> liveSamplePage"
  updateFileInfo :: "flaw \<Rightarrow> fileInfo \<Rightarrow> flaw"
  flawToString :: "flaw \<Rightarrow> string"
  buildOptions :: options
  LANGUAGES_RAW :: "(string \<times> language) list"
  CONTENT_ROOT :: string
  REPOSITORY_URLS :: "string \<Rightarrow> string option"
  GITHUB_REF :: "string option"
  execGitBranch :: "string \<Rightarrow> 'x thrown + string"
  cheerio_load :: "string \<Rightarrow> tree"
  extractSidebar :: "tree \<Rightarrow> string \<times> tree"
  checkImageReferences ::
    "'a doc \<Rightarrow> tree \<Rightarrow> options \<Rightarrow> document \<Rightarrow> 'a list \<times> (string \<times> 'a list) list \<times> tree"
  checkImageWidths ::
    "'a doc \<Rightarrow> tree \<Rightarrow> options \<Rightarrow> document \<Rightarrow> (string \<times> 'a list) list \<times> tree"
  injectFlaws ::
    "'a doc \<Rightarrow> tree \<Rightarrow> options \<Rightarrow> document \<Rightarrow> 'x thrown + (string \<times> 'a list) list \<times> tree"
  fixFixableFlaws :: "'a doc \<Rightarrow> options \<Rightarrow> document \<Rightarrow> 'x thrown + unit"
  syntaxHighlight :: "tree \<Rightarrow> 'a doc \<Rightarrow> tree"
  extractSections :: "tree \<Rightarrow> 'a bodySection list \<times> 'a list"
  injectSectionFlaws :: "'a doc \<Rightarrow> 'a list \<Rightarrow> options \<Rightarrow> (string \<times> 'a list) list"
  extractSummary :: "'a bodySection list \<Rightarrow> string"
  normalizeBCDURLs :: "'a doc \<Rightarrow> options \<Rightarrow> 'a bodySection list"
  extractBCDData :: "'a doc \<Rightarrow> 'a \<times> 'a bodySection list"
  addBreadcrumbData :: "string \<Rightarrow> 'a doc \<Rightarrow> 'a option"
  getPageTitle :: "'a doc \<Rightarrow> string"

text \<open>
  \<open>LANGUAGES\<close>: the table of languages keyed by the lower-case locale; of two entries
  with one key the later stays.
\<close>

definition LANGUAGES :: "('x, 'a) env \<Rightarrow> string \<Rightarrow> language option" where
  "LANGUAGES e = map_of (rev (map (\<lambda>(l, data). (toLowerCase l, data)) (LANGUAGES_RAW e)))"

definition DEFAULT_BRANCH_NAME :: string where
  "DEFAULT_BRANCH_NAME = ''main''"

text \<open>
  \<open>getCurrentGitBranch\<close>: the name the first call for a root computes.  The module
  keeps it in a map for the later calls, which return the same name.
\<close>

definition getCurrentGitBranch :: "('x, 'a) env \<Rightarrow> string \<Rightarrow> string" where
  "getCurrentGitBranch e r =
     (if r = CONTENT_ROOT e then
        (case GITHUB_REF e of
           Some ref \<Rightarrow>
             if ref \<noteq> [] then str_join ''/'' (drop 2 (str_split ref ''/''))
             else (case execGitBranch e r of
                     Inl _ \<Rightarrow> DEFAULT_BRANCH_NAME
                   | Inr output \<Rightarrow> if output \<noteq> [] then output else DEFAULT_BRANCH_NAME)
         | None \<Rightarrow>
             (case execGitBranch e r of
                Inl _ \<Rightarrow> DEFAULT_BRANCH_NAME
              | Inr output \<Rightarrow> if output \<noteq> [] then output else DEFAULT_BRANCH_NAME))
      else DEFAULT_BRANCH_NAME)"

section \<open>The functions of the build module\<close>

definition validateSlug :: "string \<Rightarrow> 'x exn + unit" where
  "validateSlug s =
     (if s = [] then Inl (Error SlugIsEmpty)
      else if startsWith s ''/'' then Inl (Error (SlugStartsWithSlash s))
      else if endsWith s ''/'' then Inl (Error (SlugEndsWithSlash s))
      else if str_includes s ''//'' then Inl (Error (SlugContainsDoubleSlash s))
      else Inr ())"

text \<open>A key without an entry in \<open>REPOSITORY_URLS\<close> prints as \<open>undefined\<close>.\<close>

definition repositoryURL :: "('x, 'a) env \<Rightarrow> string \<Rightarrow> string" where
  "repositoryURL e r =
     ''https://github.com/'' @ (case REPOSITORY_URLS e r of None \<Rightarrow> ''undefined'' | Some u \<Rightarrow> u)"

definition getGitHubURL :: "('x, 'a) env \<Rightarrow> string \<Rightarrow> string \<Rightarrow> string" where
  "getGitHubURL e r fldr =
     repositoryURL e r @ ''/blob/'' @ getCurrentGitBranch e r @ ''/files/'' @ fldr @ ''/index.html''"

definition getLastCommitURL :: "('x, 'a) env \<Rightarrow> string \<Rightarrow> string \<Rightarrow> string" where
  "getLastCommitURL e r h = repositoryURL e r @ ''/commit/'' @ h"

definition injectSource :: "('x, 'a) env \<Rightarrow> 'a doc \<Rightarrow> document \<Rightarrow> metadata \<Rightarrow> 'a doc" where
  "injectSource e dc document md =
     (let fldr = fileInfo.folder (fileInfo document);
          r = root (fileInfo document)
      in dc\<lparr> source := Some \<lparr> source.folder = fldr,
                                github_url = getGitHubURL e r fldr,
                                last_commit_url = getLastCommitURL e r (hash md) \<rparr> \<rparr>)"

definition makeTOC :: "'a doc \<Rightarrow> tocEntry list" where
  "makeTOC dc =
     List.map_filter
       (\<lambda>sec.
          case (sec_id sec, sec_title sec) of
            (Some i, Some t) \<Rightarrow>
              if (sec_type sec = ''prose'' \<or> sec_type sec = ''browser_compatibility'') \<and>
                 i \<noteq> [] \<and> t \<noteq> [] \<and> \<not> sec_isH3 sec
              then Some \<lparr> toc_text = t, toc_id = i \<rparr>
              else None
          | _ \<Rightarrow> None)
       (body dc)"

subsection \<open>Rendering, live samples and the macro flaws\<close>

text \<open>
  The call of \<open>kumascript.render\<close> with its \<open>catch\<close>: a macro invocation error gets
  the file of the document and becomes an \<open>Error\<close> with its place; any other
  exception is thrown again.
\<close>

definition renderMacros ::
  "('x, 'a) env \<Rightarrow> options \<Rightarrow> document \<Rightarrow> 'x effect list \<times> ('x exn + string \<times> flaw list)" where
  "renderMacros e opts document =
     (let reset = (if clearKumascriptRenderCache opts then [RenderCacheReset] else [])
      in case render e (url document) of
           Inr r \<Rightarrow> (reset, Inr r)
         | Inl (SourceCodeError err) \<Rightarrow>
             if name err = ''MacroInvocationError'' then
               (let err' = updateFileInfo e err (fileInfo document)
                in (reset, Inl (Error (MacroInvocationMessage
                      (filepath err') (line err') (column err') (errorMessage err')))))
             else (reset, Inl (Rethrown (SourceCodeError err)))
         | Inl (OtherError x) \<Rightarrow> (reset, Inl (Rethrown (OtherError x))))"

text \<open>
  The loop over the live samples of the document: \<open>flaws\<close> and \<open>samples\<close> are the two
  arrays the loop pushes to.
\<close>

fun buildLiveSamples ::
  "('x, 'a) env \<Rightarrow> document \<Rightarrow> string \<Rightarrow> sampleID list \<Rightarrow> flaw list \<Rightarrow> liveSample list \<Rightarrow>
     flaw list \<times> liveSample list" where
  "buildLiveSamples e document renderedHtml [] flaws samples = (flaws, samples)"
| "buildLiveSamples e document renderedHtml (sampleIdObject # rest) flaws samples =
     (let liveSamplePage =
            buildLiveSamplePage e (url document) (metadata.title (metadata document))
              renderedHtml sampleIdObject
      in case page_flaw liveSamplePage of
           Some fl \<Rightarrow>
             buildLiveSamples e document renderedHtml rest
               (flaws @ [updateFileInfo e fl (fileInfo document)]) samples
         | None \<Rightarrow>
             buildLiveSamples e document renderedHtml rest flaws
               (samples @ [\<lparr> ls_id = toLowerCase (sample_id sampleIdObject),
                              ls_html = page_html liveSamplePage \<rparr>]))"

text \<open>\<open>s.replace(pattern, replacement)\<close> for a pattern string: the first occurrence.\<close>

fun replaceFirst :: "string \<Rightarrow> string \<Rightarrow> string \<Rightarrow> string" where
  "replaceFirst [] pat rep = (if pat = [] then rep else [])"
| "replaceFirst (c # cs) pat rep =
     (if prefix pat (c # cs) then rep @ drop (length pat) (c # cs)
      else c # replaceFirst cs pat rep)"

text \<open>The record of the flaw with index \<open>i\<close> in \<open>doc.flaws.macros\<close>.\<close>

definition macroFlawRecord :: "document \<Rightarrow> nat \<Rightarrow> flaw \<Rightarrow> macroFlaw" where
  "macroFlawRecord document i fl =
     (if name fl = ''MacroDeprecatedError'' then
        \<lparr> macro_id = i, fixable = True, suggestion = Some [],
          explanation = errorMessage fl, macro_flaw = fl \<rparr>
      else if name fl = ''MacroRedirectedLinkError'' \<and>
              (filepath fl = None \<or> filepath fl = Some [] \<or>
               filepath fl = Some (path (fileInfo document))) then
        \<lparr> macro_id = i, fixable = True,
          suggestion = (case redirectInfo fl of
                          (current, suggested) \<Rightarrow>
                            Some (replaceFirst (macroSource fl) current suggested)),
          explanation = errorMessage fl, macro_flaw = fl \<rparr>
      else
        \<lparr> macro_id = i, fixable = False, suggestion = None,
          explanation = errorMessage fl, macro_flaw = fl \<rparr>)"

text \<open>The lines the \<open>error\<close> level prints: a heading, then two lines for each flaw.\<close>

definition reportFlaws :: "('x, 'a) env \<Rightarrow> document \<Rightarrow> flaw list \<Rightarrow> 'x effect list" where
  "reportFlaws e document flaws =
     ConsoleError (FlawsWithin (length flaws) (slug (metadata document))) #
     concat (map (\<lambda>(i, fl). [ConsoleError (FlawNumberName (i + 1) (name fl)),
                              ConsoleError (FlawText (flawToString e fl))])
               (enumerate 0 flaws))"

text \<open>
  \<open>if (flaws.length) ...\<close>: the level of the \<open>macros\<close> flaws decides.  The result is
  the value of \<open>doc.flaws.macros\<close>, assigned under \<open>warn\<close> only.
\<close>

definition macroFlawPolicy ::
  "('x, 'a) env \<Rightarrow> options \<Rightarrow> document \<Rightarrow> flaw list \<Rightarrow>
     'x effect list \<times> ('x exn + macroFlaw list option)" where
  "macroFlawPolicy e opts document flaws =
     (if flaws \<noteq> [] then
        (if flawLevels opts ''macros'' = Some ERROR then
           (reportFlaws e document flaws, Inl (Error FlawErrorEncountered))
         else if flawLevels opts ''macros'' = Some WARN then
           ([], Inr (Some (map (\<lambda>(i, fl). macroFlawRecord document i fl) (enumerate 0 flaws))))
         else ([], Inr None))
      else ([], Inr None))"

text \<open>
  The first part of \<open>buildDocument\<close>, up to the slug validation: the rendered HTML,
  the live samples and \<open>doc.flaws.macros\<close>.  An archived document is not rendered.
\<close>

definition renderDocument ::
  "('x, 'a) env \<Rightarrow> options \<Rightarrow> document \<Rightarrow>
     'x effect list \<times> ('x exn + string \<times> liveSample list \<times> macroFlaw list option)" where
  "renderDocument e opts document =
     (if document.isArchive document then ([], Inr (rawHTML document, [], None))
      else
        case renderMacros e opts document of
          (eff, Inl err) \<Rightarrow> (eff, Inl err)
        | (eff, Inr (renderedHtml, flaws0)) \<Rightarrow>
            (let sampleIds = getLiveSampleIDs e (slug (metadata document)) (rawHTML document);
                 (flaws, samples) = buildLiveSamples e document renderedHtml sampleIds flaws0 []
             in case macroFlawPolicy e opts document flaws of
                  (eff', Inl err) \<Rightarrow> (eff @ eff', Inl err)
                | (eff', Inr macros) \<Rightarrow> (eff @ eff', Inr (renderedHtml, samples, macros))))"

subsection \<open>The passes over the tree\<close>

definition stripFlawSrc :: "tree \<Rightarrow> tree" where
  "stripFlawSrc t =
     map (onSelected (\<lambda>tag as. hasAttr ''data-flaw-src'' as) (removeAttr ''data-flaw-src'')) t"

text \<open>
  The tree of the rendered HTML in its root container, without the flaw markers when
  the macro flaws are ignored, and without the \<open>span.alllinks\<close> elements.
\<close>

definition loadBody :: "('x, 'a) env \<Rightarrow> options \<Rightarrow> string \<Rightarrow> tree" where
  "loadBody e opts renderedHtml =
     (let t = cheerio_load e (''<div id=\"_body\">'' @ renderedHtml @ ''</div>'');
          t' = (if flawLevels opts ''macros'' = Some IGNORE then stripFlawSrc t else t)
      in removeSelected (\<lambda>tag as. tag = ''span'' \<and> hasClass ''alllinks'' as) t')"

text \<open>The links to \<open>fxsitecompat.com\<close> get a fixed target.\<close>

definition rewriteFxSiteCompat :: "tree \<Rightarrow> tree" where
  "rewriteFxSiteCompat t =
     map (onSelected
            (\<lambda>tag as. tag = ''a'' \<and>
               (case map_of as ''href'' of
                  None \<Rightarrow> False
                | Some h \<Rightarrow> startsWith h ''http'' \<and> str_includes h ''fxsitecompat.com''))
            (setAttr ''href'' ''https://github.com/mdn/kuma/issues/7647'')) t"

definition postProcess :: "tree \<Rightarrow> tree" where
  "postProcess t =
     injectNotecardOnWarnings
       (injectInPageCallout
          (postProcessExternalLinks
             (injectLoadingLazyAttributes
                (injectNoTranslate t))))"

text \<open>
  \<open>buildDocument\<close> from the load of the tree to the last post-processor: the
  document so far, the file attachments and the tree the sections are extracted from.
\<close>

definition prepareTree ::
  "('x, 'a) env \<Rightarrow> options \<Rightarrow> document \<Rightarrow> 'a doc \<Rightarrow> string \<Rightarrow>
     'x effect list \<times> ('x exn + 'a doc \<times> 'a list \<times> tree)" where
  "prepareTree e opts document dc renderedHtml =
     (let t = loadBody e opts renderedHtml;
          dc1 = dc\<lparr> doc.title := metadata.title (metadata document),
                     mdn_url := url document,
                     doc.locale_code := metadata.locale_code (metadata document) \<rparr>
      in case LANGUAGES e (toLowerCase (doc.locale_code dc1)) of
           None \<Rightarrow> ([], Inl (TypeError ''native''))
         | Some lang \<Rightarrow>
             (let dc2 = dc1\<lparr> doc.native := language.native lang \<rparr>;
                  (sidebar, t2) = extractSidebar e t;
                  dc3 = dc2\<lparr> sidebarHTML := sidebar \<rparr>;
                  (attachments, flaws3, t3) = checkImageReferences e dc3 t2 opts document;
                  dc4 = dc3\<lparr> flaws_other := flaws3 \<rparr>;
                  (flaws4, t4) = checkImageWidths e dc4 t3 opts document;
                  dc5 = dc4\<lparr> flaws_other := flaws4 \<rparr>
              in case injectFlaws e dc5 t4 opts document of
                   Inl err \<Rightarrow>
                     ([ConsoleWarn (InjectingFlawsFailed (path (fileInfo document)) (url document))],
                      Inl (Rethrown err))
                 | Inr (flaws5, t5) \<Rightarrow>
                     (let dc6 = dc5\<lparr> flaws_other := flaws5 \<rparr>;
                          t6 = rewriteFxSiteCompat t5
                      in case fixFixableFlaws e dc6 opts document of
                           Inl err \<Rightarrow> ([ConsoleError (ErrorObject err)], Inl (Rethrown err))
                         | Inr _ \<Rightarrow>
                             (let t7 = removeSelected
                                         (\<lambda>tag as. tag = ''div'' \<and> hasClass ''hidden'' as) t6;
                                  t8 = syntaxHighlight e t7 dc6
                              in ([], Inr (dc6, attachments, postProcess t8))))))"

subsection \<open>The derived fields\<close>

text \<open>
  \<open>Number(x.toFixed(f))\<close>: the decimal number with \<open>f\<close> digits after the point
  nearest to \<open>x\<close>, the one of larger magnitude of two; the sign is set aside first.
\<close>

definition toFixed :: "rat \<Rightarrow> nat \<Rightarrow> rat" where
  "toFixed x f =
     (if x < 0 then - (of_int \<lfloor>- x * 10 ^ f + 1 / 2\<rfloor> / 10 ^ f)
      else of_int \<lfloor>x * 10 ^ f + 1 / 2\<rfloor> / 10 ^ f)"

text \<open>
  The translations of the document: those the caller knows, or else the English
  document this one translates, when the store has it.
\<close>

definition otherTranslations :: "('x, 'a) env \<Rightarrow> document \<Rightarrow> 'x exn + translation list" where
  "otherTranslations e document =
     (let known = (case other_locales document of None \<Rightarrow> [] | Some ts \<Rightarrow> ts)
      in if known \<noteq> [] then Inr known
         else (case translation_of (metadata document) of
                 None \<Rightarrow> Inr known
               | Some t \<Rightarrow>
                   if t = [] then Inr known
                   else (case findByURL e (''/en-US/docs/'' @ t) of
                           None \<Rightarrow> Inr known
                         | Some translationOf \<Rightarrow>
                             (case LANGUAGES e ''en-us'' of
                                None \<Rightarrow> Inl (TypeError ''native'')
                              | Some lang \<Rightarrow>
                                  Inr [\<lparr> translation.locale_code = ''en-US'',
                                         translation.title = metadata.title (metadata translationOf),
                                         translation.native = language.native lang \<rparr>]))))"

text \<open>\<open>buildDocument\<close> from the extraction of the sections to the indexing decision.\<close>

definition finishDocument ::
  "('x, 'a) env \<Rightarrow> options \<Rightarrow> document \<Rightarrow> 'a doc \<Rightarrow> tree \<Rightarrow> 'x exn + 'a doc \<times> 'a" where
  "finishDocument e opts document dc t =
     (let md = metadata document;
          (sections, sectionFlaws) = extractSections e t;
          dc1 = dc\<lparr> body := sections \<rparr>;
          dc2 = (if sectionFlaws \<noteq> []
                 then dc1\<lparr> flaws_other := injectSectionFlaws e dc1 sectionFlaws opts \<rparr>
                 else dc1);
          dc3 = dc2\<lparr> toc := makeTOC dc2 \<rparr>;
          dc4 = dc3\<lparr> summary := extractSummary e (body dc3) \<rparr>;
          dc5 = dc4\<lparr> body := normalizeBCDURLs e dc4 opts \<rparr>;
          (bcd, body') = extractBCDData e dc5;
          dc6 = dc5\<lparr> body := body' \<rparr>;
          dc7 = dc6\<lparr> doc.popularity :=
                       (case metadata.popularity md of
                          None \<Rightarrow> 0
                        | Some p \<Rightarrow> if p = 0 then 0 else toFixed p 4) \<rparr>;
          dc8 = dc7\<lparr> doc.modified :=
                       (case metadata.modified md of
                          None \<Rightarrow> None
                        | Some m \<Rightarrow> if m = [] then None else Some m) \<rparr>
      in case otherTranslations e document of
           Inl err \<Rightarrow> Inl err
         | Inr others \<Rightarrow>
             (let dc9 = (if others \<noteq> [] then dc8\<lparr> other_translations := Some others \<rparr> else dc8);
                  dc10 = injectSource e dc9 document md;
                  dc11 = dc10\<lparr> parents := addBreadcrumbData e (url document) dc10 \<rparr>;
                  dc12 = dc11\<lparr> pageTitle := getPageTitle e dc11 \<rparr>;
                  dc13 = dc12\<lparr> noIndexing :=
                              ((doc.isArchive dc12 \<and> \<not> doc.isTranslated dc12) \<or>
                               slug md = ''MDN/Kitchensink'' \<or>
                               startsWith (slug (metadata document)) ''orphaned/'' \<or>
                               startsWith (slug (metadata document)) ''conflicting/'') \<rparr>
              in Inr (dc13, bcd)))"

subsection \<open>\<open>buildDocument\<close> and \<open>buildLiveSamplePageFromURL\<close>\<close>

definition newDoc :: "document \<Rightarrow> 'a doc" where
  "newDoc document =
     \<lparr> doc.isArchive = document.isArchive document,
       doc.isTranslated = document.isTranslated document,
       doc.isActive = document.isActive document,
       flaws_macros = None, flaws_other = [],
       doc.title = [], mdn_url = [], doc.locale_code = [], doc.native = [],
       sidebarHTML = [], body = [], toc = [], summary = [],
       doc.popularity = 0, doc.modified = None, other_translations = None,
       source = None, parents = None, pageTitle = [], noIndexing = False \<rparr>"

definition buildDocument ::
  "('x, 'a) env \<Rightarrow> document \<Rightarrow> documentOptions \<Rightarrow> 'x effect list \<times> ('x exn + 'a result)" where
  "buildDocument e document documentOptions =
     (let opts = mergeOptions (buildOptions e) documentOptions;
          md = metadata document
      in if urlToFolderPath e (url document) \<noteq> fileInfo.folder (fileInfo document) then
           ([], Inl (Error (SlugFolderMismatch (slug md) (fileInfo.folder (fileInfo document)))))
         else
           case renderDocument e opts document of
             (eff1, Inl err) \<Rightarrow> (eff1, Inl err)
           | (eff1, Inr (renderedHtml, samples, macros)) \<Rightarrow>
               (case validateSlug (slug md) of
                  Inl err \<Rightarrow> (eff1, Inl err)
                | Inr _ \<Rightarrow>
                    (case prepareTree e opts document
                            ((newDoc document)\<lparr> flaws_macros := macros \<rparr>) renderedHtml of
                       (eff2, Inl err) \<Rightarrow> (eff1 @ eff2, Inl err)
                     | (eff2, Inr (dc, attachments, t)) \<Rightarrow>
                         (case finishDocument e opts document dc t of
                            Inl err \<Rightarrow> (eff1 @ eff2, Inl err)
                          | Inr (dc', bcd) \<Rightarrow>
                              (eff1 @ eff2,
                               Inr \<lparr> doc = dc', liveSamples = samples,
                                     fileAttachments = attachments, bcdData = bcd \<rparr>)))))"

text \<open>
  The loop of \<open>buildLiveSamplePageFromURL\<close>: the first sample whose lower-case id is
  the id of the URL is built from the rendered document.
\<close>

fun findLiveSample ::
  "('x, 'a) env \<Rightarrow> document \<Rightarrow> string \<Rightarrow> string option \<Rightarrow> sampleID list \<Rightarrow> 'x exn + string" where
  "findLiveSample e document documentURL sampleID [] =
     Inl (Error (NoLiveSampleFound sampleID documentURL))"
| "findLiveSample e document documentURL sampleID (sampleIDObject # rest) =
     (if Some (toLowerCase (sample_id sampleIDObject)) = sampleID then
        (case render e (url document) of
           Inl err \<Rightarrow> Inl (Rethrown err)
         | Inr (renderedHtml, _) \<Rightarrow>
             (let liveSamplePage =
                    buildLiveSamplePage e (url document) (metadata.title (metadata document))
                      renderedHtml sampleIDObject
              in case page_flaw liveSamplePage of
                   Some fl \<Rightarrow> Inl (Error (FlawAsString (flawToString e fl)))
                 | None \<Rightarrow> Inr (page_html liveSamplePage)))
      else findLiveSample e document documentURL sampleID rest)"

definition buildLiveSamplePageFromURL :: "('x, 'a) env \<Rightarrow> string \<Rightarrow> 'x exn + string" where
  "buildLiveSamplePageFromURL e u =
     (let (documentURL, sampleID) =
            (case str_split u ''/_samples_/'' of
               [] \<Rightarrow> ([], None)
             | [d] \<Rightarrow> (d, None)
             | d # i # _ \<Rightarrow> (d, Some i))
      in case findByURL e documentURL of
           None \<Rightarrow> Inl (Error (NoDocumentFoundFor documentURL))
         | Some document \<Rightarrow>
             findLiveSample e document documentURL sampleID
               (getLiveSampleIDs e (slug (metadata document)) (rawHTML document)))"

section \<open>Observations on a tree\<close>

text \<open>
  What the properties below read off a tree: its elements in document order, each with
  its tag and its attributes; the tree with every attribute list erased, that is, the
  tags, the nesting and the texts.
\<close>

fun elements :: "node \<Rightarrow> (string \<times> attribs) list" where
  "elements (Element t as cs) = (t, as) # concat (map elements cs)"
| "elements (Text s) = []"

definition treeElements :: "tree \<Rightarrow> (string \<times> attribs) list" where
  "treeElements t = concat (map elements t)"

fun shape :: "node \<Rightarrow> node" where
  "shape (Element t as cs) = Element t [] (map shape cs)"
| "shape (Text s) = Text s"

text \<open>The number of elements of a tree that carry a \<open>data-flaw-src\<close> attribute.\<close>

definition flawMarkers :: "tree \<Rightarrow> nat" where
  "flawMarkers t =
     length (filter (\<lambda>(tag, as). hasAttr ''data-flaw-src'' as) (treeElements t))"

text \<open>
  The passes over the tree that live in other modules (the sidebar extraction, the two
  image checks, the flaw injection and the syntax highlighting) are parameters of the
  build.  This is the condition on them under which a tree without flaw markers stays
  so: none of them adds a \<open>data-flaw-src\<close> attribute.
\<close>

definition passesKeepUnmarked :: "('x, 'a) env \<Rightarrow> bool" where
  "passesKeepUnmarked e =
     (\<forall>t dc opts d.
        flawMarkers t = 0 \<longrightarrow>
          flawMarkers (snd (extractSidebar e t)) = 0 \<and>
          flawMarkers (snd (snd (checkImageReferences e dc t opts d))) = 0 \<and>
          flawMarkers (snd (checkImageWidths e dc t opts d)) = 0 \<and>
          (\<forall>flaws t'. injectFlaws e dc t opts d = Inr (flaws, t') \<longrightarrow> flawMarkers t' = 0) \<and>
          flawMarkers (syntaxHighlight e t dc) = 0)"

section \<open>A document of the store, for the instances\<close>

text \<open>
  A document with three live samples, of which the second fails to build, rendered
  with one flaw of the macro engine, and the collaborators it is built with: a parser
  that returns one fixed tree, and passes that change nothing.
\<close>

definition demoDocument :: document where
  "demoDocument =
     \<lparr> url = ''/en-US/docs/Web/Demo'',
       metadata = \<lparr> slug = ''Web/Demo'', metadata.title = ''Demo'',
                    metadata.locale_code = ''en-US'',
                    metadata.popularity = Some (123456789 / 1000000000),
                    metadata.modified = None, translation_of = None, hash = ''abc'' \<rparr>,
       fileInfo = \<lparr> fileInfo.folder = ''en-us/web/demo'',
                    path = ''en-us/web/demo/index.html'', root = ''/content'' \<rparr>,
       rawHTML = ''raw'', document.isArchive = False, document.isTranslated = False,
       document.isActive = True, other_locales = None \<rparr>"

definition demoFlaw :: "string \<Rightarrow> flaw" where
  "demoFlaw n =
     \<lparr> name = n, filepath = None, line = 1, column = 1, errorMessage = ''broken'',
       macroSource = ''{{x}}'', redirectInfo = ([], []) \<rparr>"

definition demoTree :: tree where
  "demoTree =
     [Element ''div'' [(''id'', ''_body'')]
        [Element ''div'' [(''class'', ''warning'')] [Text ''careful''],
         Element ''a'' [(''href'', ''https://example.com''), (''data-flaw-src'', ''{{x}}'')]
           [Text ''out''],
         Element ''a'' [(''href'', ''https://developer.mozilla.org/en-US/docs/Web'')]
           [Text ''in'']]]"

definition demoEnv :: "(unit, unit) env" where
  "demoEnv =
     \<lparr> urlToFolderPath = (\<lambda>u. ''en-us/web/demo''),
       findByURL = (\<lambda>u. if u = ''/en-US/docs/Web/Demo'' then Some demoDocument else None),
       render = (\<lambda>u. Inr (''<p>demo</p>'', [demoFlaw ''MacroBrokenLinkError''])),
       getLiveSampleIDs =
         (\<lambda>s raw. [\<lparr> sample_id = ''Foo'' \<rparr>, \<lparr> sample_id = ''Bad'' \<rparr>, \<lparr> sample_id = ''Bar'' \<rparr>]),
       buildLiveSamplePage =
         (\<lambda>u t html s.
            if sample_id s = ''Bad''
            then \<lparr> page_html = [], page_flaw = Some (demoFlaw ''MacroLiveSampleError'') \<rparr>
            else \<lparr> page_html = ''sample '' @ sample_id s, page_flaw = None \<rparr>),
       updateFileInfo = (\<lambda>fl fi. fl\<lparr> filepath := Some (path fi) \<rparr>),
       flawToString = name,
       buildOptions = \<lparr> clearKumascriptRenderCache = False,
                        flawLevels = (\<lambda>k. Some WARN), fixFlaws = False \<rparr>,
       LANGUAGES_RAW = [(''en-US'', \<lparr> language.native = ''English (US)'', English = ''English'' \<rparr>)],
       CONTENT_ROOT = ''/content'',
       REPOSITORY_URLS = (\<lambda>r. Some ''mdn/content''),
       GITHUB_REF = None,
       execGitBranch = (\<lambda>r. Inr ''main''),
       cheerio_load = (\<lambda>html. demoTree),
       extractSidebar = (\<lambda>t. ([], t)),
       checkImageReferences = (\<lambda>dc t opts d. ([], flaws_other dc, t)),
       checkImageWidths = (\<lambda>dc t opts d. (flaws_other dc, t)),
       injectFlaws = (\<lambda>dc t opts d. Inr (flaws_other dc, t)),
       fixFixableFlaws = (\<lambda>dc opts d. Inr ()),
       syntaxHighlight = (\<lambda>t dc. t),
       extractSections = (\<lambda>t. ([], [])),
       injectSectionFlaws = (\<lambda>dc fls opts. flaws_other dc),
       extractSummary = (\<lambda>b. []),
       normalizeBCDURLs = (\<lambda>dc opts. body dc),
       extractBCDData = (\<lambda>dc. ((), body dc)),
       addBreadcrumbData = (\<lambda>u dc. None),
       getPageTitle = (\<lambda>dc. doc.title dc) \<rparr>"

definition demoOptions :: "flawLevel \<Rightarrow> documentOptions" where
  "demoOptions level =
     \<lparr> opt_clearKumascriptRenderCache = None,
       opt_flawLevels = Some (\<lambda>k. Some level),
       opt_fixFlaws = None \<rparr>"

text \<open>The document with another slug.\<close>

definition demoSlug :: "string \<Rightarrow> document" where
  "demoSlug s = demoDocument\<lparr> metadata := (metadata demoDocument)\<lparr> slug := s \<rparr> \<rparr>"

section \<open>Properties\<close>

subsection \<open>The structure of a build that returns\<close>

lemma prepareTree_Inr:
  assumes "prepareTree e opts d dc html = (eff, Inr (dc', att, t))"
  shows "doc.isArchive dc' = doc.isArchive dc \<and> doc.isTranslated dc' = doc.isTranslated dc \<and>
         flaws_macros dc' = flaws_macros dc \<and> eff = []"
  using assms
  by (auto simp: prepareTree_def Let_def split: option.splits prod.splits sum.splits)

lemma finishDocument_Inr:
  assumes "finishDocument e opts d dc t = Inr (dc', bcd)"
  shows "noIndexing dc' =
           ((doc.isArchive dc \<and> \<not> doc.isTranslated dc) \<or>
            slug (metadata d) = ''MDN/Kitchensink'' \<or>
            startsWith (slug (metadata d)) ''orphaned/'' \<or>
            startsWith (slug (metadata d)) ''conflicting/'') \<and>
         doc.popularity dc' =
           (case metadata.popularity (metadata d) of
              None \<Rightarrow> 0
            | Some p \<Rightarrow> if p = 0 then 0 else toFixed p 4) \<and>
         flaws_macros dc' = flaws_macros dc"
proof -
  obtain others where o: "otherTranslations e d = Inr others"
    using assms
    by (cases "otherTranslations e d") (simp_all add: finishDocument_def Let_def split: prod.splits)
  obtain sections sectionFlaws where s: "extractSections e t = (sections, sectionFlaws)"
    by (cases "extractSections e t")
  show ?thesis
  proof (cases "sectionFlaws = []")
    case sf: True
    show ?thesis
    proof (cases "others = []")
      case True
      with sf assms show ?thesis
        by (clarsimp simp: finishDocument_def injectSource_def Let_def o s split: prod.splits)
    next
      case False
      with sf assms show ?thesis
        by (clarsimp simp: finishDocument_def injectSource_def Let_def o s split: prod.splits)
    qed
  next
    case sf: False
    show ?thesis
    proof (cases "others = []")
      case True
      with sf assms show ?thesis
        by (clarsimp simp: finishDocument_def injectSource_def Let_def o s split: prod.splits)
    next
      case False
      with sf assms show ?thesis
        by (clarsimp simp: finishDocument_def injectSource_def Let_def o s split: prod.splits)
    qed
  qed
qed

lemma buildDocument_Inr:
  fixes e :: "('x, 'a) env"
  assumes "buildDocument e d ops = (eff, Inr r)"
  shows "\<exists>html macros dc att t bcd.
           urlToFolderPath e (url d) = fileInfo.folder (fileInfo d) \<and>
           renderDocument e (mergeOptions (buildOptions e) ops) d =
             (eff, Inr (html, liveSamples r, macros)) \<and>
           validateSlug (slug (metadata d)) = (Inr () :: 'x exn + unit) \<and>
           prepareTree e (mergeOptions (buildOptions e) ops) d
             ((newDoc d)\<lparr> flaws_macros := macros \<rparr>) html = ([], Inr (dc, att, t)) \<and>
           finishDocument e (mergeOptions (buildOptions e) ops) d dc t = Inr (doc r, bcd)"
  using assms
  apply (simp add: buildDocument_def Let_def split: if_splits prod.splits sum.splits)
  apply (auto dest: prepareTree_Inr)
  done

subsection \<open>The demonstration document builds\<close>

lemma demo_renderDocument:
  "level \<noteq> ERROR \<Longrightarrow>
   \<exists>m. renderDocument demoEnv (mergeOptions (buildOptions demoEnv) (demoOptions level)) (demoSlug s) =
         ([], Inr (''<p>demo</p>'',
                   [\<lparr> ls_id = ''foo'', ls_html = ''sample Foo'' \<rparr>,
                    \<lparr> ls_id = ''bar'', ls_html = ''sample Bar'' \<rparr>], m))"
  by (cases level)
     (simp_all add: renderDocument_def renderMacros_def macroFlawPolicy_def mergeOptions_def
        demoEnv_def demoOptions_def demoDocument_def demoSlug_def toLowerCase_def lowerChar_def)

lemma demo_prepareTree:
  "\<exists>dc t. prepareTree demoEnv opts (demoSlug s) ((newDoc (demoSlug s))\<lparr> flaws_macros := m \<rparr>) html =
           ([], Inr (dc, [], t))"
  by (simp add: prepareTree_def demoEnv_def demoSlug_def demoDocument_def LANGUAGES_def
        toLowerCase_def lowerChar_def Let_def)

lemma demo_finishDocument:
  "\<exists>dc'. finishDocument demoEnv opts (demoSlug s) dc t = Inr (dc', ())"
  by (simp add: finishDocument_def otherTranslations_def demoEnv_def demoSlug_def
        demoDocument_def Let_def)

lemma demo_builds:
  assumes "validateSlug s = (Inr () :: unit exn + unit)" and "level \<noteq> ERROR"
  shows "\<exists>dc. buildDocument demoEnv (demoSlug s) (demoOptions level) =
           ([], Inr \<lparr> doc = dc,
                     liveSamples = [\<lparr> ls_id = ''foo'', ls_html = ''sample Foo'' \<rparr>,
                                    \<lparr> ls_id = ''bar'', ls_html = ''sample Bar'' \<rparr>],
                     fileAttachments = [], bcdData = () \<rparr>)"
proof -
  let ?opts = "mergeOptions (buildOptions demoEnv) (demoOptions level)"
  obtain m where m: "renderDocument demoEnv ?opts (demoSlug s) =
      ([], Inr (''<p>demo</p>'',
                [\<lparr> ls_id = ''foo'', ls_html = ''sample Foo'' \<rparr>,
                 \<lparr> ls_id = ''bar'', ls_html = ''sample Bar'' \<rparr>], m))"
    using demo_renderDocument[OF assms(2)] by blast
  obtain dc t where p: "prepareTree demoEnv ?opts (demoSlug s)
      ((newDoc (demoSlug s))\<lparr> flaws_macros := m \<rparr>) ''<p>demo</p>'' = ([], Inr (dc, [], t))"
    using demo_prepareTree by blast
  obtain dc' where f: "finishDocument demoEnv ?opts (demoSlug s) dc t = Inr (dc', ())"
    using demo_finishDocument by blast
  have folder: "urlToFolderPath demoEnv (url (demoSlug s)) = fileInfo.folder (fileInfo (demoSlug s))"
    by (simp add: demoEnv_def demoSlug_def demoDocument_def)
  have sl: "slug (metadata (demoSlug s)) = s"
    by (simp add: demoSlug_def)
  show ?thesis
    by (simp add: buildDocument_def Let_def folder m sl assms(1) p f)
qed

lemma validateSlug_demo: "validateSlug ''Web/Demo'' = Inr ()"
  by (simp add: validateSlug_def startsWith_def endsWith_def str_includes_def
        suffix_to_prefix sublist_Cons_right)

lemma validateSlug_orphaned: "validateSlug ''orphaned/Web/Demo'' = Inr ()"
  by (simp add: validateSlug_def startsWith_def endsWith_def str_includes_def
        suffix_to_prefix sublist_Cons_right)

subsection \<open>The indexing decision\<close>

text \<open>
  Claim C7.  A build that returns sets \<open>noIndexing\<close> to true exactly when the document
  is archived and not a translation, or its slug is \<open>MDN/Kitchensink\<close>, or its slug
  starts with \<open>orphaned/\<close> or with \<open>conflicting/\<close>; so a slug that starts with
  \<open>orphaned/\<close> gives true whatever the flags are.
\<close>

theorem noIndexing_decision:
  fixes e :: "('x, 'a) env"
  assumes "buildDocument e d ops = (eff, Inr r)"
  shows "noIndexing (doc r) =
           ((document.isArchive d \<and> \<not> document.isTranslated d) \<or>
            slug (metadata d) = ''MDN/Kitchensink'' \<or>
            startsWith (slug (metadata d)) ''orphaned/'' \<or>
            startsWith (slug (metadata d)) ''conflicting/'') \<and>
         (startsWith (slug (metadata d)) ''orphaned/'' \<longrightarrow> noIndexing (doc r))"
proof -
  obtain html macros dc att t bcd where
    p: "prepareTree e (mergeOptions (buildOptions e) ops) d
          ((newDoc d)\<lparr> flaws_macros := macros \<rparr>) html = ([], Inr (dc, att, t))" and
    f: "finishDocument e (mergeOptions (buildOptions e) ops) d dc t = Inr (doc r, bcd)"
    using buildDocument_Inr[OF assms] by blast
  have "doc.isArchive dc = document.isArchive d" "doc.isTranslated dc = document.isTranslated d"
    using prepareTree_Inr[OF p] by (simp_all add: newDoc_def)
  with finishDocument_Inr[OF f] show ?thesis by simp
qed

theorem noIndexing_decision_witness:
  "\<exists>r. buildDocument demoEnv (demoSlug ''orphaned/Web/Demo'') (demoOptions WARN) = ([], Inr r) \<and>
       noIndexing (doc r)"
proof -
  obtain r where r: "buildDocument demoEnv (demoSlug ''orphaned/Web/Demo'') (demoOptions WARN) =
      ([], Inr r)"
    using demo_builds[OF validateSlug_orphaned, of WARN] by auto
  have "startsWith (slug (metadata (demoSlug ''orphaned/Web/Demo''))) ''orphaned/''"
    by (simp add: demoSlug_def startsWith_def)
  with noIndexing_decision[OF r] r show ?thesis by blast
qed

subsection \<open>The popularity\<close>

lemma toFixed_zero: "toFixed 0 f = 0"
  by (simp add: toFixed_def floor_eq_iff)

lemma toFixed_multiple: "\<exists>n::int. toFixed x f = of_int n / 10 ^ f"
proof (cases "x < 0")
  case True
  then have "toFixed x f = of_int (- \<lfloor>- x * 10 ^ f + 1 / 2\<rfloor>) / 10 ^ f"
    by (simp add: toFixed_def)
  then show ?thesis by blast
next
  case False
  then have "toFixed x f = of_int \<lfloor>x * 10 ^ f + 1 / 2\<rfloor> / 10 ^ f"
    by (simp add: toFixed_def)
  then show ?thesis by blast
qed

lemma scaled_near:
  fixes a p x :: rat
  assumes p: "0 < p" and near: "\<bar>a - x * p\<bar> \<le> 1 / 2"
  shows "\<bar>a / p - x\<bar> \<le> 1 / (2 * p)"
proof -
  have "a / p - x = (a - x * p) / p"
    using p by (simp add: field_simps)
  then have "\<bar>a / p - x\<bar> = \<bar>a - x * p\<bar> / p"
    using p by simp
  also have "\<dots> \<le> (1 / 2) / p"
    by (rule divide_right_mono) (use near p in simp_all)
  finally show ?thesis by simp
qed

lemma round_half_near: "\<bar>of_int \<lfloor>y + 1 / 2\<rfloor> - y\<bar> \<le> 1 / 2" for y :: rat
  by linarith

lemma toFixed_near: "\<bar>toFixed x f - x\<bar> \<le> 1 / (2 * 10 ^ f)"
proof (cases "x < 0")
  case True
  have "\<bar>of_int \<lfloor>- x * 10 ^ f + 1 / 2\<rfloor> / 10 ^ f - (- x)\<bar> \<le> 1 / (2 * 10 ^ f)"
    by (rule scaled_near) (use round_half_near[of "- x * 10 ^ f"] in simp_all)
  moreover have "toFixed x f - x = - (of_int \<lfloor>- x * 10 ^ f + 1 / 2\<rfloor> / 10 ^ f - (- x))"
    using True by (simp add: toFixed_def)
  ultimately show ?thesis by (simp only: abs_minus_cancel)
next
  case False
  have "\<bar>of_int \<lfloor>x * 10 ^ f + 1 / 2\<rfloor> / 10 ^ f - x\<bar> \<le> 1 / (2 * 10 ^ f)"
    by (rule scaled_near) (use round_half_near[of "x * 10 ^ f"] in simp_all)
  then show ?thesis using False by (simp add: toFixed_def)
qed

lemma toFixed_example: "toFixed (123456789 / 1000000000) 4 = 1235 / 10000"
  by (simp add: toFixed_def floor_eq_iff)

text \<open>
  Claim C9.  A build that returns stores as \<open>doc.popularity\<close> the popularity of the
  metadata rounded to four decimal places, a multiple of \<open>1/10000\<close> at most
  \<open>1/20000\<close> away from it, so \<open>0.123456789\<close> is stored as \<open>0.1235\<close>; an absent
  popularity is stored as \<open>0\<close>.
\<close>

theorem popularity_rounded:
  fixes e :: "('x, 'a) env"
  assumes "buildDocument e d ops = (eff, Inr r)"
  shows "doc.popularity (doc r) =
           (case metadata.popularity (metadata d) of None \<Rightarrow> 0 | Some p \<Rightarrow> toFixed p 4) \<and>
         (\<forall>p. metadata.popularity (metadata d) = Some p \<longrightarrow>
              (\<exists>n::int. doc.popularity (doc r) = of_int n / 10000) \<and>
              \<bar>doc.popularity (doc r) - p\<bar> \<le> 1 / 20000) \<and>
         (metadata.popularity (metadata d) = Some (123456789 / 1000000000) \<longrightarrow>
            doc.popularity (doc r) = 1235 / 10000) \<and>
         (metadata.popularity (metadata d) = None \<longrightarrow> doc.popularity (doc r) = 0)"
proof -
  obtain html macros dc att t bcd where
    f: "finishDocument e (mergeOptions (buildOptions e) ops) d dc t = Inr (doc r, bcd)"
    using buildDocument_Inr[OF assms] by blast
  have stored: "doc.popularity (doc r) =
      (case metadata.popularity (metadata d) of None \<Rightarrow> 0 | Some p \<Rightarrow> toFixed p 4)"
    using finishDocument_Inr[OF f] by (simp add: toFixed_zero split: option.splits)
  have "\<exists>n::int. toFixed p 4 = of_int n / 10000" for p
    using toFixed_multiple[of p 4] by simp
  moreover have "\<bar>toFixed p 4 - p\<bar> \<le> 1 / 20000" for p
    using toFixed_near[of p 4] by simp
  ultimately show ?thesis
    using stored toFixed_example by simp
qed

theorem popularity_rounded_witness:
  "\<exists>r. buildDocument demoEnv (demoSlug ''Web/Demo'') (demoOptions WARN) = ([], Inr r) \<and>
       doc.popularity (doc r) = 1235 / 10000"
proof -
  obtain r where r: "buildDocument demoEnv (demoSlug ''Web/Demo'') (demoOptions WARN) = ([], Inr r)"
    using demo_builds[OF validateSlug_demo, of WARN] by auto
  have "metadata.popularity (metadata (demoSlug ''Web/Demo'')) = Some (123456789 / 1000000000)"
    by (simp add: demoSlug_def demoDocument_def)
  with popularity_rounded[OF r] r show ?thesis by blast
qed

subsection \<open>The slug validation\<close>

lemma buildLiveSamples_parser:
  "buildLiveSamples (e\<lparr> cheerio_load := l \<rparr>) d html ids flaws samples =
   buildLiveSamples e d html ids flaws samples"
  by (induction ids arbitrary: flaws samples) (simp_all add: Let_def split: option.splits)

lemma renderMacros_parser:
  "renderMacros (e\<lparr> cheerio_load := l \<rparr>) opts d = renderMacros e opts d"
  by (simp add: renderMacros_def Let_def split: sum.splits thrown.splits)

lemma macroFlawPolicy_parser:
  "macroFlawPolicy (e\<lparr> cheerio_load := l \<rparr>) opts d flaws = macroFlawPolicy e opts d flaws"
  by (simp add: macroFlawPolicy_def reportFlaws_def)

lemma renderDocument_parser:
  "renderDocument (e\<lparr> cheerio_load := l \<rparr>) opts d = renderDocument e opts d"
  by (simp add: renderDocument_def renderMacros_parser macroFlawPolicy_parser
        buildLiveSamples_parser Let_def split: prod.splits sum.splits)

lemma validateSlug_Inl:
  assumes "s = [] \<or> startsWith s ''/'' \<or> endsWith s ''/'' \<or> str_includes s ''//''"
  shows "\<exists>m. validateSlug s = Inl (Error m)"
  using assms by (auto simp: validateSlug_def)

text \<open>
  Claim C6.  For a slug that is empty, starts with \<open>/\<close>, ends with \<open>/\<close> or
  contains \<open>//\<close>, \<open>validateSlug\<close> throws, and \<open>buildDocument\<close> throws before
  the tree is loaded: a build whose folder matches and whose rendering returns ends with
  the error of \<open>validateSlug\<close>, every build of such a document throws, and its outcome
  does not depend on the parser.
\<close>

theorem slug_validation_fails:
  fixes e :: "('x, 'a) env"
  assumes "slug (metadata d) = [] \<or> startsWith (slug (metadata d)) ''/'' \<or>
           endsWith (slug (metadata d)) ''/'' \<or> str_includes (slug (metadata d)) ''//''"
  shows "(\<exists>m. validateSlug (slug (metadata d)) = (Inl (Error m) :: 'x exn + unit) \<and>
              buildDocument e d ops =
                (if urlToFolderPath e (url d) \<noteq> fileInfo.folder (fileInfo d)
                 then ([], Inl (Error (SlugFolderMismatch (slug (metadata d))
                                         (fileInfo.folder (fileInfo d)))))
                 else case renderDocument e (mergeOptions (buildOptions e) ops) d of
                        (eff, Inl err) \<Rightarrow> (eff, Inl err)
                      | (eff, Inr rendered) \<Rightarrow> (eff, Inl (Error m)))) \<and>
         (\<exists>eff err. buildDocument e d ops = (eff, Inl err)) \<and>
         (\<forall>l. buildDocument (e\<lparr> cheerio_load := l \<rparr>) d ops = buildDocument e d ops)"
proof -
  obtain m where m: "validateSlug (slug (metadata d)) = (Inl (Error m) :: 'x exn + unit)"
    using validateSlug_Inl[OF assms] by blast
  have eq: "buildDocument e' d ops =
      (if urlToFolderPath e' (url d) \<noteq> fileInfo.folder (fileInfo d)
       then ([], Inl (Error (SlugFolderMismatch (slug (metadata d)) (fileInfo.folder (fileInfo d)))))
       else case renderDocument e' (mergeOptions (buildOptions e') ops) d of
              (eff, Inl err) \<Rightarrow> (eff, Inl err)
            | (eff, Inr rendered) \<Rightarrow> (eff, Inl (Error m)))" for e' :: "('x, 'a) env"
    by (simp add: buildDocument_def Let_def m split: prod.splits sum.splits)
  have "\<exists>eff err. buildDocument e d ops = (eff, Inl err)"
    by (simp add: eq split: prod.splits sum.splits)
  moreover have "buildDocument (e\<lparr> cheerio_load := l \<rparr>) d ops = buildDocument e d ops" for l
    by (simp add: eq renderDocument_parser)
  ultimately show ?thesis using m eq by blast
qed

theorem slug_validation_fails_witness:
  "buildDocument demoEnv (demoSlug ''a//b'') (demoOptions WARN) =
     ([], Inl (Error (SlugContainsDoubleSlash ''a//b''))) \<and>
   buildDocument demoEnv (demoSlug ''/a/b'') (demoOptions WARN) =
     ([], Inl (Error (SlugStartsWithSlash ''/a/b''))) \<and>
   buildDocument demoEnv (demoSlug ''a/b/'') (demoOptions WARN) =
     ([], Inl (Error (SlugEndsWithSlash ''a/b/'')))"
proof -
  have folder: "urlToFolderPath demoEnv (url (demoSlug s)) = fileInfo.folder (fileInfo (demoSlug s))" for s
    by (simp add: demoEnv_def demoSlug_def demoDocument_def)
  have sl: "slug (metadata (demoSlug s)) = s" for s
    by (simp add: demoSlug_def)
  have r: "\<exists>rendered. renderDocument demoEnv (mergeOptions (buildOptions demoEnv) (demoOptions WARN)) (demoSlug s) =
      ([], Inr rendered)" for s
    using demo_renderDocument[of WARN s] by auto
  have v: "validateSlug ''a//b'' = (Inl (Error (SlugContainsDoubleSlash ''a//b'')) :: unit exn + unit)"
          "validateSlug ''/a/b'' = (Inl (Error (SlugStartsWithSlash ''/a/b'')) :: unit exn + unit)"
          "validateSlug ''a/b/'' = (Inl (Error (SlugEndsWithSlash ''a/b/'')) :: unit exn + unit)"
    by (simp_all add: validateSlug_def startsWith_def endsWith_def str_includes_def
          suffix_to_prefix sublist_Cons_right)
  have bad: "str_includes ''a//b'' ''//''" "startsWith ''/a/b'' ''/''" "endsWith ''a/b/'' ''/''"
    by (simp_all add: startsWith_def endsWith_def str_includes_def suffix_to_prefix sublist_Cons_right)
  have 1: "buildDocument demoEnv (demoSlug ''a//b'') (demoOptions WARN) =
     ([], Inl (Error (SlugContainsDoubleSlash ''a//b'')))"
    using slug_validation_fails[where d = "demoSlug ''a//b''" and e = demoEnv and ops = "demoOptions WARN"]
      r[of "''a//b''"] bad
    by (auto simp: folder sl v)
  have 2: "buildDocument demoEnv (demoSlug ''/a/b'') (demoOptions WARN) =
     ([], Inl (Error (SlugStartsWithSlash ''/a/b'')))"
    using slug_validation_fails[where d = "demoSlug ''/a/b''" and e = demoEnv and ops = "demoOptions WARN"]
      r[of "''/a/b''"] bad
    by (auto simp: folder sl v)
  have 3: "buildDocument demoEnv (demoSlug ''a/b/'') (demoOptions WARN) =
     ([], Inl (Error (SlugEndsWithSlash ''a/b/'')))"
    using slug_validation_fails[where d = "demoSlug ''a/b/''" and e = demoEnv and ops = "demoOptions WARN"]
      r[of "''a/b/''"] bad
    by (auto simp: folder sl v)
  from 1 2 3 show ?thesis by simp
qed

subsection \<open>Live samples and macro flaws\<close>

lemma buildLiveSamples_eq:
  "buildLiveSamples e d html ids flaws samples =
     (flaws @ List.map_filter
                (\<lambda>s. map_option (\<lambda>fl. updateFileInfo e fl (fileInfo d))
                       (page_flaw (buildLiveSamplePage e (url d) (metadata.title (metadata d)) html s)))
                ids,
      samples @ map (\<lambda>s. \<lparr> ls_id = toLowerCase (sample_id s),
                            ls_html = page_html (buildLiveSamplePage e (url d)
                                         (metadata.title (metadata d)) html s) \<rparr>)
                  (filter (\<lambda>s. page_flaw (buildLiveSamplePage e (url d)
                                    (metadata.title (metadata d)) html s) = None) ids))"
  by (induction ids arbitrary: flaws samples)
     (simp_all add: List.map_filter_simps Let_def split: option.splits)

lemma renderDocument_rendered:
  assumes "\<not> document.isArchive d" and "render e (url d) = Inr (html, flaws0)"
  shows "renderDocument e opts d =
           (case macroFlawPolicy e opts d
                   (fst (buildLiveSamples e d html
                           (getLiveSampleIDs e (slug (metadata d)) (rawHTML d)) flaws0 [])) of
              (eff', Inl err) \<Rightarrow>
                ((if clearKumascriptRenderCache opts then [RenderCacheReset] else []) @ eff', Inl err)
            | (eff', Inr macros) \<Rightarrow>
                ((if clearKumascriptRenderCache opts then [RenderCacheReset] else []) @ eff',
                 Inr (html,
                      snd (buildLiveSamples e d html
                             (getLiveSampleIDs e (slug (metadata d)) (rawHTML d)) flaws0 []),
                      macros)))"
  using assms
  by (simp add: renderDocument_def renderMacros_def Let_def split: prod.splits sum.splits)

lemma reportFlaws_mentions:
  assumes "i < length flaws"
  shows "ConsoleError (FlawNumberName (i + 1) (name (flaws ! i))) \<in> set (reportFlaws e d flaws)"
    and "ConsoleError (FlawText (flawToString e (flaws ! i))) \<in> set (reportFlaws e d flaws)"
proof -
  have "(i, flaws ! i) \<in> set (enumerate 0 flaws)"
    using assms by (simp add: in_set_enumerate_eq)
  then show "ConsoleError (FlawNumberName (i + 1) (name (flaws ! i))) \<in> set (reportFlaws e d flaws)"
    and "ConsoleError (FlawText (flawToString e (flaws ! i))) \<in> set (reportFlaws e d flaws)"
    by (force simp: reportFlaws_def)+
qed

lemma buildDocument_flaw_error:
  fixes e :: "('x, 'a) env"
  assumes "\<not> document.isArchive d"
    and "flawLevels (mergeOptions (buildOptions e) ops) ''macros'' = Some ERROR"
    and "render e (url d) = Inr (html, flaws0)"
    and "fst (buildLiveSamples e d html
                (getLiveSampleIDs e (slug (metadata d)) (rawHTML d)) flaws0 []) \<noteq> []"
  shows "buildDocument e d ops =
           (if urlToFolderPath e (url d) \<noteq> fileInfo.folder (fileInfo d)
            then ([], Inl (Error (SlugFolderMismatch (slug (metadata d))
                                    (fileInfo.folder (fileInfo d)))))
            else ((if clearKumascriptRenderCache (mergeOptions (buildOptions e) ops)
                   then [RenderCacheReset] else []) @
                  reportFlaws e d
                    (fst (buildLiveSamples e d html
                            (getLiveSampleIDs e (slug (metadata d)) (rawHTML d)) flaws0 [])),
                  Inl (Error FlawErrorEncountered)))"
  using assms
  by (simp add: buildDocument_def Let_def renderDocument_rendered macroFlawPolicy_def)

lemma demo_render: "render demoEnv u = Inr (''<p>demo</p>'', [demoFlaw ''MacroBrokenLinkError''])"
  by (simp add: demoEnv_def)

lemma demo_not_archived: "\<not> document.isArchive (demoSlug s)"
  by (simp add: demoSlug_def demoDocument_def)

lemma demo_level: "flawLevels (mergeOptions (buildOptions demoEnv) (demoOptions level)) k = Some level"
  by (simp add: mergeOptions_def demoOptions_def)

lemma demo_folder: "urlToFolderPath demoEnv (url (demoSlug s)) = fileInfo.folder (fileInfo (demoSlug s))"
  by (simp add: demoEnv_def demoSlug_def demoDocument_def)

lemma demo_flaws:
  "fst (buildLiveSamples demoEnv (demoSlug s) ''<p>demo</p>''
          (getLiveSampleIDs demoEnv (slug (metadata (demoSlug s))) (rawHTML (demoSlug s)))
          [demoFlaw ''MacroBrokenLinkError''] []) =
     [demoFlaw ''MacroBrokenLinkError'',
      (demoFlaw ''MacroLiveSampleError'')\<lparr> filepath := Some ''en-us/web/demo/index.html'' \<rparr>]"
  by (simp add: demoEnv_def demoSlug_def demoDocument_def)

text \<open>
  Claim C4.  When the document is not archived, the level of the macro flaws is
  \<open>error\<close> and the rendering reported a flaw, \<open>buildDocument\<close> throws and returns no
  document; when the folder of the document matches, the build has printed the
  heading and, for every flaw found, its name and its text, and then throws the flaw
  error.
\<close>

theorem macro_flaw_error_throws:
  fixes e :: "('x, 'a) env"
  assumes "\<not> document.isArchive d"
    and "flawLevels (mergeOptions (buildOptions e) ops) ''macros'' = Some ERROR"
    and "render e (url d) = Inr (html, flaws0)"
    and "flaws0 \<noteq> []"
    and "flaws = fst (buildLiveSamples e d html
                        (getLiveSampleIDs e (slug (metadata d)) (rawHTML d)) flaws0 [])"
  shows "set flaws0 \<subseteq> set flaws \<and>
         (\<exists>eff err. buildDocument e d ops = (eff, Inl err :: 'x exn + 'a result)) \<and>
         (urlToFolderPath e (url d) = fileInfo.folder (fileInfo d) \<longrightarrow>
            buildDocument e d ops =
              ((if clearKumascriptRenderCache (mergeOptions (buildOptions e) ops)
                then [RenderCacheReset] else []) @ reportFlaws e d flaws,
               Inl (Error FlawErrorEncountered))) \<and>
         (\<forall>i. i < length flaws \<longrightarrow>
            ConsoleError (FlawNumberName (i + 1) (name (flaws ! i))) \<in> set (reportFlaws e d flaws) \<and>
            ConsoleError (FlawText (flawToString e (flaws ! i))) \<in> set (reportFlaws e d flaws))"
proof -
  have sub: "set flaws0 \<subseteq> set flaws"
    by (simp add: assms(5) buildLiveSamples_eq)
  have ne: "fst (buildLiveSamples e d html
                   (getLiveSampleIDs e (slug (metadata d)) (rawHTML d)) flaws0 []) \<noteq> []"
    using assms(4) by (simp add: buildLiveSamples_eq)
  note eq = buildDocument_flaw_error[OF assms(1-3) ne]
  have "\<exists>eff err. buildDocument e d ops = (eff, Inl err :: 'x exn + 'a result)"
    by (simp add: eq)
  moreover have "urlToFolderPath e (url d) = fileInfo.folder (fileInfo d) \<longrightarrow>
      buildDocument e d ops =
        ((if clearKumascriptRenderCache (mergeOptions (buildOptions e) ops)
          then [RenderCacheReset] else []) @ reportFlaws e d flaws,
         Inl (Error FlawErrorEncountered))"
    by (simp add: eq assms(5))
  ultimately show ?thesis
    using sub reportFlaws_mentions[of _ flaws e d] by blast
qed

theorem macro_flaw_error_throws_witness:
  "buildDocument demoEnv (demoSlug ''Web/Demo'') (demoOptions ERROR) =
     ([ConsoleError (FlawsWithin 2 ''Web/Demo''),
       ConsoleError (FlawNumberName 1 ''MacroBrokenLinkError''),
       ConsoleError (FlawText ''MacroBrokenLinkError''),
       ConsoleError (FlawNumberName 2 ''MacroLiveSampleError''),
       ConsoleError (FlawText ''MacroLiveSampleError'')],
      Inl (Error FlawErrorEncountered))"
proof -
  have ne: "[demoFlaw ''MacroBrokenLinkError''] \<noteq> []" by simp
  have "buildDocument demoEnv (demoSlug ''Web/Demo'') (demoOptions ERROR) =
      ((if clearKumascriptRenderCache (mergeOptions (buildOptions demoEnv) (demoOptions ERROR))
        then [RenderCacheReset] else []) @
       reportFlaws demoEnv (demoSlug ''Web/Demo'')
         [demoFlaw ''MacroBrokenLinkError'',
          (demoFlaw ''MacroLiveSampleError'')\<lparr> filepath := Some ''en-us/web/demo/index.html'' \<rparr>],
       Inl (Error FlawErrorEncountered))"
    using macro_flaw_error_throws[OF demo_not_archived[of "''Web/Demo''"] demo_level demo_render ne
        demo_flaws[symmetric]]
    by (simp add: demo_folder)
  then show ?thesis
    by (simp add: reportFlaws_def mergeOptions_def demoOptions_def demoEnv_def demoSlug_def
          demoFlaw_def)
qed

lemma buildLiveSamples_append:
  "buildLiveSamples e d html (xs @ ys) flaws samples =
     (case buildLiveSamples e d html xs flaws samples of
        (flaws', samples') \<Rightarrow> buildLiveSamples e d html ys flaws' samples')"
  by (induction xs arbitrary: flaws samples) (simp_all add: Let_def split: option.splits)

lemma macro_flaw_macroFlawRecord: "macro_flaw (macroFlawRecord d i fl) = fl"
  by (simp add: macroFlawRecord_def)

lemma macroFlawPolicy_Inr:
  "macroFlawPolicy e opts d flaws = (eff, Inr macros) \<Longrightarrow> eff = []"
  by (simp add: macroFlawPolicy_def split: if_splits)

lemma buildDocument_rendered:
  fixes e :: "('x, 'a) env"
  assumes "buildDocument e d ops = (eff, Inr r)"
    and "\<not> document.isArchive d"
    and "render e (url d) = Inr (html, flaws0)"
  shows "liveSamples r =
           snd (buildLiveSamples e d html
                  (getLiveSampleIDs e (slug (metadata d)) (rawHTML d)) flaws0 []) \<and>
         macroFlawPolicy e (mergeOptions (buildOptions e) ops) d
           (fst (buildLiveSamples e d html
                   (getLiveSampleIDs e (slug (metadata d)) (rawHTML d)) flaws0 [])) =
           ([], Inr (flaws_macros (doc r))) \<and>
         eff = (if clearKumascriptRenderCache (mergeOptions (buildOptions e) ops)
                then [RenderCacheReset] else [])"
proof -
  let ?opts = "mergeOptions (buildOptions e) ops"
  obtain html' macros dc att t bcd where
    r: "renderDocument e ?opts d = (eff, Inr (html', liveSamples r, macros))" and
    p: "prepareTree e ?opts d ((newDoc d)\<lparr> flaws_macros := macros \<rparr>) html' = ([], Inr (dc, att, t))" and
    f: "finishDocument e ?opts d dc t = Inr (doc r, bcd)"
    using buildDocument_Inr[OF assms(1)] by blast
  have m: "flaws_macros (doc r) = macros"
    using prepareTree_Inr[OF p] finishDocument_Inr[OF f] by simp
  show ?thesis
    using r unfolding renderDocument_rendered[OF assms(2,3)] m
    by (auto split: prod.splits sum.splits dest: macroFlawPolicy_Inr)
qed

lemma failed_sample_flaw_listed:
  assumes "s \<in> set ids"
    and "page_flaw (buildLiveSamplePage e (url d) (metadata.title (metadata d)) html s) = Some fl"
  shows "updateFileInfo e fl (fileInfo d) \<in> set (fst (buildLiveSamples e d html ids flaws0 []))"
  using assms by (auto simp: buildLiveSamples_eq List.map_filter_def intro!: image_eqI[where x = s])

text \<open>
  Claim C3.  The flaw of a live sample that fails to build is in the one list of the
  macro flaws, behind the flaws of the rendering, and the level of the macro flaws
  decides about it: under \<open>error\<close> the build throws (the flaw error, when the folder
  matches); under \<open>warn\<close> a build that returns lists it in \<open>doc.flaws.macros\<close>, among
  the records of all the macro flaws; under \<open>ignore\<close> a build that returns has no
  \<open>doc.flaws.macros\<close> and has printed nothing.
\<close>

theorem live_sample_flaw_follows_macro_policy:
  fixes e :: "('x, 'a) env"
  assumes "\<not> document.isArchive d"
    and "render e (url d) = Inr (html, flaws0)"
    and "s \<in> set (getLiveSampleIDs e (slug (metadata d)) (rawHTML d))"
    and "page_flaw (buildLiveSamplePage e (url d) (metadata.title (metadata d)) html s) = Some fl"
    and "flaws = fst (buildLiveSamples e d html
                        (getLiveSampleIDs e (slug (metadata d)) (rawHTML d)) flaws0 [])"
    and "level = flawLevels (mergeOptions (buildOptions e) ops) ''macros''"
  shows "(\<exists>i. i < length flaws \<and> flaws ! i = updateFileInfo e fl (fileInfo d) \<and>
              macro_flaw (macroFlawRecord d i (flaws ! i)) = updateFileInfo e fl (fileInfo d)) \<and>
         take (length flaws0) flaws = flaws0 \<and>
         (level = Some ERROR \<longrightarrow>
            (\<exists>eff err. buildDocument e d ops = (eff, Inl err :: 'x exn + 'a result)) \<and>
            (urlToFolderPath e (url d) = fileInfo.folder (fileInfo d) \<longrightarrow>
               snd (buildDocument e d ops) = (Inl (Error FlawErrorEncountered) :: 'x exn + 'a result))) \<and>
         (level = Some WARN \<longrightarrow>
            (\<forall>eff r. buildDocument e d ops = (eff, Inr r) \<longrightarrow>
               flaws_macros (doc r) =
                 Some (map (\<lambda>(i, f). macroFlawRecord d i f) (enumerate 0 flaws)))) \<and>
         (level = Some IGNORE \<longrightarrow>
            (\<forall>eff r. buildDocument e d ops = (eff, Inr r) \<longrightarrow>
               flaws_macros (doc r) = None \<and>
               eff = (if clearKumascriptRenderCache (mergeOptions (buildOptions e) ops)
                      then [RenderCacheReset] else [])))"
proof -
  let ?opts = "mergeOptions (buildOptions e) ops"
  have listed: "updateFileInfo e fl (fileInfo d) \<in> set flaws"
    unfolding assms(5) by (rule failed_sample_flaw_listed[OF assms(3,4)])
  then have ne: "flaws \<noteq> []" by auto
  from listed obtain i where i: "i < length flaws" "flaws ! i = updateFileInfo e fl (fileInfo d)"
    by (auto simp: in_set_conv_nth)
  have first: "\<exists>i. i < length flaws \<and> flaws ! i = updateFileInfo e fl (fileInfo d) \<and>
      macro_flaw (macroFlawRecord d i (flaws ! i)) = updateFileInfo e fl (fileInfo d)"
    using i by (auto simp: macro_flaw_macroFlawRecord)
  have pre: "take (length flaws0) flaws = flaws0"
    by (simp add: assms(5) buildLiveSamples_eq)
  have err: "(\<exists>eff err. buildDocument e d ops = (eff, Inl err :: 'x exn + 'a result)) \<and>
      (urlToFolderPath e (url d) = fileInfo.folder (fileInfo d) \<longrightarrow>
         snd (buildDocument e d ops) = (Inl (Error FlawErrorEncountered) :: 'x exn + 'a result))"
    if "level = Some ERROR"
    using buildDocument_flaw_error[OF assms(1) _ assms(2), of ops] that ne
    by (simp add: assms(5,6))
  have warn: "flaws_macros (doc r) = Some (map (\<lambda>(i, f). macroFlawRecord d i f) (enumerate 0 flaws))"
    if "level = Some WARN" "buildDocument e d ops = (eff, Inr r)" for eff r
    using buildDocument_rendered[OF that(2) assms(1,2)] that(1) ne
    by (simp add: macroFlawPolicy_def assms(5,6)[symmetric])
  have ign: "flaws_macros (doc r) = None \<and>
      eff = (if clearKumascriptRenderCache ?opts then [RenderCacheReset] else [])"
    if "level = Some IGNORE" "buildDocument e d ops = (eff, Inr r)" for eff r
    using buildDocument_rendered[OF that(2) assms(1,2)] that(1) ne
    by (simp add: macroFlawPolicy_def assms(5,6)[symmetric])
  show ?thesis
    using first pre err warn ign by blast
qed

lemma demo_bad_sample:
  "\<lparr> sample_id = ''Bad'' \<rparr> \<in> set (getLiveSampleIDs demoEnv (slug (metadata (demoSlug s))) (rawHTML (demoSlug s)))"
  "page_flaw (buildLiveSamplePage demoEnv (url (demoSlug s)) (metadata.title (metadata (demoSlug s)))
                html \<lparr> sample_id = ''Bad'' \<rparr>) = Some (demoFlaw ''MacroLiveSampleError'')"
  by (simp_all add: demoEnv_def)

theorem live_sample_flaw_follows_macro_policy_witness:
  "snd (buildDocument demoEnv (demoSlug ''Web/Demo'') (demoOptions ERROR)) =
     Inl (Error FlawErrorEncountered) \<and>
   (\<exists>r. buildDocument demoEnv (demoSlug ''Web/Demo'') (demoOptions WARN) = ([], Inr r) \<and>
        map (\<lambda>m. name (macro_flaw m)) (the (flaws_macros (doc r))) =
          [''MacroBrokenLinkError'', ''MacroLiveSampleError'']) \<and>
   (\<exists>r. buildDocument demoEnv (demoSlug ''Web/Demo'') (demoOptions IGNORE) = ([], Inr r) \<and>
        flaws_macros (doc r) = None)"
proof -
  have lv: "Some level = flawLevels (mergeOptions (buildOptions demoEnv) (demoOptions level)) ''macros''"
    for level
    by (simp add: demo_level)
  note inst = live_sample_flaw_follows_macro_policy[OF demo_not_archived[of "''Web/Demo''"]
      demo_render demo_bad_sample(1)[of "''Web/Demo''"] demo_bad_sample(2) demo_flaws[symmetric]]
  have 1: "snd (buildDocument demoEnv (demoSlug ''Web/Demo'') (demoOptions ERROR)) =
     Inl (Error FlawErrorEncountered)"
    by (rule inst[OF lv[of ERROR], THEN conjunct2, THEN conjunct2, THEN conjunct1, THEN mp,
          OF refl, THEN conjunct2, THEN mp, OF demo_folder])
  obtain r where r: "buildDocument demoEnv (demoSlug ''Web/Demo'') (demoOptions WARN) = ([], Inr r)"
    using demo_builds[OF validateSlug_demo, of WARN] by auto
  have "flaws_macros (doc r) =
      Some (map (\<lambda>(i, f). macroFlawRecord (demoSlug ''Web/Demo'') i f)
              (enumerate 0
                 [demoFlaw ''MacroBrokenLinkError'',
                  (demoFlaw ''MacroLiveSampleError'')\<lparr> filepath := Some ''en-us/web/demo/index.html'' \<rparr>]))"
    by (rule inst[OF lv[of WARN], THEN conjunct2, THEN conjunct2, THEN conjunct2, THEN conjunct1,
          THEN mp, OF refl, THEN spec, THEN spec, THEN mp, OF r])
  then have 2: "map (\<lambda>m. name (macro_flaw m)) (the (flaws_macros (doc r))) =
          [''MacroBrokenLinkError'', ''MacroLiveSampleError'']"
    by (simp add: macro_flaw_macroFlawRecord demoFlaw_def)
  obtain r' where r': "buildDocument demoEnv (demoSlug ''Web/Demo'') (demoOptions IGNORE) = ([], Inr r')"
    using demo_builds[OF validateSlug_demo, of IGNORE] by auto
  have 3: "flaws_macros (doc r') = None"
    by (rule inst[OF lv[of IGNORE], THEN conjunct2, THEN conjunct2, THEN conjunct2, THEN conjunct2,
          THEN mp, OF refl, THEN spec, THEN spec, THEN mp, OF r', THEN conjunct1])
  have A: "\<exists>r. buildDocument demoEnv (demoSlug ''Web/Demo'') (demoOptions WARN) = ([], Inr r) \<and>
        map (\<lambda>m. name (macro_flaw m)) (the (flaws_macros (doc r))) =
          [''MacroBrokenLinkError'', ''MacroLiveSampleError'']"
    by (rule exI[of _ r], rule conjI, rule r, rule 2)
  have B: "\<exists>r. buildDocument demoEnv (demoSlug ''Web/Demo'') (demoOptions IGNORE) = ([], Inr r) \<and>
        flaws_macros (doc r) = None"
    by (rule exI[of _ r'], rule conjI, rule r', rule 3)
  show ?thesis
    by (rule conjI, rule 1, rule conjI, rule A, rule B)
qed

subsection \<open>The ids of the live samples\<close>

lemma findLiveSample_eq:
  "findLiveSample e d documentURL sampleID ids =
     (case find (\<lambda>s. Some (toLowerCase (sample_id s)) = sampleID) ids of
        None \<Rightarrow> Inl (Error (NoLiveSampleFound sampleID documentURL))
      | Some s \<Rightarrow>
          (case render e (url d) of
             Inl err \<Rightarrow> Inl (Rethrown err)
           | Inr (renderedHtml, _) \<Rightarrow>
               (case page_flaw (buildLiveSamplePage e (url d) (metadata.title (metadata d))
                                  renderedHtml s) of
                  Some fl \<Rightarrow> Inl (Error (FlawAsString (flawToString e fl)))
                | None \<Rightarrow> Inr (page_html (buildLiveSamplePage e (url d)
                                    (metadata.title (metadata d)) renderedHtml s)))))"
  by (induction ids) (simp_all add: Let_def split: sum.splits prod.splits option.splits)

lemma find_distinct_key:
  assumes "s \<in> set xs" and "distinct (map f xs)"
  shows "find (\<lambda>x. f x = f s) xs = Some s"
  using assms by (induction xs) (auto simp: image_iff)

text \<open>
  Claim C1, as the module has it.  A build that returns stores every live sample that
  builds under its id in lower case.  \<open>buildLiveSamplePageFromURL\<close> compares the id of
  the URL, as it stands, with the declared ids in lower case: it builds the first
  sample whose lower-case id is the id of the URL, which is the sample itself when the
  URL has the lower-case form of its id and the lower-case ids are distinct, and it
  throws the not-found error when the id of the URL is the lower-case form of no
  declared id.
\<close>

theorem live_sample_ids_lower_case:
  fixes e :: "('x, 'a) env"
  assumes "render e (url d) = Inr (html, flaws0)"
    and "ids = getLiveSampleIDs e (slug (metadata d)) (rawHTML d)"
  shows "(\<forall>eff r ops. buildDocument e d ops = (eff, Inr r) \<and> \<not> document.isArchive d \<longrightarrow>
            map ls_id (liveSamples r) =
              map (\<lambda>s. toLowerCase (sample_id s))
                (filter (\<lambda>s. page_flaw (buildLiveSamplePage e (url d)
                                  (metadata.title (metadata d)) html s) = None) ids)) \<and>
         (\<forall>u documentURL i rest.
            str_split u ''/_samples_/'' = documentURL # i # rest \<and>
            findByURL e documentURL = Some d \<longrightarrow>
            buildLiveSamplePageFromURL e u =
              (case find (\<lambda>s. toLowerCase (sample_id s) = i) ids of
                 None \<Rightarrow> Inl (Error (NoLiveSampleFound (Some i) documentURL))
               | Some s \<Rightarrow>
                   (case page_flaw (buildLiveSamplePage e (url d)
                                      (metadata.title (metadata d)) html s) of
                      Some fl \<Rightarrow> Inl (Error (FlawAsString (flawToString e fl)))
                    | None \<Rightarrow> Inr (page_html (buildLiveSamplePage e (url d)
                                        (metadata.title (metadata d)) html s)))) \<and>
            (\<forall>s. s \<in> set ids \<and> distinct (map (\<lambda>s. toLowerCase (sample_id s)) ids) \<and>
                  i = toLowerCase (sample_id s) \<longrightarrow>
                  find (\<lambda>s. toLowerCase (sample_id s) = i) ids = Some s) \<and>
            (i \<notin> set (map (\<lambda>s. toLowerCase (sample_id s)) ids) \<longrightarrow>
               buildLiveSamplePageFromURL e u =
                 Inl (Error (NoLiveSampleFound (Some i) documentURL))))"
proof -
  have stored: "map ls_id (liveSamples r) =
      map (\<lambda>s. toLowerCase (sample_id s))
        (filter (\<lambda>s. page_flaw (buildLiveSamplePage e (url d)
                          (metadata.title (metadata d)) html s) = None) ids)"
    if "buildDocument e d ops = (eff, Inr r)" "\<not> document.isArchive d" for eff r ops
    using buildDocument_rendered[OF that assms(1)]
    by (simp add: buildLiveSamples_eq assms(2) comp_def)
  have lookup: "buildLiveSamplePageFromURL e u =
      (case find (\<lambda>s. toLowerCase (sample_id s) = i) ids of
         None \<Rightarrow> Inl (Error (NoLiveSampleFound (Some i) documentURL))
       | Some s \<Rightarrow>
           (case page_flaw (buildLiveSamplePage e (url d)
                              (metadata.title (metadata d)) html s) of
              Some fl \<Rightarrow> Inl (Error (FlawAsString (flawToString e fl)))
            | None \<Rightarrow> Inr (page_html (buildLiveSamplePage e (url d)
                                (metadata.title (metadata d)) html s))))"
    if "str_split u ''/_samples_/'' = documentURL # i # rest" "findByURL e documentURL = Some d"
    for u documentURL i rest
    using that
    by (simp add: buildLiveSamplePageFromURL_def findLiveSample_eq assms split: option.splits)
  have same: "find (\<lambda>s. toLowerCase (sample_id s) = i) ids = Some s"
    if "s \<in> set ids" "distinct (map (\<lambda>s. toLowerCase (sample_id s)) ids)"
       "i = toLowerCase (sample_id s)" for s i
    using find_distinct_key[OF that(1,2)] that(3) by simp
  have none: "find (\<lambda>s. toLowerCase (sample_id s) = i) ids = None"
    if "i \<notin> set (map (\<lambda>s. toLowerCase (sample_id s)) ids)" for i
    using that by (auto simp: find_None_iff)
  show ?thesis
    using stored lookup same none by (auto simp del: set_map)
qed


lemma demoSlug_same: "demoSlug ''Web/Demo'' = demoDocument"
  by (simp add: demoSlug_def demoDocument_def)

lemma demo_split:
  "str_split ''/en-US/docs/Web/Demo/_samples_/foo'' ''/_samples_/'' = [''/en-US/docs/Web/Demo'', ''foo'']"
  "str_split ''/en-US/docs/Web/Demo/_samples_/nope'' ''/_samples_/'' = [''/en-US/docs/Web/Demo'', ''nope'']"
  "str_split ''/en-US/docs/Web/Demo/_samples_/FOO'' ''/_samples_/'' = [''/en-US/docs/Web/Demo'', ''FOO'']"
  by (simp_all add: str_split_def)

lemma demo_ids:
  "getLiveSampleIDs demoEnv sl raw =
     [\<lparr> sample_id = ''Foo'' \<rparr>, \<lparr> sample_id = ''Bad'' \<rparr>, \<lparr> sample_id = ''Bar'' \<rparr>]"
  by (simp add: demoEnv_def)

lemma demo_findByURL: "findByURL demoEnv ''/en-US/docs/Web/Demo'' = Some demoDocument"
  by (simp add: demoEnv_def)

theorem live_sample_ids_lower_case_witness:
  "(\<exists>r. buildDocument demoEnv demoDocument (demoOptions WARN) = ([], Inr r) \<and>
        map ls_id (liveSamples r) = [''foo'', ''bar'']) \<and>
   buildLiveSamplePageFromURL demoEnv ''/en-US/docs/Web/Demo/_samples_/foo'' = Inr ''sample Foo'' \<and>
   buildLiveSamplePageFromURL demoEnv ''/en-US/docs/Web/Demo/_samples_/nope'' =
     Inl (Error (NoLiveSampleFound (Some ''nope'') ''/en-US/docs/Web/Demo''))"
proof -
  note inst = live_sample_ids_lower_case[OF demo_render demo_ids[symmetric], of demoDocument]
  obtain r where r: "buildDocument demoEnv demoDocument (demoOptions WARN) = ([], Inr r)"
    using demo_builds[OF validateSlug_demo, of WARN] by (auto simp: demoSlug_same)
  have na: "\<not> document.isArchive demoDocument"
    by (simp add: demoDocument_def)
  have "map ls_id (liveSamples r) =
      map (\<lambda>s. toLowerCase (sample_id s))
        (filter (\<lambda>s. page_flaw (buildLiveSamplePage demoEnv (url demoDocument)
                          (metadata.title (metadata demoDocument)) ''<p>demo</p>'' s) = None)
           [\<lparr> sample_id = ''Foo'' \<rparr>, \<lparr> sample_id = ''Bad'' \<rparr>, \<lparr> sample_id = ''Bar'' \<rparr>])"
    by (rule inst[THEN conjunct1, THEN spec, THEN spec, THEN spec, THEN mp, OF conjI, OF r na])
  then have 1: "map ls_id (liveSamples r) = [''foo'', ''bar'']"
    by (simp add: demoEnv_def toLowerCase_def lowerChar_def)
  have A: "\<exists>r. buildDocument demoEnv demoDocument (demoOptions WARN) = ([], Inr r) \<and>
        map ls_id (liveSamples r) = [''foo'', ''bar'']"
    by (rule exI[of _ r], rule conjI, rule r, rule 1)
  have "buildLiveSamplePageFromURL demoEnv ''/en-US/docs/Web/Demo/_samples_/foo'' =
      (case find (\<lambda>s. toLowerCase (sample_id s) = ''foo'')
              [\<lparr> sample_id = ''Foo'' \<rparr>, \<lparr> sample_id = ''Bad'' \<rparr>, \<lparr> sample_id = ''Bar'' \<rparr>] of
         None \<Rightarrow> Inl (Error (NoLiveSampleFound (Some ''foo'') ''/en-US/docs/Web/Demo''))
       | Some s \<Rightarrow>
           (case page_flaw (buildLiveSamplePage demoEnv (url demoDocument)
                              (metadata.title (metadata demoDocument)) ''<p>demo</p>'' s) of
              Some fl \<Rightarrow> Inl (Error (FlawAsString (flawToString demoEnv fl)))
            | None \<Rightarrow> Inr (page_html (buildLiveSamplePage demoEnv (url demoDocument)
                                (metadata.title (metadata demoDocument)) ''<p>demo</p>'' s))))"
    by (rule inst[THEN conjunct2, THEN spec, THEN spec, THEN spec, THEN spec, THEN mp, OF conjI,
          OF demo_split(1) demo_findByURL, THEN conjunct1])
  then have 2: "buildLiveSamplePageFromURL demoEnv ''/en-US/docs/Web/Demo/_samples_/foo'' =
      Inr ''sample Foo''"
    by (simp add: demoEnv_def toLowerCase_def lowerChar_def)
  have "''nope'' \<notin> set (map (\<lambda>s. toLowerCase (sample_id s))
                          [\<lparr> sample_id = ''Foo'' \<rparr>, \<lparr> sample_id = ''Bad'' \<rparr>, \<lparr> sample_id = ''Bar'' \<rparr>])"
    by (simp add: toLowerCase_def lowerChar_def)
  then have 3: "buildLiveSamplePageFromURL demoEnv ''/en-US/docs/Web/Demo/_samples_/nope'' =
      Inl (Error (NoLiveSampleFound (Some ''nope'') ''/en-US/docs/Web/Demo''))"
    by (rule inst[THEN conjunct2, THEN spec, THEN spec, THEN spec, THEN spec, THEN mp, OF conjI,
          OF demo_split(2) demo_findByURL, THEN conjunct2, THEN conjunct2, THEN mp])
  show ?thesis
    by (rule conjI, rule A, rule conjI, rule 2, rule 3)
qed

theorem live_sample_id_case_counterexample:
  "map sample_id (getLiveSampleIDs demoEnv (slug (metadata demoDocument)) (rawHTML demoDocument)) =
     [''Foo'', ''Bad'', ''Bar''] \<and>
   \<not> isl (snd (buildDocument demoEnv demoDocument (demoOptions WARN))) \<and>
   map ls_id (liveSamples (projr (snd (buildDocument demoEnv demoDocument (demoOptions WARN))))) =
     [''foo'', ''bar''] \<and>
   buildLiveSamplePageFromURL demoEnv ''/en-US/docs/Web/Demo/_samples_/FOO'' =
     Inl (Error (NoLiveSampleFound (Some ''FOO'') ''/en-US/docs/Web/Demo''))"
proof -
  obtain dc where r: "buildDocument demoEnv demoDocument (demoOptions WARN) =
      ([], Inr \<lparr> doc = dc,
                liveSamples = [\<lparr> ls_id = ''foo'', ls_html = ''sample Foo'' \<rparr>,
                               \<lparr> ls_id = ''bar'', ls_html = ''sample Bar'' \<rparr>],
                fileAttachments = [], bcdData = () \<rparr>)"
    using demo_builds[OF validateSlug_demo, of WARN] by (auto simp: demoSlug_same)
  have "buildLiveSamplePageFromURL demoEnv ''/en-US/docs/Web/Demo/_samples_/FOO'' =
     Inl (Error (NoLiveSampleFound (Some ''FOO'') ''/en-US/docs/Web/Demo''))"
    by (simp add: buildLiveSamplePageFromURL_def demo_split demo_findByURL demo_ids
          toLowerCase_def lowerChar_def)
  then show ?thesis
    by (simp add: r demo_ids)
qed

subsection \<open>Tokens and trimming\<close>

lemma tokens_space: "isWhiteSpace c \<Longrightarrow> tokens (c # cs) = tokens cs"
  by simp

lemma tokens_letter:
  "\<not> isWhiteSpace c \<Longrightarrow>
   tokens (c # cs) =
     (c # takeWhile (\<lambda>x. \<not> isWhiteSpace x) cs) # tokens (dropWhile (\<lambda>x. \<not> isWhiteSpace x) cs)"
proof (induction cs arbitrary: c)
  case Nil
  then show ?case by simp
next
  case (Cons d cs)
  show ?case
  proof (cases "isWhiteSpace d")
    case True
    with Cons.prems show ?thesis by simp
  next
    case False
    with Cons.prems Cons.IH[OF False] show ?thesis by simp
  qed
qed

declare tokens.simps(2) [simp del]

lemma takeWhile_letters_space:
  "isWhiteSpace w \<Longrightarrow>
   takeWhile (\<lambda>x. \<not> isWhiteSpace x) (a @ w # b) = takeWhile (\<lambda>x. \<not> isWhiteSpace x) a"
  by (induction a) simp_all

lemma dropWhile_letters_space:
  "isWhiteSpace w \<Longrightarrow>
   dropWhile (\<lambda>x. \<not> isWhiteSpace x) (a @ w # b) = dropWhile (\<lambda>x. \<not> isWhiteSpace x) a @ w # b"
  by (induction a) simp_all

lemma tokens_append_space:
  "isWhiteSpace w \<Longrightarrow> tokens (a @ w # b) = tokens a @ tokens b"
proof (induction a rule: length_induct)
  case (1 a)
  show ?case
  proof (cases a)
    case Nil
    with 1(2) show ?thesis by (simp add: tokens_space)
  next
    case (Cons c a')
    show ?thesis
    proof (cases "isWhiteSpace c")
      case True
      with 1 Cons show ?thesis by (simp add: tokens_space)
    next
      case False
      have "length (dropWhile (\<lambda>x. \<not> isWhiteSpace x) a') < length a"
        using Cons length_dropWhile_le[of "\<lambda>x. \<not> isWhiteSpace x" a'] by simp
      with 1 have "tokens (dropWhile (\<lambda>x. \<not> isWhiteSpace x) a' @ w # b) =
          tokens (dropWhile (\<lambda>x. \<not> isWhiteSpace x) a') @ tokens b"
        by blast
      with False Cons 1(2) show ?thesis
        by (simp add: tokens_letter takeWhile_letters_space dropWhile_letters_space)
    qed
  qed
qed

lemma tokens_all_space: "\<forall>x \<in> set s. isWhiteSpace x \<Longrightarrow> tokens s = []"
  by (induction s) (simp_all add: tokens_space)

lemma tokens_word:
  assumes "c \<noteq> []" and "\<forall>x \<in> set c. \<not> isWhiteSpace x"
  shows "tokens c = [c]"
proof -
  obtain x xs where c: "c = x # xs" using assms(1) by (cases c) auto
  with assms(2) have tw: "takeWhile (\<lambda>x. \<not> isWhiteSpace x) xs = xs"
    and dw: "dropWhile (\<lambda>x. \<not> isWhiteSpace x) xs = []"
    by simp_all
  from c assms(2) have "\<not> isWhiteSpace x" by simp
  then show ?thesis by (simp add: c tokens_letter tw dw)
qed

lemma tokens_append_all_space:
  assumes "\<forall>x \<in> set r. isWhiteSpace x"
  shows "tokens (s @ r) = tokens s"
proof (cases r)
  case Nil
  then show ?thesis by simp
next
  case (Cons w r')
  with assms have "isWhiteSpace w" "tokens r' = []"
    by (simp_all add: tokens_all_space)
  with Cons show ?thesis by (simp add: tokens_append_space)
qed

lemma tokens_dropWhile: "tokens (dropWhile isWhiteSpace s) = tokens s"
  by (induction s) (simp_all add: tokens_space)

lemma rev_dropWhile_rev:
  "s = rev (dropWhile P (rev s)) @ rev (takeWhile P (rev s))"
proof -
  have "rev s = takeWhile P (rev s) @ dropWhile P (rev s)" by simp
  then have "rev (rev s) = rev (takeWhile P (rev s) @ dropWhile P (rev s))" by (rule arg_cong)
  then show ?thesis by (simp only: rev_rev_ident rev_append)
qed

lemma tokens_trim: "tokens (trim s) = tokens s"
proof -
  let ?d = "dropWhile isWhiteSpace s"
  have "\<forall>x \<in> set (rev (takeWhile isWhiteSpace (rev ?d))). isWhiteSpace x"
    by (auto dest: set_takeWhileD)
  then have "tokens (rev (dropWhile isWhiteSpace (rev ?d)) @ rev (takeWhile isWhiteSpace (rev ?d))) =
      tokens (rev (dropWhile isWhiteSpace (rev ?d)))"
    by (rule tokens_append_all_space)
  then have "tokens ?d = tokens (rev (dropWhile isWhiteSpace (rev ?d)))"
    using rev_dropWhile_rev[of ?d isWhiteSpace] by simp
  then show ?thesis
    by (simp add: trim_def tokens_dropWhile)
qed

lemma tokens_are_words:
  "t \<in> set (tokens s) \<Longrightarrow> t \<noteq> [] \<and> (\<forall>x \<in> set t. \<not> isWhiteSpace x)"
proof (induction s arbitrary: t rule: length_induct)
  case (1 s)
  show ?case
  proof (cases s)
    case Nil
    with 1(2) show ?thesis by simp
  next
    case (Cons c s')
    show ?thesis
    proof (cases "isWhiteSpace c")
      case True
      with 1(2) Cons have "t \<in> set (tokens s')" by (simp add: tokens_space)
      moreover have "length s' < length s" using Cons by simp
      ultimately show ?thesis using 1(1) by blast
    next
      case False
      have "length (dropWhile (\<lambda>x. \<not> isWhiteSpace x) s') < length s"
        using Cons length_dropWhile_le[of "\<lambda>x. \<not> isWhiteSpace x" s'] by simp
      with 1(1) have ih: "u \<in> set (tokens (dropWhile (\<lambda>x. \<not> isWhiteSpace x) s')) \<Longrightarrow>
          u \<noteq> [] \<and> (\<forall>x \<in> set u. \<not> isWhiteSpace x)" for u
        by blast
      from 1(2) False Cons have "t = c # takeWhile (\<lambda>x. \<not> isWhiteSpace x) s' \<or>
          t \<in> set (tokens (dropWhile (\<lambda>x. \<not> isWhiteSpace x) s'))"
        by (simp add: tokens_letter)
      then show ?thesis
      proof
        assume "t = c # takeWhile (\<lambda>x. \<not> isWhiteSpace x) s'"
        then show ?thesis using False by (auto dest: set_takeWhileD)
      next
        assume "t \<in> set (tokens (dropWhile (\<lambda>x. \<not> isWhiteSpace x) s'))"
        then show ?thesis by (rule ih)
      qed
    qed
  qed
qed

lemma space_isWhiteSpace: "isWhiteSpace CHR '' ''"
  by (simp add: isWhiteSpace_def)

lemma tokens_join:
  "\<forall>t \<in> set ts. t \<noteq> [] \<and> (\<forall>x \<in> set t. \<not> isWhiteSpace x) \<Longrightarrow> tokens (str_join '' '' ts) = ts"
proof (induction ts rule: induct_list012)
  case 1
  then show ?case by simp
next
  case (2 x)
  then show ?case by (simp add: tokens_word)
next
  case (3 x y zs)
  have "tokens (x @ CHR '' '' # str_join '' '' (y # zs)) = tokens x @ tokens (str_join '' '' (y # zs))"
    by (rule tokens_append_space[OF space_isWhiteSpace])
  with 3 show ?case by (simp add: tokens_word)
qed

lemma sublist_token:
  assumes "c \<noteq> []" and "\<forall>x \<in> set c. \<not> isWhiteSpace x"
    and "sublist ('' '' @ c @ '' '') s"
  shows "c \<in> set (tokens s)"
proof -
  obtain ps ss where "s = ps @ ('' '' @ c @ '' '') @ ss"
    using assms(3) by (auto simp: sublist_def)
  then have "s = ps @ CHR '' '' # (c @ CHR '' '' # ss)" by simp
  then have "tokens s = tokens ps @ tokens c @ tokens ss"
    by (simp add: tokens_append_space space_isWhiteSpace)
  then show ?thesis
    using assms(1,2) by (simp add: tokens_word)
qed

lemma tokens_Nil_iff: "tokens s = [] \<longleftrightarrow> (\<forall>x \<in> set s. isWhiteSpace x)"
proof (induction s)
  case Nil
  show ?case by simp
next
  case (Cons c s)
  show ?case
  proof (cases "isWhiteSpace c")
    case True
    with Cons show ?thesis by (simp add: tokens_space)
  next
    case False
    then show ?thesis by (simp add: tokens_letter)
  qed
qed

lemma trim_Cons_space: "isWhiteSpace w \<Longrightarrow> trim (w # s) = trim s"
  by (simp add: trim_def)

lemma trim_snoc_space:
  assumes "isWhiteSpace w"
  shows "trim (s @ [w]) = trim s"
proof (cases "\<forall>x \<in> set s. isWhiteSpace x")
  case True
  then have a: "dropWhile isWhiteSpace s = []" by simp
  from True assms have b: "dropWhile isWhiteSpace (s @ [w]) = []" by simp
  show ?thesis by (simp only: trim_def a b)
next
  case False
  then have "dropWhile isWhiteSpace (s @ [w]) = dropWhile isWhiteSpace s @ [w]"
    by (simp add: dropWhile_append)
  with assms show ?thesis by (simp add: trim_def)
qed

lemma trim_pad: "trim ('' '' @ x @ '' '') = trim x"
proof -
  have "trim ('' '' @ x @ '' '') = trim ((CHR '' '' # x) @ [CHR '' ''])" by simp
  also have "\<dots> = trim (CHR '' '' # x)" by (rule trim_snoc_space[OF space_isWhiteSpace])
  also have "\<dots> = trim x" by (rule trim_Cons_space[OF space_isWhiteSpace])
  finally show ?thesis .
qed

lemma trim_fixed:
  assumes "x = [] \<or> (\<not> isWhiteSpace (hd x) \<and> \<not> isWhiteSpace (last x))"
  shows "trim x = x"
proof (cases x)
  case Nil
  then show ?thesis by (simp add: trim_def)
next
  case (Cons a x')
  with assms have a: "\<not> isWhiteSpace a" and l: "\<not> isWhiteSpace (last x)" by simp_all
  from a Cons have "dropWhile isWhiteSpace x = x" by simp
  moreover have "rev x = last x # rev (butlast x)"
    using Cons by (metis append_butlast_last_id list.distinct(1) rev.simps(2) rev_rev_ident rev_swap
        append_Cons append_Nil)
  then have "dropWhile isWhiteSpace (rev x) = rev x"
    using l by (metis dropWhile.simps(2))
  ultimately show ?thesis by (simp add: trim_def)
qed

lemma last_dropWhile: "dropWhile P xs \<noteq> [] \<Longrightarrow> last (dropWhile P xs) = last xs"
  by (induction xs) (auto split: if_splits)

lemma trim_ends:
  assumes "trim s \<noteq> []"
  shows "\<not> isWhiteSpace (hd (trim s)) \<and> \<not> isWhiteSpace (last (trim s))"
proof -
  let ?d = "dropWhile isWhiteSpace s"
  let ?r = "dropWhile isWhiteSpace (rev ?d)"
  from assms have r: "?r \<noteq> []" by (simp add: trim_def)
  have d: "?d \<noteq> []"
  proof
    assume "?d = []"
    then have "?r = []" by (simp only: rev.simps dropWhile.simps)
    with r show False by contradiction
  qed
  have "last (trim s) = hd ?r"
    using r by (simp add: trim_def last_rev)
  moreover have "\<not> isWhiteSpace (hd ?r)"
    using r by (rule hd_dropWhile)
  moreover have "hd (trim s) = last ?r"
    using r by (simp add: trim_def hd_rev)
  moreover have "last ?r = last (rev ?d)"
    using r by (rule last_dropWhile)
  moreover have "last (rev ?d) = hd ?d"
    using d by (simp add: last_rev)
  moreover have "\<not> isWhiteSpace (hd ?d)"
    using d by (rule hd_dropWhile)
  ultimately show ?thesis by simp
qed

lemma trim_trim: "trim (trim s) = trim s"
  by (rule trim_fixed) (use trim_ends[of s] in blast)

lemma trim_Nil_iff: "trim s = [] \<longleftrightarrow> tokens s = []"
proof -
  have "trim s = [] \<longleftrightarrow> tokens (trim s) = []"
  proof
    assume "trim s = []"
    then show "tokens (trim s) = []" by simp
  next
    assume t: "tokens (trim s) = []"
    show "trim s = []"
    proof (rule ccontr)
      assume ne: "trim s \<noteq> []"
      then have "\<not> isWhiteSpace (hd (trim s))" using trim_ends by blast
      moreover have "hd (trim s) \<in> set (trim s)" using ne by simp
      ultimately show False using t by (auto simp: tokens_Nil_iff)
    qed
  qed
  then show ?thesis by (simp add: tokens_trim)
qed

lemma split_rspace_trim:
  "split_rspace (trim s) = (if tokens s = [] then [[]] else tokens s)"
proof (cases "trim s = []")
  case True
  then show ?thesis by (simp add: split_rspace_def trim_Nil_iff[symmetric])
next
  case False
  with trim_ends[OF False] show ?thesis
    by (simp add: split_rspace_def tokens_trim trim_Nil_iff[symmetric])
qed

lemma split_rspace_word:
  "c \<noteq> [] \<Longrightarrow> \<forall>x \<in> set c. \<not> isWhiteSpace x \<Longrightarrow> split_rspace c = [c]"
  by (cases c) (auto simp: split_rspace_def tokens_word)

lemma hd_str_join: "ts \<noteq> [] \<Longrightarrow> hd ts \<noteq> [] \<Longrightarrow> hd (str_join sep ts) = hd (hd ts)"
  by (induction ts rule: induct_list012) simp_all

lemma str_join_Nil_iff: "\<forall>t \<in> set ts. t \<noteq> [] \<Longrightarrow> str_join sep ts = [] \<longleftrightarrow> ts = []"
  by (induction ts rule: induct_list012) simp_all

lemma last_str_join:
  "ts \<noteq> [] \<Longrightarrow> \<forall>t \<in> set ts. t \<noteq> [] \<Longrightarrow> last (str_join sep ts) = last (last ts)"
  by (induction ts rule: induct_list012) (simp_all add: str_join_Nil_iff)

lemma trim_join:
  assumes "\<forall>t \<in> set ts. t \<noteq> [] \<and> (\<forall>x \<in> set t. \<not> isWhiteSpace x)"
  shows "trim (str_join '' '' ts) = str_join '' '' ts"
proof (cases "ts = []")
  case True
  then show ?thesis by (simp add: trim_def)
next
  case False
  then have "hd ts \<in> set ts" "last ts \<in> set ts" by simp_all
  with assms have h: "hd ts \<noteq> []" "\<not> isWhiteSpace (hd (hd ts))"
    and l: "last ts \<noteq> []" "\<not> isWhiteSpace (last (last ts))"
    by (metis hd_in_set, metis hd_in_set, metis last_in_set, metis last_in_set)
  have "\<forall>t \<in> set ts. t \<noteq> []" using assms by blast
  with False h l show ?thesis
    by (intro trim_fixed) (simp add: hd_str_join last_str_join)
qed

subsection \<open>A class name between two spaces\<close>

lemma padded_in_join:
  "c \<in> set ts \<Longrightarrow> sublist ('' '' @ c @ '' '') ('' '' @ str_join '' '' ts @ '' '')"
proof (induction ts rule: induct_list012)
  case 1
  then show ?case by simp
next
  case (2 x)
  then show ?case by simp
next
  case (3 x y zs)
  show ?case
  proof (cases "c = x")
    case True
    have "'' '' @ str_join '' '' (x # y # zs) @ '' '' =
          [] @ ('' '' @ c @ '' '') @ (str_join '' '' (y # zs) @ '' '')"
      using True by simp
    then show ?thesis by (simp only: sublist_appendI)
  next
    case False
    with 3 have "sublist ('' '' @ c @ '' '') ('' '' @ str_join '' '' (y # zs) @ '' '')" by simp
    then obtain ps ss where "'' '' @ str_join '' '' (y # zs) @ '' '' = ps @ ('' '' @ c @ '' '') @ ss"
      by (auto simp: sublist_def)
    then have "'' '' @ str_join '' '' (x # y # zs) @ '' '' =
        (('' '' @ x) @ ps) @ ('' '' @ c @ '' '') @ ss"
      by simp
    then show ?thesis by (simp only: sublist_appendI)
  qed
qed

lemma padded_drop_space:
  assumes c: "c \<noteq> []" "\<forall>x \<in> set c. \<not> isWhiteSpace x" and w: "isWhiteSpace w"
    and sub: "sublist ('' '' @ c @ '' '') ('' '' @ (w # s) @ '' '')"
  shows "sublist ('' '' @ c @ '' '') ('' '' @ s @ '' '')"
proof -
  obtain c1 c' where c1: "c = c1 # c'" using c(1) by (cases c) auto
  with c(2) have nw: "\<not> isWhiteSpace c1" by simp
  let ?p = "CHR '' '' # c1 # c' @ '' ''"
  from sub c1 have "sublist ?p (CHR '' '' # w # s @ '' '')" by simp
  then have "prefix ?p (CHR '' '' # w # s @ '' '') \<or> sublist ?p (w # s @ '' '')"
    by (simp only: sublist_Cons_right)
  moreover have "\<not> prefix ?p (CHR '' '' # w # s @ '' '')"
    using nw w by auto
  ultimately have "sublist ?p (w # s @ '' '')" by blast
  then have "prefix ?p (w # s @ '' '') \<or> sublist ?p (s @ '' '')"
    by (simp only: sublist_Cons_right)
  then have "sublist ?p (CHR '' '' # s @ '' '')"
  proof
    assume "prefix ?p (w # s @ '' '')"
    then have "w = CHR '' ''" by simp
    with \<open>prefix ?p (w # s @ '' '')\<close> have "prefix ?p (CHR '' '' # s @ '' '')" by simp
    then show ?thesis by (simp only: sublist_Cons_right) simp
  next
    assume "sublist ?p (s @ '' '')"
    then show ?thesis by (simp only: sublist_Cons_right) simp
  qed
  with c1 show ?thesis by simp
qed

lemma padded_dropWhile:
  assumes "c \<noteq> []" "\<forall>x \<in> set c. \<not> isWhiteSpace x"
  shows "sublist ('' '' @ c @ '' '') ('' '' @ s @ '' '') \<Longrightarrow>
         sublist ('' '' @ c @ '' '') ('' '' @ dropWhile isWhiteSpace s @ '' '')"
proof (induction s)
  case Nil
  then show ?case by simp
next
  case (Cons w s)
  show ?case
  proof (cases "isWhiteSpace w")
    case True
    have "sublist ('' '' @ c @ '' '') ('' '' @ s @ '' '')"
      by (rule padded_drop_space[OF assms True Cons.prems])
    with Cons.IH True show ?thesis by simp
  next
    case False
    with Cons.prems show ?thesis by simp
  qed
qed

lemma padded_trim:
  assumes c: "c \<noteq> []" "\<forall>x \<in> set c. \<not> isWhiteSpace x"
    and sub: "sublist ('' '' @ c @ '' '') ('' '' @ s @ '' '')"
  shows "sublist ('' '' @ c @ '' '') ('' '' @ trim s @ '' '')"
proof -
  let ?d = "dropWhile isWhiteSpace s"
  have rc: "rev c \<noteq> []" "\<forall>x \<in> set (rev c). \<not> isWhiteSpace x"
    using c by simp_all
  have "sublist ('' '' @ c @ '' '') ('' '' @ ?d @ '' '')"
    by (rule padded_dropWhile[OF c sub])
  then have "sublist (rev ('' '' @ c @ '' '')) (rev ('' '' @ ?d @ '' ''))"
    by (simp only: sublist_rev)
  then have "sublist ('' '' @ rev c @ '' '') ('' '' @ rev ?d @ '' '')"
    by simp
  then have "sublist ('' '' @ rev c @ '' '') ('' '' @ dropWhile isWhiteSpace (rev ?d) @ '' '')"
    by (rule padded_dropWhile[OF rc])
  then have "sublist (rev ('' '' @ rev c @ '' '')) (rev ('' '' @ dropWhile isWhiteSpace (rev ?d) @ '' ''))"
    by (simp only: sublist_rev)
  then show ?thesis
    by (simp add: trim_def)
qed

subsection \<open>Adding and removing one class\<close>

lemma map_of_setAttr: "map_of (setAttr k v as) k' = (if k' = k then Some v else map_of as k')"
  by (simp add: setAttr_def update_conv')

lemma setAttr_same: "map_of as k = Some v \<Longrightarrow> setAttr k v as = as"
  by (simp add: setAttr_def update_triv)

lemma setAttr_twice: "setAttr k v (setAttr k v' as) = setAttr k v as"
  by (simp add: setAttr_def update_last)

lemma trim_word:
  assumes "c \<noteq> []" and "\<forall>x \<in> set c. \<not> isWhiteSpace x"
  shows "trim c = c"
proof (rule trim_fixed)
  have "hd c \<in> set c" "last c \<in> set c" using assms(1) by simp_all
  with assms(2) show "c = [] \<or> (\<not> isWhiteSpace (hd c) \<and> \<not> isWhiteSpace (last c))" by blast
qed

lemma trim_pad_Cons: "trim (CHR '' '' # x @ [CHR '' '']) = trim x"
  using trim_pad[of x] by simp

text \<open>The class attribute after \<open>addClass\<close> of one class name.\<close>

lemma addClass_word:
  assumes "c \<noteq> []" and "\<forall>x \<in> set c. \<not> isWhiteSpace x"
  shows "addClass c as =
           setAttr ''class''
             (case map_of as ''class'' of
                None \<Rightarrow> c
              | Some cn \<Rightarrow>
                  if cn = [] then c
                  else trim (if sublist ('' '' @ c @ '' '') ('' '' @ cn @ '' '') then cn
                             else cn @ '' '' @ c)) as"
proof -
  note w = split_rspace_word[OF assms] and tc = trim_word[OF assms]
  show ?thesis
  proof (cases "map_of as ''class''")
    case None
    then show ?thesis using assms(1) by (simp add: addClass_def w tc)
  next
    case (Some cn)
    show ?thesis
    proof (cases "cn = []")
      case True
      with Some show ?thesis using assms(1) by (simp add: addClass_def w tc)
    next
      case False
      show ?thesis
      proof (cases "sublist ('' '' @ c @ '' '') ('' '' @ cn @ '' '')")
        case True
        with Some False show ?thesis
          using assms(1) by (simp add: addClass_def w trim_pad_Cons)
      next
        case nsub: False
        have "trim (CHR '' '' # cn @ CHR '' '' # c @ [CHR '' '']) = trim (cn @ CHR '' '' # c)"
          using trim_pad_Cons[of "cn @ CHR '' '' # c"] by simp
        with Some False nsub show ?thesis
          using assms(1) by (simp add: addClass_def w)
      qed
    qed
  qed
qed

lemma added_class_stable:
  assumes c: "c \<noteq> []" "\<forall>x \<in> set c. \<not> isWhiteSpace x"
    and v: "v = trim (if sublist ('' '' @ c @ '' '') ('' '' @ cn @ '' '') then cn else cn @ '' '' @ c)"
  shows "sublist ('' '' @ c @ '' '') ('' '' @ v @ '' '')"
    and "trim v = v"
    and "tokens v = (if sublist ('' '' @ c @ '' '') ('' '' @ cn @ '' '') then tokens cn
                     else tokens cn @ [c])"
proof -
  let ?s = "if sublist ('' '' @ c @ '' '') ('' '' @ cn @ '' '') then cn else cn @ '' '' @ c"
  have "sublist ('' '' @ c @ '' '') ('' '' @ ?s @ '' '')"
  proof (cases "sublist ('' '' @ c @ '' '') ('' '' @ cn @ '' '')")
    case True
    then show ?thesis by simp
  next
    case False
    have "'' '' @ (cn @ '' '' @ c) @ '' '' = ('' '' @ cn) @ ('' '' @ c @ '' '') @ []" by simp
    then have "sublist ('' '' @ c @ '' '') ('' '' @ (cn @ '' '' @ c) @ '' '')"
      by (simp only: sublist_appendI)
    with False show ?thesis by simp
  qed
  then show "sublist ('' '' @ c @ '' '') ('' '' @ v @ '' '')"
    unfolding v by (rule padded_trim[OF c])
  show "trim v = v"
    unfolding v by (rule trim_trim)
  have "tokens (cn @ '' '' @ c) = tokens cn @ [c]"
    using tokens_append_space[OF space_isWhiteSpace, of cn c] c by (simp add: tokens_word)
  then show "tokens v = (if sublist ('' '' @ c @ '' '') ('' '' @ cn @ '' '') then tokens cn
                     else tokens cn @ [c])"
    unfolding v by (simp add: tokens_trim)
qed

lemma addClass_stable:
  assumes "c \<noteq> []" "\<forall>x \<in> set c. \<not> isWhiteSpace x"
    and "map_of as ''class'' = Some v" "v \<noteq> []" "trim v = v"
    and "sublist ('' '' @ c @ '' '') ('' '' @ v @ '' '')"
  shows "addClass c as = as"
  using assms by (simp add: addClass_word setAttr_same)

text \<open>The class attribute after \<open>removeClass\<close> of one class name.\<close>

lemma removeClass_word:
  assumes "b \<noteq> []" and "\<forall>x \<in> set b. \<not> isWhiteSpace x"
  shows "removeClass b as =
           (case map_of as ''class'' of
              None \<Rightarrow> as
            | Some v \<Rightarrow>
                if b \<in> set (tokens v)
                then setAttr ''class'' (str_join '' '' (filter (\<lambda>e. e \<noteq> b) (tokens v))) as
                else as)"
proof -
  have names: "splitNames (Some b) = [b]"
    using assms(1) by (simp add: splitNames_def trim_word[OF assms] split_rspace_word[OF assms])
  show ?thesis
  proof (cases "map_of as ''class''")
    case None
    then show ?thesis by (simp add: removeClass_def names) (simp add: splitNames_def)
  next
    case (Some v)
    show ?thesis
    proof (cases "tokens v = []")
      case True
      then have "set [b] \<inter> set (splitNames (Some v)) = {}"
        using assms(1) by (auto simp: splitNames_def split_rspace_trim)
      with Some True show ?thesis by (simp add: removeClass_def names)
    next
      case False
      then have "v \<noteq> []" by auto
      with False have el: "splitNames (Some v) = tokens v"
        by (simp add: splitNames_def split_rspace_trim)
      have "filter (\<lambda>e. e \<notin> set [b]) (tokens v) = filter (\<lambda>e. e \<noteq> b) (tokens v)"
        by simp
      with Some show ?thesis by (simp add: removeClass_def names el)
    qed
  qed
qed

subsection \<open>A mutation of the selected elements\<close>

lemma elements_onSelected:
  "elements (onSelected sel f n) =
     map (\<lambda>(tag, as). (tag, if sel tag as then f as else as)) (elements n)"
  by (induction n) (simp_all add: map_concat comp_def cong: map_cong)

lemma treeElements_onSelected:
  "treeElements (map (onSelected sel f) t) =
     map (\<lambda>(tag, as). (tag, if sel tag as then f as else as)) (treeElements t)"
  by (simp add: treeElements_def map_concat comp_def elements_onSelected)

lemma shape_onSelected: "shape (onSelected sel f n) = shape n"
  by (induction n) (simp_all cong: map_cong)

lemma onSelected_idem:
  assumes "\<And>tag as. sel tag as \<Longrightarrow> (if sel tag (f as) then f (f as) else f as) = f as"
  shows "onSelected sel f (onSelected sel f n) = onSelected sel f n"
  using assms by (induction n) (simp_all cong: map_cong)

subsection \<open>The notecard class\<close>

lemma word_notecard: "''notecard'' \<noteq> []" "\<forall>x \<in> set ''notecard''. \<not> isWhiteSpace x"
  by (simp_all add: isWhiteSpace_def)

lemma word_blockIndicator:
  "''blockIndicator'' \<noteq> []" "\<forall>x \<in> set ''blockIndicator''. \<not> isWhiteSpace x"
  by (simp_all add: isWhiteSpace_def)

lemma tokens_pad: "tokens ('' '' @ v @ '' '') = tokens v"
proof -
  have "tokens ('' '' @ v @ '' '') = tokens ((CHR '' '' # v) @ CHR '' '' # [])" by simp
  also have "\<dots> = tokens (CHR '' '' # v) @ tokens []"
    by (rule tokens_append_space[OF space_isWhiteSpace])
  also have "\<dots> = tokens v" by (simp add: tokens_space space_isWhiteSpace)
  finally show ?thesis .
qed

lemma notecard_attrs:
  assumes cn: "map_of as ''class'' = Some cn" "cn \<noteq> []"
  shows "\<exists>v. removeClass ''blockIndicator'' (addClass ''notecard'' as) = setAttr ''class'' v as \<and>
             v \<noteq> [] \<and> trim v = v \<and>
             sublist ('' '' @ ''notecard'' @ '' '') ('' '' @ v @ '' '') \<and>
             ''blockIndicator'' \<notin> set (tokens v) \<and>
             tokens v = filter (\<lambda>e. e \<noteq> ''blockIndicator'')
                          (if sublist ('' '' @ ''notecard'' @ '' '') ('' '' @ cn @ '' '')
                           then tokens cn else tokens cn @ [''notecard''])"
proof -
  define v1 where "v1 = trim (if sublist ('' '' @ ''notecard'' @ '' '') ('' '' @ cn @ '' '') then cn
                              else cn @ '' '' @ ''notecard'')"
  note st = added_class_stable[OF word_notecard v1_def]
  have "addClass ''notecard'' as =
      setAttr ''class'' (case Some cn of None \<Rightarrow> ''notecard''
         | Some cn \<Rightarrow> if cn = [] then ''notecard''
             else trim (if sublist ('' '' @ ''notecard'' @ '' '') ('' '' @ cn @ '' '') then cn
                        else cn @ '' '' @ ''notecard'')) as"
    by (simp only: addClass_word[OF word_notecard] cn(1))
  then have add: "addClass ''notecard'' as = setAttr ''class'' v1 as"
    by (simp only: option.case cn(2) if_False v1_def)
  have in1: "''notecard'' \<in> set (tokens v1)"
    using sublist_token[OF word_notecard st(1)] by (simp only: tokens_pad)
  have "0 < length (tokens v1)" by (rule length_pos_if_in_set[OF in1])
  then have "tokens v1 \<noteq> []" by (rule length_greater_0_conv[THEN iffD1])
  then have ne1: "v1 \<noteq> []" by auto
  have cls: "map_of (setAttr ''class'' v1 as) ''class'' = Some v1"
    by (simp add: map_of_setAttr)
  have rem: "removeClass ''blockIndicator'' (setAttr ''class'' v1 as) =
      (if ''blockIndicator'' \<in> set (tokens v1)
       then setAttr ''class'' (str_join '' '' (filter (\<lambda>e. e \<noteq> ''blockIndicator'') (tokens v1))) as
       else setAttr ''class'' v1 as)"
    by (simp only: removeClass_word[OF word_blockIndicator] cls option.case setAttr_twice)
  show ?thesis
  proof (cases "''blockIndicator'' \<in> set (tokens v1)")
    case False
    then have fid: "filter (\<lambda>e. e \<noteq> ''blockIndicator'') (tokens v1) = tokens v1"
      by (auto simp: filter_id_conv)
    show ?thesis
    proof (intro exI[of _ v1] conjI)
      show "removeClass ''blockIndicator'' (addClass ''notecard'' as) = setAttr ''class'' v1 as"
        by (simp only: add rem False if_False)
      show "v1 \<noteq> []" by (rule ne1)
      show "trim v1 = v1" by (rule st(2))
      show "sublist ('' '' @ ''notecard'' @ '' '') ('' '' @ v1 @ '' '')" by (rule st(1))
      show "''blockIndicator'' \<notin> set (tokens v1)" by (rule False)
      show "tokens v1 = filter (\<lambda>e. e \<noteq> ''blockIndicator'')
                          (if sublist ('' '' @ ''notecard'' @ '' '') ('' '' @ cn @ '' '')
                           then tokens cn else tokens cn @ [''notecard''])"
        by (simp only: st(3)[symmetric] fid)
    qed
  next
    case True
    let ?ts = "filter (\<lambda>e. e \<noteq> ''blockIndicator'') (tokens v1)"
    let ?v = "str_join '' '' ?ts"
    have good: "\<forall>t \<in> set ?ts. t \<noteq> [] \<and> (\<forall>x \<in> set t. \<not> isWhiteSpace x)"
      using tokens_are_words[of _ v1] by auto
    have tv: "tokens ?v = ?ts" by (rule tokens_join[OF good])
    have inv: "''notecard'' \<in> set ?ts" using in1 by simp
    have "0 < length ?ts" by (rule length_pos_if_in_set[OF inv])
    then have "?ts \<noteq> []" by (rule length_greater_0_conv[THEN iffD1])
    with tv have "tokens ?v \<noteq> []" by metis
    then have nev: "?v \<noteq> []" by auto
    show ?thesis
    proof (intro exI[of _ ?v] conjI)
      show "removeClass ''blockIndicator'' (addClass ''notecard'' as) = setAttr ''class'' ?v as"
        by (simp only: add rem True if_True)
      show "?v \<noteq> []" by (rule nev)
      show "trim ?v = ?v" by (rule trim_join[OF good])
      show "sublist ('' '' @ ''notecard'' @ '' '') ('' '' @ ?v @ '' '')"
        by (rule padded_in_join[OF inv])
      show "''blockIndicator'' \<notin> set (tokens ?v)" by (simp only: tv) simp
      show "tokens ?v = filter (\<lambda>e. e \<noteq> ''blockIndicator'')
                          (if sublist ('' '' @ ''notecard'' @ '' '') ('' '' @ cn @ '' '')
                           then tokens cn else tokens cn @ [''notecard''])"
        by (simp only: st(3)[symmetric] tv)
    qed
  qed
qed

lemma notecard_stable:
  assumes "map_of as ''class'' = Some v" "v \<noteq> []" "trim v = v"
    and "sublist ('' '' @ ''notecard'' @ '' '') ('' '' @ v @ '' '')"
    and "''blockIndicator'' \<notin> set (tokens v)"
  shows "removeClass ''blockIndicator'' (addClass ''notecard'' as) = as"
  using assms
  by (simp add: addClass_stable[OF word_notecard assms(1-4)] removeClass_word[OF word_blockIndicator])

lemma hasClass_class:
  "hasClass c as \<Longrightarrow> \<exists>cn. map_of as ''class'' = Some cn \<and> cn \<noteq> []"
  by (auto simp: hasClass_def split: option.splits)

lemma notecard_twice:
  assumes "hasClass ''warning'' as \<or> hasClass ''note'' as \<or> hasClass ''blockIndicator'' as"
  shows "removeClass ''blockIndicator'' (addClass ''notecard''
           (removeClass ''blockIndicator'' (addClass ''notecard'' as))) =
         removeClass ''blockIndicator'' (addClass ''notecard'' as)"
proof -
  obtain cn where cn: "map_of as ''class'' = Some cn" "cn \<noteq> []"
    using assms hasClass_class by blast
  obtain v where v: "removeClass ''blockIndicator'' (addClass ''notecard'' as) = setAttr ''class'' v as"
    "v \<noteq> []" "trim v = v" "sublist ('' '' @ ''notecard'' @ '' '') ('' '' @ v @ '' '')"
    "''blockIndicator'' \<notin> set (tokens v)"
    using notecard_attrs[OF cn] by blast
  have "map_of (setAttr ''class'' v as) ''class'' = Some v" by (simp add: map_of_setAttr)
  from notecard_stable[OF this v(2-5)] show ?thesis by (simp only: v(1))
qed

lemma injectNotecardOnWarnings_idem:
  "injectNotecardOnWarnings (injectNotecardOnWarnings t) = injectNotecardOnWarnings t"
  unfolding injectNotecardOnWarnings_def map_map comp_def
  by (rule map_cong[OF refl], rule onSelected_idem) (simp add: notecard_twice)

lemma count_list_filter_other: "c \<noteq> b \<Longrightarrow> count_list (filter (\<lambda>e. e \<noteq> b) xs) c = count_list xs c"
  by (induction xs) auto

lemma count_list_absent: "c \<notin> set xs \<Longrightarrow> count_list xs c = 0"
  by (induction xs) auto

lemma warning_notecard:
  assumes "map_of as ''class'' = Some ''warning''"
  shows "removeClass ''blockIndicator'' (addClass ''notecard'' as) =
         setAttr ''class'' ''warning notecard'' as"
proof -
  have t: "trim ''warning notecard'' = ''warning notecard''"
    by (rule trim_fixed) (simp add: isWhiteSpace_def)
  have n: "\<not> sublist ('' '' @ ''notecard'' @ '' '') ('' '' @ ''warning'' @ '' '')"
    by (simp add: sublist_Cons_right)
  have add: "addClass ''notecard'' as = setAttr ''class'' ''warning notecard'' as"
    using assms n t by (simp add: addClass_word[OF word_notecard])
  have tk: "tokens ''warning notecard'' = [''warning'', ''notecard'']"
    by (simp add: tokens.simps isWhiteSpace_def)
  show ?thesis
    by (simp add: add removeClass_word[OF word_blockIndicator] map_of_setAttr tk)
qed

text \<open>
  Claim C10.  The notecard normalizer rewrites the class attribute of every \<open>div\<close>
  with the class \<open>warning\<close>, \<open>note\<close> or \<open>blockIndicator\<close> and nothing else of the
  tree.  A class attribute \<open>warning\<close> becomes \<open>warning notecard\<close>.  Applied to its own
  result the normalizer changes nothing.  An element without the class \<open>notecard\<close> has
  it once afterwards, and an element that has it between spaces keeps its number of
  occurrences.
\<close>

theorem notecard_added_once:
  "injectNotecardOnWarnings (injectNotecardOnWarnings t) = injectNotecardOnWarnings t \<and>
   map shape (injectNotecardOnWarnings t) = map shape t \<and>
   treeElements (injectNotecardOnWarnings t) =
     map (\<lambda>(tag, as).
            (tag, if tag = ''div'' \<and>
                     (hasClass ''warning'' as \<or> hasClass ''note'' as \<or> hasClass ''blockIndicator'' as)
                  then removeClass ''blockIndicator'' (addClass ''notecard'' as) else as))
       (treeElements t) \<and>
   (map_of as ''class'' = Some ''warning'' \<longrightarrow>
      removeClass ''blockIndicator'' (addClass ''notecard'' as) =
        setAttr ''class'' ''warning notecard'' as) \<and>
   (\<forall>cn. map_of as ''class'' = Some cn \<and> cn \<noteq> [] \<longrightarrow>
      (\<exists>v. map_of (removeClass ''blockIndicator'' (addClass ''notecard'' as)) ''class'' = Some v \<and>
           (''notecard'' \<notin> set (tokens cn) \<longrightarrow> count_list (tokens v) ''notecard'' = 1) \<and>
           (sublist ('' '' @ ''notecard'' @ '' '') ('' '' @ cn @ '' '') \<longrightarrow>
              count_list (tokens v) ''notecard'' = count_list (tokens cn) ''notecard'')))"
proof -
  have shape: "map shape (injectNotecardOnWarnings t) = map shape t"
    by (simp add: injectNotecardOnWarnings_def shape_onSelected comp_def)
  have elems: "treeElements (injectNotecardOnWarnings t) =
     map (\<lambda>(tag, as).
            (tag, if tag = ''div'' \<and>
                     (hasClass ''warning'' as \<or> hasClass ''note'' as \<or> hasClass ''blockIndicator'' as)
                  then removeClass ''blockIndicator'' (addClass ''notecard'' as) else as))
       (treeElements t)"
    by (simp only: injectNotecardOnWarnings_def treeElements_onSelected)
  have once: "\<exists>v. map_of (removeClass ''blockIndicator'' (addClass ''notecard'' as)) ''class'' = Some v \<and>
           (''notecard'' \<notin> set (tokens cn) \<longrightarrow> count_list (tokens v) ''notecard'' = 1) \<and>
           (sublist ('' '' @ ''notecard'' @ '' '') ('' '' @ cn @ '' '') \<longrightarrow>
              count_list (tokens v) ''notecard'' = count_list (tokens cn) ''notecard'')"
    if cn: "map_of as ''class'' = Some cn" "cn \<noteq> []" for cn
  proof -
    obtain v where v: "removeClass ''blockIndicator'' (addClass ''notecard'' as) = setAttr ''class'' v as"
      and tv: "tokens v = filter (\<lambda>e. e \<noteq> ''blockIndicator'')
                          (if sublist ('' '' @ ''notecard'' @ '' '') ('' '' @ cn @ '' '')
                           then tokens cn else tokens cn @ [''notecard''])"
      using notecard_attrs[OF cn] by blast
    have ne: "''notecard'' \<noteq> ''blockIndicator''" by simp
    have absent: "\<not> sublist ('' '' @ ''notecard'' @ '' '') ('' '' @ cn @ '' '')"
      if "''notecard'' \<notin> set (tokens cn)"
      using that sublist_token[OF word_notecard, of "'' '' @ cn @ '' ''"]
      by (auto simp only: tokens_pad)
    have "count_list (tokens v) ''notecard'' = 1" if "''notecard'' \<notin> set (tokens cn)"
      using absent[OF that] that
      by (simp only: tv count_list_filter_other[OF ne] if_False) (simp add: count_list_absent)
    moreover have "count_list (tokens v) ''notecard'' = count_list (tokens cn) ''notecard''"
      if "sublist ('' '' @ ''notecard'' @ '' '') ('' '' @ cn @ '' '')"
      using that by (simp only: tv count_list_filter_other[OF ne] if_True)
    moreover have "map_of (removeClass ''blockIndicator'' (addClass ''notecard'' as)) ''class'' = Some v"
      by (simp add: v map_of_setAttr)
    ultimately show ?thesis by blast
  qed
  show ?thesis
    using injectNotecardOnWarnings_idem[of t] shape elems warning_notecard[of as] once
    by blast
qed

theorem notecard_added_once_witness:
  "injectNotecardOnWarnings [Element ''div'' [(''class'', ''warning'')] [Text ''careful'']] =
     [Element ''div'' [(''class'', ''warning notecard'')] [Text ''careful'']] \<and>
   injectNotecardOnWarnings
     (injectNotecardOnWarnings [Element ''div'' [(''class'', ''warning'')] [Text ''careful'']]) =
     [Element ''div'' [(''class'', ''warning notecard'')] [Text ''careful'']]"
proof -
  let ?t = "[Element ''div'' [(''class'', ''warning'')] [Text ''careful'']]"
  note inst = notecard_added_once[of ?t "[(''class'', ''warning'')]"]
  have "map_of [(''class'', ''warning'')] ''class'' = Some ''warning''" by simp
  with inst have cls: "removeClass ''blockIndicator'' (addClass ''notecard'' [(''class'', ''warning'')]) =
      setAttr ''class'' ''warning notecard'' [(''class'', ''warning'')]"
    by blast
  have sel: "hasClass ''warning'' [(''class'', ''warning'')]"
    by (simp add: hasClass_def tokens.simps isWhiteSpace_def)
  have 1: "injectNotecardOnWarnings ?t = [Element ''div'' [(''class'', ''warning notecard'')] [Text ''careful'']]"
    by (simp add: injectNotecardOnWarnings_def sel cls setAttr_def)
  from inst have "injectNotecardOnWarnings (injectNotecardOnWarnings ?t) = injectNotecardOnWarnings ?t"
    by blast
  with 1 show ?thesis by simp
qed

subsection \<open>Splitting at a space and joining again\<close>

lemma split_from_space_Cons:
  "split_from '' '' cur (c # cs) =
     (if c = CHR '' '' then cur # split_from '' '' [] cs else split_from '' '' (cur @ [c]) cs)"
  by auto

lemma split_from_space:
  "split_from '' '' cur (r @ CHR '' '' # x) = split_from '' '' cur r @ split_from '' '' [] x"
  by (induction r arbitrary: cur) (simp_all add: split_from_space_Cons del: split_from.simps(2))

lemma split_from_not_Nil: "split_from sep cur s \<noteq> []"
  by (induction sep cur s rule: split_from.induct) simp_all

lemma str_join_snoc: "xs \<noteq> [] \<Longrightarrow> str_join sep (xs @ [y]) = str_join sep xs @ sep @ y"
  by (induction xs rule: induct_list012) simp_all

lemma str_join_Cons: "xs \<noteq> [] \<Longrightarrow> str_join sep (x # xs) = x @ sep @ str_join sep xs"
  by (cases xs) simp_all

lemma join_split_from_space: "str_join '' '' (split_from '' '' cur s) = cur @ s"
  by (induction s arbitrary: cur)
     (simp_all add: split_from_space_Cons str_join_Cons split_from_not_Nil del: split_from.simps(2))

lemma join_split_space: "str_join '' '' (str_split s '' '') = s"
  by (simp add: str_split_def join_split_from_space)

lemma split_noopener: "str_split ''noopener'' '' '' = [''noopener'']"
  by (simp add: str_split_def)

lemma split_append_noopener:
  "str_split (r @ '' noopener'') '' '' = str_split r '' '' @ [''noopener'']"
  using split_from_space[of "[]" r "''noopener''"] split_noopener
  by (simp add: str_split_def)

subsection \<open>External links\<close>

lemma word_external: "''external'' \<noteq> []" "\<forall>x \<in> set ''external''. \<not> isWhiteSpace x"
  by (simp_all add: isWhiteSpace_def)

lemma hasClass_addClass:
  assumes "c \<noteq> []" and "\<forall>x \<in> set c. \<not> isWhiteSpace x"
  shows "hasClass c (addClass c as)"
proof (cases "map_of as ''class''")
  case None
  then show ?thesis
    by (simp add: addClass_word[OF assms] hasClass_def map_of_setAttr tokens_word[OF assms])
next
  case (Some cn)
  show ?thesis
  proof (cases "cn = []")
    case True
    with Some show ?thesis
      by (simp add: addClass_word[OF assms] hasClass_def map_of_setAttr tokens_word[OF assms])
  next
    case False
    define v where "v = trim (if sublist ('' '' @ c @ '' '') ('' '' @ cn @ '' '') then cn
                              else cn @ '' '' @ c)"
    have "c \<in> set (tokens v)"
      using sublist_token[OF assms added_class_stable(1)[OF assms v_def]]
      by (simp only: tokens_pad)
    with Some False show ?thesis
      by (simp add: addClass_word[OF assms] hasClass_def map_of_setAttr v_def)
  qed
qed

lemma map_of_addClass_other:
  assumes "c \<noteq> []" and "\<forall>x \<in> set c. \<not> isWhiteSpace x" and "k \<noteq> ''class''"
  shows "map_of (addClass c as) k = map_of as k"
  using assms(3) by (simp add: addClass_word[OF assms(1,2)] map_of_setAttr)

lemma hasClass_setAttr_other: "k \<noteq> ''class'' \<Longrightarrow> hasClass c (setAttr k v as) = hasClass c as"
  by (simp add: hasClass_def map_of_setAttr)

text \<open>
  Claim C8.  The external-link pass rewrites the attributes of every \<open>a\<close> element whose
  \<open>href\<close> starts with \<open>http\<close> and nothing else of the tree.  When the \<open>href\<close> starts
  with \<open>https://developer.mozilla.org\<close> the attributes stay as they are.  Otherwise the
  element has the class \<open>external\<close> afterwards and a \<open>rel\<close> attribute with \<open>noopener\<close>
  among its names: the \<open>rel\<close> attribute it had when \<open>noopener\<close> was one of its names,
  and else that attribute (or the empty string) followed by \<open> noopener\<close>, with
  \<open>noopener\<close> once; the attributes other than \<open>class\<close> and \<open>rel\<close> stay as they are.
\<close>

theorem external_links_annotated:
  assumes "map_of as ''href'' = Some href" and "startsWith href ''http''"
    and "old = (case map_of as ''rel'' of None \<Rightarrow> [] | Some r \<Rightarrow> r)"
  shows "treeElements (postProcessExternalLinks t) =
           map (\<lambda>(tag, as).
                  (tag, if tag = ''a'' \<and> attrStartsWith ''href'' ''http'' as
                        then externalLink as else as))
             (treeElements t) \<and>
         map shape (postProcessExternalLinks t) = map shape t \<and>
         attrStartsWith ''href'' ''http'' as \<and>
         (startsWith href ''https://developer.mozilla.org'' \<longrightarrow> externalLink as = as) \<and>
         (\<not> startsWith href ''https://developer.mozilla.org'' \<longrightarrow>
            hasClass ''external'' (externalLink as) \<and>
            (\<exists>rel. map_of (externalLink as) ''rel'' = Some rel \<and>
                   ''noopener'' \<in> set (str_split rel '' '')) \<and>
            (''noopener'' \<in> set (str_split old '' '') \<longrightarrow>
               map_of (externalLink as) ''rel'' = map_of as ''rel'') \<and>
            (''noopener'' \<notin> set (str_split old '' '') \<longrightarrow>
               map_of (externalLink as) ''rel'' = Some (old @ '' noopener'') \<and>
               count_list (str_split (old @ '' noopener'') '' '') ''noopener'' = 1) \<and>
            (\<forall>k. k \<noteq> ''class'' \<and> k \<noteq> ''rel'' \<longrightarrow> map_of (externalLink as) k = map_of as k))"
proof -
  have elems: "treeElements (postProcessExternalLinks t) =
           map (\<lambda>(tag, as).
                  (tag, if tag = ''a'' \<and> attrStartsWith ''href'' ''http'' as
                        then externalLink as else as))
             (treeElements t)"
    by (simp only: postProcessExternalLinks_def treeElements_onSelected)
  have shape: "map shape (postProcessExternalLinks t) = map shape t"
    by (simp add: postProcessExternalLinks_def shape_onSelected comp_def)
  have sel: "attrStartsWith ''href'' ''http'' as"
    using assms(1,2) by (simp add: attrStartsWith_def)
  have mdn: "externalLink as = as" if "startsWith href ''https://developer.mozilla.org''"
    using that assms(1) by (simp add: externalLink_def)
  let ?as1 = "addClass ''external'' as"
  have rel1: "map_of ?as1 ''rel'' = map_of as ''rel''"
    by (rule map_of_addClass_other[OF word_external]) simp
  have old1: "(case map_of ?as1 ''rel'' of None \<Rightarrow> [] | Some r \<Rightarrow> r) = old"
    by (simp only: rel1 assms(3))
  have ext: "externalLink as =
      (if ''noopener'' \<in> set (str_split old '' '') then ?as1
       else setAttr ''rel'' (old @ '' noopener'') ?as1)"
    if "\<not> startsWith href ''https://developer.mozilla.org''"
  proof -
    have "str_join '' '' (str_split old '' '' @ [''noopener'']) = old @ '' noopener''"
      by (simp add: str_join_snoc str_split_def split_from_not_Nil join_split_from_space)
    with that assms(1) show ?thesis
      by (simp add: externalLink_def Let_def old1)
  qed
  have present: "\<exists>r. map_of as ''rel'' = Some r \<and> r = old"
    if "''noopener'' \<in> set (str_split old '' '')"
    using that assms(3) by (cases "map_of as ''rel''") (simp_all add: str_split_def)
  have other: "\<not> startsWith href ''https://developer.mozilla.org'' \<longrightarrow>
      hasClass ''external'' (externalLink as) \<and>
      (\<exists>rel. map_of (externalLink as) ''rel'' = Some rel \<and>
             ''noopener'' \<in> set (str_split rel '' '')) \<and>
      (''noopener'' \<in> set (str_split old '' '') \<longrightarrow>
         map_of (externalLink as) ''rel'' = map_of as ''rel'') \<and>
      (''noopener'' \<notin> set (str_split old '' '') \<longrightarrow>
         map_of (externalLink as) ''rel'' = Some (old @ '' noopener'') \<and>
         count_list (str_split (old @ '' noopener'') '' '') ''noopener'' = 1) \<and>
      (\<forall>k. k \<noteq> ''class'' \<and> k \<noteq> ''rel'' \<longrightarrow> map_of (externalLink as) k = map_of as k)"
  proof (cases "''noopener'' \<in> set (str_split old '' '')")
    case True
    show ?thesis
      using True present[OF True] hasClass_addClass[OF word_external, of as]
      by (auto simp: ext rel1 map_of_addClass_other[OF word_external])
  next
    case False
    show ?thesis
      using False hasClass_addClass[OF word_external, of as]
      by (auto simp: ext rel1 map_of_addClass_other[OF word_external] map_of_setAttr
            hasClass_setAttr_other split_append_noopener count_list_absent)
  qed
  show ?thesis
    using elems shape sel mdn other by blast
qed

theorem external_links_annotated_witness:
  "postProcessExternalLinks
     [Element ''a'' [(''href'', ''https://developer.mozilla.org/en-US/docs/Web'')] [Text ''in''],
      Element ''a'' [(''href'', ''https://example.com'')] [Text ''out'']] =
     [Element ''a'' [(''href'', ''https://developer.mozilla.org/en-US/docs/Web'')] [Text ''in''],
      Element ''a'' (externalLink [(''href'', ''https://example.com'')]) [Text ''out'']] \<and>
   hasClass ''external'' (externalLink [(''href'', ''https://example.com'')]) \<and>
   map_of (externalLink [(''href'', ''https://example.com'')]) ''rel'' = Some '' noopener''"
proof -
  have h: "map_of [(''href'', ''https://example.com'')] ''href'' = Some ''https://example.com''"
    by simp
  have s: "startsWith ''https://example.com'' ''http''"
    by (simp add: startsWith_def)
  have o: "[] = (case map_of [(''href'', ''https://example.com'')] ''rel'' of None \<Rightarrow> [] | Some r \<Rightarrow> r)"
    by simp
  have n: "\<not> startsWith ''https://example.com'' ''https://developer.mozilla.org''"
    by (simp add: startsWith_def)
  have e: "''noopener'' \<notin> set (str_split [] '' '')"
    by (simp add: str_split_def)
  note inst = external_links_annotated[OF h s o, THEN conjunct2, THEN conjunct2, THEN conjunct2,
      THEN conjunct2, THEN mp, OF n]
  have 1: "hasClass ''external'' (externalLink [(''href'', ''https://example.com'')])"
    by (rule inst[THEN conjunct1])
  have "map_of (externalLink [(''href'', ''https://example.com'')]) ''rel'' = Some ([] @ '' noopener'')"
    by (rule inst[THEN conjunct2, THEN conjunct2, THEN conjunct2, THEN conjunct1, THEN mp, OF e,
          THEN conjunct1])
  then have 2: "map_of (externalLink [(''href'', ''https://example.com'')]) ''rel'' = Some '' noopener''"
    by simp
  have 3: "postProcessExternalLinks
     [Element ''a'' [(''href'', ''https://developer.mozilla.org/en-US/docs/Web'')] [Text ''in''],
      Element ''a'' [(''href'', ''https://example.com'')] [Text ''out'']] =
     [Element ''a'' [(''href'', ''https://developer.mozilla.org/en-US/docs/Web'')] [Text ''in''],
      Element ''a'' (externalLink [(''href'', ''https://example.com'')]) [Text ''out'']]"
    by (simp add: postProcessExternalLinks_def attrStartsWith_def startsWith_def externalLink_def)
  from 1 2 3 show ?thesis by (intro conjI)
qed

subsection \<open>The flaw markers\<close>

lemma flawMarkers_0_iff:
  "flawMarkers t = 0 \<longleftrightarrow> (\<forall>(tag, as) \<in> set (treeElements t). \<not> hasAttr ''data-flaw-src'' as)"
  by (auto simp: flawMarkers_def filter_empty_conv)

lemma hasAttr_setAttr: "hasAttr n (setAttr k v as) = (n = k \<or> hasAttr n as)"
  by (simp add: hasAttr_def map_of_setAttr)

lemma hasAttr_removeAttr: "\<not> hasAttr n (removeAttr n as)"
  by (simp add: hasAttr_def removeAttr_def delete_conv')

lemma removeAttr_filter: "removeAttr n as = filter (\<lambda>(k, v). k \<noteq> n) as"
  by (auto simp: removeAttr_def AList.delete_eq intro!: filter_cong)

lemma removeAttr_absent: "\<not> hasAttr n as \<Longrightarrow> removeAttr n as = as"
  by (simp add: hasAttr_def removeAttr_def map_of_eq_None_iff)

lemma addClass_cases: "addClass c as = as \<or> (\<exists>v. addClass c as = setAttr ''class'' v as)"
  by (auto simp: addClass_def Let_def split: option.splits)

lemma removeClass_cases: "removeClass b as = as \<or> (\<exists>v. removeClass b as = setAttr ''class'' v as)"
  by (auto simp: removeClass_def Let_def)

lemma marker_addClass: "hasAttr ''data-flaw-src'' (addClass c as) = hasAttr ''data-flaw-src'' as"
  using addClass_cases[of c as] by (auto simp: hasAttr_setAttr)

lemma marker_removeClass: "hasAttr ''data-flaw-src'' (removeClass b as) = hasAttr ''data-flaw-src'' as"
  using removeClass_cases[of b as] by (auto simp: hasAttr_setAttr)

lemma marker_externalLink: "hasAttr ''data-flaw-src'' (externalLink as) = hasAttr ''data-flaw-src'' as"
  by (simp add: externalLink_def Let_def hasAttr_setAttr marker_addClass split: option.splits)

lemma unmarked_onSelected:
  assumes "flawMarkers t = 0"
    and "\<And>as. \<not> hasAttr ''data-flaw-src'' as \<Longrightarrow> \<not> hasAttr ''data-flaw-src'' (f as)"
  shows "flawMarkers (map (onSelected sel f) t) = 0"
  using assms by (auto simp: flawMarkers_0_iff treeElements_onSelected split: if_splits)

lemma elements_removeWithin: "set (elements (removeWithin sel n)) \<subseteq> set (elements n)"
  by (induction n) (auto cong: map_cong)

lemma unmarked_removeSelected:
  assumes "flawMarkers t = 0"
  shows "flawMarkers (removeSelected sel t) = 0"
  using assms elements_removeWithin
  by (fastforce simp: flawMarkers_0_iff treeElements_def removeSelected_def)

lemma stripFlawSrc_elements:
  "treeElements (stripFlawSrc t) =
     map (\<lambda>(tag, as). (tag, filter (\<lambda>(k, v). k \<noteq> ''data-flaw-src'') as)) (treeElements t)"
proof -
  have "(if hasAttr ''data-flaw-src'' as then removeAttr ''data-flaw-src'' as else as) =
        filter (\<lambda>(k, v). k \<noteq> ''data-flaw-src'') as" for as
    using removeAttr_absent[of "''data-flaw-src''" as] by (simp add: removeAttr_filter)
  then show ?thesis
    by (simp add: stripFlawSrc_def treeElements_onSelected)
qed

lemma stripFlawSrc_unmarked: "flawMarkers (stripFlawSrc t) = 0"
  by (auto simp: flawMarkers_0_iff stripFlawSrc_def treeElements_onSelected hasAttr_removeAttr
        split: if_splits)

lemma unmarked_postProcess:
  assumes "flawMarkers t = 0"
  shows "flawMarkers (postProcess t) = 0"
  unfolding postProcess_def injectNotecardOnWarnings_def injectInPageCallout_def
    postProcessExternalLinks_def injectLoadingLazyAttributes_def injectNoTranslate_def
  by (intro unmarked_onSelected assms)
     (simp_all add: marker_addClass marker_removeClass marker_externalLink hasAttr_setAttr)

lemma unmarked_rewriteFxSiteCompat:
  "flawMarkers t = 0 \<Longrightarrow> flawMarkers (rewriteFxSiteCompat t) = 0"
  unfolding rewriteFxSiteCompat_def
  by (rule unmarked_onSelected) (simp_all add: hasAttr_setAttr)

lemma loadBody_ignore:
  assumes "flawLevels opts ''macros'' = Some IGNORE"
  shows "loadBody e opts html =
           removeSelected (\<lambda>tag as. tag = ''span'' \<and> hasClass ''alllinks'' as)
             (stripFlawSrc (cheerio_load e (''<div id=\"_body\">'' @ html @ ''</div>'')))"
  using assms by (simp add: loadBody_def)

lemma prepareTree_unmarked:
  assumes "flawLevels opts ''macros'' = Some IGNORE" and "passesKeepUnmarked e"
    and "prepareTree e opts d dc html = (eff, Inr (dc', att, t'))"
  shows "flawMarkers t' = 0"
proof -
  let ?t = "loadBody e opts html"
  have t: "flawMarkers ?t = 0"
    by (simp only: loadBody_ignore[OF assms(1)] unmarked_removeSelected stripFlawSrc_unmarked)
  note k = assms(2)[unfolded passesKeepUnmarked_def, rule_format]
  from assms(3) obtain lang where lang: "LANGUAGES e (toLowerCase (metadata.locale_code (metadata d))) = Some lang"
    by (cases "LANGUAGES e (toLowerCase (metadata.locale_code (metadata d)))")
       (simp_all add: prepareTree_def Let_def)
  obtain sidebar t2 where s: "extractSidebar e ?t = (sidebar, t2)" by (cases "extractSidebar e ?t")
  have t2: "flawMarkers t2 = 0" using k[OF t] s by (metis snd_conv)
  let ?dc3 = "dc\<lparr> doc.title := metadata.title (metadata d), mdn_url := url d,
      doc.locale_code := metadata.locale_code (metadata d), doc.native := language.native lang,
      sidebarHTML := sidebar \<rparr>"
  obtain att3 fl3 t3 where c: "checkImageReferences e ?dc3 t2 opts d = (att3, fl3, t3)"
    by (cases "checkImageReferences e ?dc3 t2 opts d") auto
  have t3: "flawMarkers t3 = 0" using k[OF t2, of ?dc3 opts d] c by simp
  obtain fl4 t4 where w: "checkImageWidths e (?dc3\<lparr> flaws_other := fl3 \<rparr>) t3 opts d = (fl4, t4)"
    by (cases "checkImageWidths e (?dc3\<lparr> flaws_other := fl3 \<rparr>) t3 opts d")
  have t4: "flawMarkers t4 = 0" using k[OF t3, of "?dc3\<lparr> flaws_other := fl3 \<rparr>" opts d] w by simp
  from assms(3) obtain fl5 t5 where
    i: "injectFlaws e (?dc3\<lparr> flaws_other := fl4 \<rparr>) t4 opts d = Inr (fl5, t5)"
    by (cases "injectFlaws e (?dc3\<lparr> flaws_other := fl4 \<rparr>) t4 opts d")
       (auto simp: prepareTree_def Let_def lang s c w)
  have t5: "flawMarkers t5 = 0" using k[OF t4, of "?dc3\<lparr> flaws_other := fl4 \<rparr>" opts d] i by blast
  let ?t7 = "removeSelected (\<lambda>tag as. tag = ''div'' \<and> hasClass ''hidden'' as) (rewriteFxSiteCompat t5)"
  have t7: "flawMarkers ?t7 = 0"
    by (intro unmarked_removeSelected unmarked_rewriteFxSiteCompat t5)
  have t8: "flawMarkers (syntaxHighlight e ?t7 dc8) = 0" for dc8
    using k[OF t7] by blast
  from assms(3) have "\<exists>dc8. t' = postProcess (syntaxHighlight e ?t7 dc8)"
    by (auto simp: prepareTree_def Let_def lang s c w i split: sum.splits)
  then obtain dc8 where e8: "t' = postProcess (syntaxHighlight e ?t7 dc8)" ..
  show ?thesis
    unfolding e8 by (rule unmarked_postProcess[OF t8])
qed

lemma shape_stripFlawSrc: "map shape (stripFlawSrc t) = map shape t"
  by (simp add: stripFlawSrc_def shape_onSelected)

lemma demo_keeps_unmarked: "passesKeepUnmarked demoEnv"
  by (simp add: passesKeepUnmarked_def demoEnv_def)

lemma demo_ignore:
  "flawLevels (mergeOptions (buildOptions demoEnv) (demoOptions IGNORE)) ''macros'' = Some IGNORE"
  by (simp add: mergeOptions_def demoEnv_def demoOptions_def)

lemma demo_markers: "flawMarkers demoTree = 1"
  by (simp add: flawMarkers_def treeElements_def demoTree_def hasAttr_def)

lemma hasClass_removeAttr: "n \<noteq> ''class'' \<Longrightarrow> hasClass c (removeAttr n as) = hasClass c as"
  by (simp add: hasClass_def removeAttr_def delete_conv')

lemma selected_onSelected:
  assumes "\<And>tag as. p tag as \<Longrightarrow> sel tag (f as) = sel tag as"
  shows "selected sel (onSelected p f n) = selected sel n"
  using assms by (cases n) simp_all

lemma onSelected_removeWithin:
  assumes "\<And>tag as. p tag as \<Longrightarrow> sel tag (f as) = sel tag as"
  shows "onSelected p f (removeWithin sel n) = removeWithin sel (onSelected p f n)"
proof (induction n)
  case (Element t as cs)
  have f: "filter (\<lambda>c. \<not> selected sel c) (map (onSelected p f) cs) =
      map (onSelected p f) (filter (\<lambda>c. \<not> selected sel c) cs)"
    by (simp add: filter_map comp_def selected_onSelected[of p sel f, OF assms])
  show ?case
    by (simp add: f Element.IH cong: map_cong)
next
  case (Text s)
  show ?case by simp
qed

lemma onSelected_removeSelected:
  assumes "\<And>tag as. p tag as \<Longrightarrow> sel tag (f as) = sel tag as"
  shows "map (onSelected p f) (removeSelected sel t) = removeSelected sel (map (onSelected p f) t)"
proof -
  have f: "filter (\<lambda>c. \<not> selected sel c) (map (onSelected p f) t) =
      map (onSelected p f) (filter (\<lambda>c. \<not> selected sel c) t)"
    by (simp add: filter_map comp_def selected_onSelected[of p sel f, OF assms])
  show ?thesis
    by (simp add: removeSelected_def f onSelected_removeWithin[of p sel f, OF assms])
qed

lemma stripFlawSrc_removeSelected:
  "stripFlawSrc (removeSelected (\<lambda>tag as. tag = g \<and> hasClass c as) t) =
     removeSelected (\<lambda>tag as. tag = g \<and> hasClass c as) (stripFlawSrc t)"
  unfolding stripFlawSrc_def
  by (rule onSelected_removeSelected) (simp add: hasClass_removeAttr)

lemma loadBody_stripped:
  assumes "flawLevels opts ''macros'' = Some IGNORE" and "flawLevels opts' ''macros'' \<noteq> Some IGNORE"
  shows "loadBody e opts html = stripFlawSrc (loadBody e opts' html)"
  using assms by (simp add: loadBody_def stripFlawSrc_removeSelected)

lemma prepareTree_passes:
  assumes "prepareTree e opts d dc html = (eff, Inr (dc', att, t'))"
  shows "\<exists>lang sidebar t2 dc3 fl3 t3 fl4 t4 fl5 t5.
           LANGUAGES e (toLowerCase (metadata.locale_code (metadata d))) = Some lang \<and>
           extractSidebar e (loadBody e opts html) = (sidebar, t2) \<and>
           dc3 = dc\<lparr> doc.title := metadata.title (metadata d), mdn_url := url d,
                      doc.locale_code := metadata.locale_code (metadata d),
                      doc.native := language.native lang, sidebarHTML := sidebar \<rparr> \<and>
           checkImageReferences e dc3 t2 opts d = (att, fl3, t3) \<and>
           checkImageWidths e (dc3\<lparr> flaws_other := fl3 \<rparr>) t3 opts d = (fl4, t4) \<and>
           injectFlaws e (dc3\<lparr> flaws_other := fl4 \<rparr>) t4 opts d = Inr (fl5, t5) \<and>
           dc' = dc3\<lparr> flaws_other := fl5 \<rparr> \<and>
           t' = postProcess
                  (syntaxHighlight e
                     (removeSelected (\<lambda>tag as. tag = ''div'' \<and> hasClass ''hidden'' as)
                        (rewriteFxSiteCompat t5)) dc')"
proof -
  let ?t = "loadBody e opts html"
  from assms obtain lang where lang: "LANGUAGES e (toLowerCase (metadata.locale_code (metadata d))) = Some lang"
    by (cases "LANGUAGES e (toLowerCase (metadata.locale_code (metadata d)))")
       (simp_all add: prepareTree_def Let_def)
  obtain sidebar t2 where s: "extractSidebar e ?t = (sidebar, t2)" by (cases "extractSidebar e ?t")
  let ?dc3 = "dc\<lparr> doc.title := metadata.title (metadata d), mdn_url := url d,
      doc.locale_code := metadata.locale_code (metadata d), doc.native := language.native lang,
      sidebarHTML := sidebar \<rparr>"
  obtain att3 fl3 t3 where c: "checkImageReferences e ?dc3 t2 opts d = (att3, fl3, t3)"
    by (cases "checkImageReferences e ?dc3 t2 opts d") auto
  obtain fl4 t4 where w: "checkImageWidths e (?dc3\<lparr> flaws_other := fl3 \<rparr>) t3 opts d = (fl4, t4)"
    by (cases "checkImageWidths e (?dc3\<lparr> flaws_other := fl3 \<rparr>) t3 opts d")
  from assms obtain fl5 t5 where
    i: "injectFlaws e (?dc3\<lparr> flaws_other := fl4 \<rparr>) t4 opts d = Inr (fl5, t5)"
    by (cases "injectFlaws e (?dc3\<lparr> flaws_other := fl4 \<rparr>) t4 opts d")
       (auto simp: prepareTree_def Let_def lang s c w)
  from assms have r: "att = att3 \<and> dc' = ?dc3\<lparr> flaws_other := fl5 \<rparr> \<and>
      t' = postProcess
             (syntaxHighlight e
                (removeSelected (\<lambda>tag as. tag = ''div'' \<and> hasClass ''hidden'' as)
                   (rewriteFxSiteCompat t5)) (?dc3\<lparr> flaws_other := fl5 \<rparr>))"
    by (cases "fixFixableFlaws e (?dc3\<lparr> flaws_other := fl5 \<rparr>) opts d")
       (auto simp: prepareTree_def Let_def lang s c w i)
  show ?thesis
    apply (rule exI[of _ lang], rule exI[of _ sidebar], rule exI[of _ t2], rule exI[of _ ?dc3],
        rule exI[of _ fl3], rule exI[of _ t3], rule exI[of _ fl4], rule exI[of _ t4],
        rule exI[of _ fl5], rule exI[of _ t5])
    apply (intro conjI)
           apply (rule lang)
          apply (rule s)
         apply (rule refl)
        apply (simp only: c r)
       apply (rule w)
      apply (rule i)
     apply (rule r[THEN conjunct2, THEN conjunct1])
    apply (simp only: r[THEN conjunct2, THEN conjunct1, symmetric] r[THEN conjunct2, THEN conjunct2])
    done
qed

lemma demo_not_fxsitecompat:
  "\<not> str_includes ''https://example.com'' ''fxsitecompat.com''"
  "\<not> str_includes ''https://developer.mozilla.org/en-US/docs/Web'' ''fxsitecompat.com''"
  by (simp_all add: str_includes_def sublist_Cons_right)

lemma demo_final_tree:
  "postProcess (removeSelected (\<lambda>tag as. tag = ''div'' \<and> hasClass ''hidden'' as)
      (rewriteFxSiteCompat
         (removeSelected (\<lambda>tag as. tag = ''span'' \<and> hasClass ''alllinks'' as)
            (stripFlawSrc demoTree)))) =
     [Element ''div'' [(''id'', ''_body'')]
        [Element ''div'' [(''class'', ''warning notecard'')] [Text ''careful''],
         Element ''a'' [(''href'', ''https://example.com''), (''class'', ''external''),
                        (''rel'', '' noopener'')] [Text ''out''],
         Element ''a'' [(''href'', ''https://developer.mozilla.org/en-US/docs/Web'')]
           [Text ''in'']]]"
  by (simp add: demoTree_def stripFlawSrc_def removeSelected_def rewriteFxSiteCompat_def
        postProcess_def injectNotecardOnWarnings_def injectInPageCallout_def
        postProcessExternalLinks_def injectLoadingLazyAttributes_def injectNoTranslate_def
        hasAttr_def hasClass_def removeAttr_def setAttr_def attrStartsWith_def startsWith_def
        externalLink_def addClass_def removeClass_def splitNames_def split_rspace_def
        str_split_def trim_def tokens.simps isWhiteSpace_def Let_def
        sublist_Cons_right demo_not_fxsitecompat)


lemma demo_passes:
  "extractSidebar demoEnv t = ([], t)"
  "checkImageReferences demoEnv dc t opts d = ([], flaws_other dc, t)"
  "checkImageWidths demoEnv dc t opts d = (flaws_other dc, t)"
  "injectFlaws demoEnv dc t opts d = Inr (flaws_other dc, t)"
  "syntaxHighlight demoEnv t dc = t"
  "cheerio_load demoEnv html = demoTree"
  by (simp_all add: demoEnv_def)

text \<open>
  Claim C5.  When the level of the macro flaws is \<open>ignore\<close>, \<open>buildDocument\<close> works on
  the loaded tree without its \<open>data-flaw-src\<close> attributes.  The stripping leaves no
  such attribute and changes nothing else: the tags, the nesting and the texts are those
  of the loaded tree, and the attribute list of every element is the old one without
  \<open>data-flaw-src\<close>.  The tree the build goes on with is the tree it would go on with
  under any other level, stripped.  A build that returns has handed exactly that tree to
  the passes that follow, in their order, and the sections of the document are
  extracted from the tree the last of them gives.  The passes of this file add no
  marker, so that tree has none, whatever the macro engine reported, as long as the
  passes of the other modules (the sidebar, the image checks, the flaw injection, the
  syntax highlighting) add none either.
\<close>

theorem ignored_macro_flaws_unmarked:
  fixes e :: "('x, 'a) env"
  assumes "opts = mergeOptions (buildOptions e) ops"
    and "flawLevels opts ''macros'' = Some IGNORE"
  shows "flawMarkers (stripFlawSrc t) = 0 \<and>
         map shape (stripFlawSrc t) = map shape t \<and>
         treeElements (stripFlawSrc t) =
           map (\<lambda>(tag, as). (tag, filter (\<lambda>(k, v). k \<noteq> ''data-flaw-src'') as))
             (treeElements t) \<and>
         loadBody e opts html =
           removeSelected (\<lambda>tag as. tag = ''span'' \<and> hasClass ''alllinks'' as)
             (stripFlawSrc (cheerio_load e (''<div id=\"_body\">'' @ html @ ''</div>''))) \<and>
         (flawLevels opts' ''macros'' \<noteq> Some IGNORE \<longrightarrow>
            loadBody e opts html = stripFlawSrc (loadBody e opts' html)) \<and>
         flawMarkers (loadBody e opts html) = 0 \<and>
         (\<forall>d eff r.
            buildDocument e d ops = (eff, Inr r) \<longrightarrow>
            (\<exists>rendered macros lang sidebar t2 dc3 att fl3 t3 fl4 t4 fl5 t5 dc t' bcd.
               renderDocument e opts d = (eff, Inr (rendered, liveSamples r, macros)) \<and>
               LANGUAGES e (toLowerCase (metadata.locale_code (metadata d))) = Some lang \<and>
               extractSidebar e (loadBody e opts rendered) = (sidebar, t2) \<and>
               dc3 = (newDoc d)\<lparr> flaws_macros := macros,
                                  doc.title := metadata.title (metadata d), mdn_url := url d,
                                  doc.locale_code := metadata.locale_code (metadata d),
                                  doc.native := language.native lang, sidebarHTML := sidebar \<rparr> \<and>
               checkImageReferences e dc3 t2 opts d = (att, fl3, t3) \<and>
               checkImageWidths e (dc3\<lparr> flaws_other := fl3 \<rparr>) t3 opts d = (fl4, t4) \<and>
               injectFlaws e (dc3\<lparr> flaws_other := fl4 \<rparr>) t4 opts d = Inr (fl5, t5) \<and>
               dc = dc3\<lparr> flaws_other := fl5 \<rparr> \<and>
               t' = postProcess
                      (syntaxHighlight e
                         (removeSelected (\<lambda>tag as. tag = ''div'' \<and> hasClass ''hidden'' as)
                            (rewriteFxSiteCompat t5)) dc) \<and>
               finishDocument e opts d dc t' = Inr (doc r, bcd) \<and>
               (passesKeepUnmarked e \<longrightarrow> flawMarkers t' = 0)))"
proof -
  have a: "flawMarkers (stripFlawSrc t) = 0" by (rule stripFlawSrc_unmarked)
  have b: "map shape (stripFlawSrc t) = map shape t" by (rule shape_stripFlawSrc)
  note c = stripFlawSrc_elements[of t]
  note l = loadBody_ignore[OF assms(2), where html = html and e = e]
  have s: "flawLevels opts' ''macros'' \<noteq> Some IGNORE \<longrightarrow>
      loadBody e opts html = stripFlawSrc (loadBody e opts' html)"
    by (rule impI) (rule loadBody_stripped[OF assms(2)])
  have f: "flawMarkers (loadBody e opts html) = 0"
    by (simp only: l unmarked_removeSelected stripFlawSrc_unmarked)
  have g: "\<exists>rendered macros lang sidebar t2 dc3 att fl3 t3 fl4 t4 fl5 t5 dc t' bcd.
       renderDocument e opts d = (eff, Inr (rendered, liveSamples r, macros)) \<and>
       LANGUAGES e (toLowerCase (metadata.locale_code (metadata d))) = Some lang \<and>
       extractSidebar e (loadBody e opts rendered) = (sidebar, t2) \<and>
       dc3 = (newDoc d)\<lparr> flaws_macros := macros,
                          doc.title := metadata.title (metadata d), mdn_url := url d,
                          doc.locale_code := metadata.locale_code (metadata d),
                          doc.native := language.native lang, sidebarHTML := sidebar \<rparr> \<and>
       checkImageReferences e dc3 t2 opts d = (att, fl3, t3) \<and>
       checkImageWidths e (dc3\<lparr> flaws_other := fl3 \<rparr>) t3 opts d = (fl4, t4) \<and>
       injectFlaws e (dc3\<lparr> flaws_other := fl4 \<rparr>) t4 opts d = Inr (fl5, t5) \<and>
       dc = dc3\<lparr> flaws_other := fl5 \<rparr> \<and>
       t' = postProcess
              (syntaxHighlight e
                 (removeSelected (\<lambda>tag as. tag = ''div'' \<and> hasClass ''hidden'' as)
                    (rewriteFxSiteCompat t5)) dc) \<and>
       finishDocument e opts d dc t' = Inr (doc r, bcd) \<and>
       (passesKeepUnmarked e \<longrightarrow> flawMarkers t' = 0)"
    if bd: "buildDocument e d ops = (eff, Inr r)" for d eff r
  proof -
    from buildDocument_Inr[OF bd] obtain rendered macros dc att t' bcd where
      r: "renderDocument e opts d = (eff, Inr (rendered, liveSamples r, macros))" and
      p: "prepareTree e opts d ((newDoc d)\<lparr> flaws_macros := macros \<rparr>) rendered =
            ([], Inr (dc, att, t'))" and
      fin: "finishDocument e opts d dc t' = Inr (doc r, bcd)"
      unfolding assms(1)[symmetric] by (elim exE conjE)
    from prepareTree_passes[OF p] obtain lang sidebar t2 dc3 fl3 t3 fl4 t4 fl5 t5 where
      1: "LANGUAGES e (toLowerCase (metadata.locale_code (metadata d))) = Some lang" and
      2: "extractSidebar e (loadBody e opts rendered) = (sidebar, t2)" and
      3: "dc3 = (newDoc d)\<lparr> flaws_macros := macros,
                          doc.title := metadata.title (metadata d), mdn_url := url d,
                          doc.locale_code := metadata.locale_code (metadata d),
                          doc.native := language.native lang, sidebarHTML := sidebar \<rparr>" and
      4: "checkImageReferences e dc3 t2 opts d = (att, fl3, t3)" and
      5: "checkImageWidths e (dc3\<lparr> flaws_other := fl3 \<rparr>) t3 opts d = (fl4, t4)" and
      6: "injectFlaws e (dc3\<lparr> flaws_other := fl4 \<rparr>) t4 opts d = Inr (fl5, t5)" and
      7: "dc = dc3\<lparr> flaws_other := fl5 \<rparr>" and
      8: "t' = postProcess
              (syntaxHighlight e
                 (removeSelected (\<lambda>tag as. tag = ''div'' \<and> hasClass ''hidden'' as)
                    (rewriteFxSiteCompat t5)) dc)"
      by (elim exE conjE)
    have m: "passesKeepUnmarked e \<longrightarrow> flawMarkers t' = 0"
      by (rule impI) (rule prepareTree_unmarked[OF assms(2) _ p])
    show ?thesis
      apply (rule exI[of _ rendered], rule exI[of _ macros], rule exI[of _ lang],
          rule exI[of _ sidebar], rule exI[of _ t2], rule exI[of _ dc3], rule exI[of _ att],
          rule exI[of _ fl3], rule exI[of _ t3], rule exI[of _ fl4], rule exI[of _ t4],
          rule exI[of _ fl5], rule exI[of _ t5], rule exI[of _ dc], rule exI[of _ t'],
          rule exI[of _ bcd])
      apply (intro conjI)
                apply (rule r)
               apply (rule 1)
              apply (rule 2)
             apply (rule 3)
            apply (rule 4)
           apply (rule 5)
          apply (rule 6)
         apply (rule 7)
        apply (rule 8)
       apply (rule fin)
      apply (rule m)
      done
  qed
  show ?thesis
    by (rule conjI[OF a], rule conjI[OF b], rule conjI[OF c], rule conjI[OF l],
        rule conjI[OF s], rule conjI[OF f], intro allI impI, erule g)
qed

theorem ignored_macro_flaws_unmarked_witness:
  "flawLevels (mergeOptions (buildOptions demoEnv) (demoOptions IGNORE)) ''macros'' = Some IGNORE \<and>
   passesKeepUnmarked demoEnv \<and>
   render demoEnv (url demoDocument) = Inr (''<p>demo</p>'', [demoFlaw ''MacroBrokenLinkError'']) \<and>
   flawMarkers demoTree = 1 \<and>
   (\<exists>r dc bcd.
      buildDocument demoEnv demoDocument (demoOptions IGNORE) = ([], Inr r) \<and>
      finishDocument demoEnv (mergeOptions (buildOptions demoEnv) (demoOptions IGNORE))
        demoDocument dc
        [Element ''div'' [(''id'', ''_body'')]
           [Element ''div'' [(''class'', ''warning notecard'')] [Text ''careful''],
            Element ''a'' [(''href'', ''https://example.com''), (''class'', ''external''),
                           (''rel'', '' noopener'')] [Text ''out''],
            Element ''a'' [(''href'', ''https://developer.mozilla.org/en-US/docs/Web'')]
              [Text ''in'']]] = Inr (doc r, bcd))"
proof -
  let ?opts = "mergeOptions (buildOptions demoEnv) (demoOptions IGNORE)"
  let ?final = "[Element ''div'' [(''id'', ''_body'')]
           [Element ''div'' [(''class'', ''warning notecard'')] [Text ''careful''],
            Element ''a'' [(''href'', ''https://example.com''), (''class'', ''external''),
                           (''rel'', '' noopener'')] [Text ''out''],
            Element ''a'' [(''href'', ''https://developer.mozilla.org/en-US/docs/Web'')]
              [Text ''in'']]]"
  note inst = ignored_macro_flaws_unmarked[OF refl demo_ignore]
  note load = inst[THEN conjunct2, THEN conjunct2, THEN conjunct2, THEN conjunct1]
  have "\<exists>dc. buildDocument demoEnv demoDocument (demoOptions IGNORE) =
           ([], Inr \<lparr> doc = dc,
                     liveSamples = [\<lparr> ls_id = ''foo'', ls_html = ''sample Foo'' \<rparr>,
                                    \<lparr> ls_id = ''bar'', ls_html = ''sample Bar'' \<rparr>],
                     fileAttachments = [], bcdData = () \<rparr>)"
    using demo_builds[OF validateSlug_demo, of IGNORE] by (simp add: demoSlug_same)
  then obtain r where bd: "buildDocument demoEnv demoDocument (demoOptions IGNORE) = ([], Inr r)"
    by (elim exE) (rule that)
  from inst[THEN conjunct2, THEN conjunct2, THEN conjunct2, THEN conjunct2, THEN conjunct2,
      THEN conjunct2, THEN spec, THEN spec, THEN spec, THEN mp, OF bd]
  obtain rendered macros lang sidebar t2 dc3 att fl3 t3 fl4 t4 fl5 t5 dc t' bcd where
    2: "extractSidebar demoEnv (loadBody demoEnv ?opts rendered) = (sidebar, t2)" and
    4: "checkImageReferences demoEnv dc3 t2 ?opts demoDocument = (att, fl3, t3)" and
    5: "checkImageWidths demoEnv (dc3\<lparr> flaws_other := fl3 \<rparr>) t3 ?opts demoDocument = (fl4, t4)" and
    6: "injectFlaws demoEnv (dc3\<lparr> flaws_other := fl4 \<rparr>) t4 ?opts demoDocument = Inr (fl5, t5)" and
    8: "t' = postProcess
              (syntaxHighlight demoEnv
                 (removeSelected (\<lambda>tag as. tag = ''div'' \<and> hasClass ''hidden'' as)
                    (rewriteFxSiteCompat t5)) dc)" and
    fin: "finishDocument demoEnv ?opts demoDocument dc t' = Inr (doc r, bcd)"
    by (elim exE conjE)
  have t2: "t2 = removeSelected (\<lambda>tag as. tag = ''span'' \<and> hasClass ''alllinks'' as)
                   (stripFlawSrc demoTree)"
    using 2 by (simp add: load demo_passes)
  have t5: "t5 = t2"
    using 4 5 6 by (simp add: demo_passes)
  have t': "t' = ?final"
    by (simp only: 8 t5 t2 demo_passes demo_final_tree)
  have ex: "\<exists>r dc bcd.
      buildDocument demoEnv demoDocument (demoOptions IGNORE) = ([], Inr r) \<and>
      finishDocument demoEnv ?opts demoDocument dc ?final = Inr (doc r, bcd)"
    by (rule exI[of _ r], rule exI[of _ dc], rule exI[of _ bcd], rule conjI[OF bd],
        rule fin[unfolded t'])
  show ?thesis
    by (rule conjI[OF demo_ignore], rule conjI[OF demo_keeps_unmarked], rule conjI[OF demo_render],
        rule conjI[OF demo_markers], rule ex)
qed

subsection \<open>A live sample that fails to build\<close>

lemma demo_prepare_flaws_other:
  "prepareTree demoEnv opts d dc html = (eff, Inr (dc', att, t)) \<Longrightarrow> flaws_other dc' = flaws_other dc"
  by (auto simp: prepareTree_def demoEnv_def Let_def split: option.splits)

lemma demo_finish_flaws_other:
  assumes "finishDocument demoEnv opts d dc t = Inr (dc'', bcd)"
  shows "flaws_other dc'' = flaws_other dc"
proof -
  obtain others where o: "otherTranslations demoEnv d = Inr others"
    using assms
    by (cases "otherTranslations demoEnv d") (simp_all add: finishDocument_def Let_def split: prod.splits)
  have s: "extractSections demoEnv t = ([], [])" by (simp add: demoEnv_def)
  have b: "extractBCDData demoEnv x = ((), body x)" for x by (simp add: demoEnv_def)
  show ?thesis
  proof (cases "others = []")
    case True
    with assms show ?thesis
      by (clarsimp simp: finishDocument_def injectSource_def Let_def o s b)
  next
    case False
    with assms show ?thesis
      by (clarsimp simp: finishDocument_def injectSource_def Let_def o s b)
  qed
qed

lemma buildLiveSamples_skips:
  assumes "page_flaw (buildLiveSamplePage e (url d) (metadata.title (metadata d)) html s) = Some fl"
  shows "buildLiveSamples e d html (before @ s # after) flaws samples =
           (case buildLiveSamples e d html before flaws samples of
              (flaws', samples') \<Rightarrow>
                buildLiveSamples e d html after
                  (flaws' @ [updateFileInfo e fl (fileInfo d)]) samples')"
  using assms by (simp add: buildLiveSamples_append split: prod.splits)

lemma map_macro_flaw_records:
  "map (macro_flaw \<circ> (\<lambda>(i, f). macroFlawRecord d i f)) (enumerate n flaws) = flaws"
  by (induction flaws arbitrary: n) (simp_all add: macro_flaw_macroFlawRecord)

text \<open>
  Claim C2, as the module has it.  A live sample whose page is built with a flaw adds
  that flaw, with the file of the owning document, to the list of the macro flaws and
  adds no page; the loop goes on with the samples after it.  So the live samples of a build that returns
  are the pages of the flawless samples before and after it, in order.  The flaw is
  recorded on the document only under the level \<open>warn\<close> of the macro flaws: then
  \<open>doc.flaws.macros\<close> holds the flaws of the rendering followed by the flaws of the
  live samples, this one among them.  Under any other level a build that returns has
  no \<open>doc.flaws.macros\<close>, and under \<open>error\<close> the build does not return a document.
\<close>

theorem failed_live_sample_skipped:
  fixes e :: "('x, 'a) env"
  assumes "\<not> document.isArchive d"
    and "render e (url d) = Inr (html, flaws0)"
    and "getLiveSampleIDs e (slug (metadata d)) (rawHTML d) = before @ s # after"
    and "page_flaw (buildLiveSamplePage e (url d) (metadata.title (metadata d)) html s) = Some fl"
    and "level = flawLevels (mergeOptions (buildOptions e) ops) ''macros''"
    and "page = (\<lambda>s. \<lparr> ls_id = toLowerCase (sample_id s),
                       ls_html = page_html (buildLiveSamplePage e (url d)
                                    (metadata.title (metadata d)) html s) \<rparr>)"
    and "flawless = (\<lambda>s. page_flaw (buildLiveSamplePage e (url d)
                                    (metadata.title (metadata d)) html s) = None)"
    and "sampleFlaws = List.map_filter
                         (\<lambda>s. map_option (\<lambda>fl. updateFileInfo e fl (fileInfo d))
                                (page_flaw (buildLiveSamplePage e (url d)
                                              (metadata.title (metadata d)) html s)))"
  shows "buildLiveSamples e d html ids flaws samples =
           (flaws @ sampleFlaws ids, samples @ map page (filter flawless ids)) \<and>
         buildLiveSamples e d html (before @ s # after) flaws samples =
           (case buildLiveSamples e d html before flaws samples of
              (flaws', samples') \<Rightarrow>
                buildLiveSamples e d html after
                  (flaws' @ [updateFileInfo e fl (fileInfo d)]) samples') \<and>
         sampleFlaws (before @ s # after) =
           sampleFlaws before @ updateFileInfo e fl (fileInfo d) # sampleFlaws after \<and>
         (\<forall>eff r. buildDocument e d ops = (eff, Inr r) \<longrightarrow>
            liveSamples r = map page (filter flawless before) @ map page (filter flawless after) \<and>
            (level = Some WARN \<longrightarrow>
               (\<exists>ms. flaws_macros (doc r) = Some ms \<and>
                     map macro_flaw ms =
                       flaws0 @ sampleFlaws before @
                       updateFileInfo e fl (fileInfo d) # sampleFlaws after)) \<and>
            (level \<noteq> Some WARN \<longrightarrow> flaws_macros (doc r) = None)) \<and>
         (level = Some ERROR \<longrightarrow>
            (\<exists>eff err. buildDocument e d ops = (eff, Inl err :: 'x exn + 'a result)))"
proof -
  let ?opts = "mergeOptions (buildOptions e) ops"
  let ?ids = "getLiveSampleIDs e (slug (metadata d)) (rawHTML d)"
  let ?fl = "updateFileInfo e fl (fileInfo d)"
  have loop: "buildLiveSamples e d html ids flaws samples =
      (flaws @ sampleFlaws ids, samples @ map page (filter flawless ids))" for ids flaws samples
    unfolding assms(6,7,8) by (rule buildLiveSamples_eq)
  have skip: "buildLiveSamples e d html (before @ s # after) flaws samples =
      (case buildLiveSamples e d html before flaws samples of
         (flaws', samples') \<Rightarrow>
           buildLiveSamples e d html after (flaws' @ [?fl]) samples')"
    by (rule buildLiveSamples_skips[OF assms(4)])
  have sf: "sampleFlaws (before @ s # after) = sampleFlaws before @ ?fl # sampleFlaws after"
    by (simp add: assms(8) assms(4) List.map_filter_def)
  have nf: "\<not> flawless s"
    by (simp add: assms(7) assms(4))
  have all: "fst (buildLiveSamples e d html ?ids flaws0 []) =
      flaws0 @ sampleFlaws before @ ?fl # sampleFlaws after"
    by (simp only: loop assms(3) sf fst_conv)
  have ne: "fst (buildLiveSamples e d html ?ids flaws0 []) \<noteq> []"
    by (simp only: all) simp
  have ret: "liveSamples r = map page (filter flawless before) @ map page (filter flawless after) \<and>
      (level = Some WARN \<longrightarrow>
         (\<exists>ms. flaws_macros (doc r) = Some ms \<and>
               map macro_flaw ms = flaws0 @ sampleFlaws before @ ?fl # sampleFlaws after)) \<and>
      (level \<noteq> Some WARN \<longrightarrow> flaws_macros (doc r) = None)"
    if b: "buildDocument e d ops = (eff, Inr r)" for eff r
  proof -
    note rd = buildDocument_rendered[OF b assms(1,2)]
    have ls: "liveSamples r = map page (filter flawless before) @ map page (filter flawless after)"
      using rd[THEN conjunct1] nf by (simp add: loop assms(3))
    note pol = rd[THEN conjunct2, THEN conjunct1]
    have w: "\<exists>ms. flaws_macros (doc r) = Some ms \<and>
               map macro_flaw ms = flaws0 @ sampleFlaws before @ ?fl # sampleFlaws after"
      if "level = Some WARN"
    proof -
      have "flaws_macros (doc r) =
          Some (map (\<lambda>(i, f). macroFlawRecord d i f)
                  (enumerate 0 (fst (buildLiveSamples e d html ?ids flaws0 []))))"
        using pol ne that by (simp add: macroFlawPolicy_def assms(5)[symmetric])
      then show ?thesis
        by (simp add: map_macro_flaw_records all)
    qed
    have n: "flaws_macros (doc r) = None" if "level \<noteq> Some WARN"
      using pol ne that by (simp add: macroFlawPolicy_def assms(5)[symmetric] split: if_splits)
    show ?thesis
      by (rule conjI[OF ls], rule conjI, rule impI, erule w, rule impI, erule n)
  qed
  have err: "\<exists>eff err. buildDocument e d ops = (eff, Inl err :: 'x exn + 'a result)"
    if "level = Some ERROR"
    using buildDocument_flaw_error[OF assms(1) _ assms(2) ne, of ops] that
    by (simp add: assms(5))
  show ?thesis
    by (rule conjI[OF loop], rule conjI[OF skip], rule conjI[OF sf], rule conjI,
        intro allI impI, erule ret, rule impI, erule err)
qed


lemma demo_ids_split:
  "getLiveSampleIDs demoEnv (slug (metadata (demoSlug s))) (rawHTML (demoSlug s)) =
     [\<lparr> sample_id = ''Foo'' \<rparr>] @ \<lparr> sample_id = ''Bad'' \<rparr> # [\<lparr> sample_id = ''Bar'' \<rparr>]"
  by (simp add: demoEnv_def)

theorem failed_live_sample_skipped_witness:
  "\<exists>r ms. buildDocument demoEnv (demoSlug ''Web/Demo'') (demoOptions WARN) = ([], Inr r) \<and>
      liveSamples r = [\<lparr> ls_id = ''foo'', ls_html = ''sample Foo'' \<rparr>,
                       \<lparr> ls_id = ''bar'', ls_html = ''sample Bar'' \<rparr>] \<and>
      flaws_macros (doc r) = Some ms \<and>
      map macro_flaw ms =
        [demoFlaw ''MacroBrokenLinkError'',
         (demoFlaw ''MacroLiveSampleError'')\<lparr> filepath := Some ''en-us/web/demo/index.html'' \<rparr>]"
proof -
  let ?d = "demoSlug ''Web/Demo''"
  obtain r where r: "buildDocument demoEnv ?d (demoOptions WARN) = ([], Inr r)"
    using demo_builds[OF validateSlug_demo, of WARN] by auto
  note inst = failed_live_sample_skipped[OF demo_not_archived[of "''Web/Demo''"] demo_render
      demo_ids_split[of "''Web/Demo''"] demo_bad_sample(2) demo_level[of WARN "''macros''", symmetric]
      refl refl refl,
      THEN conjunct2, THEN conjunct2, THEN conjunct2, THEN conjunct1, THEN spec, THEN spec,
      THEN mp, OF r]
  have ls: "liveSamples r = [\<lparr> ls_id = ''foo'', ls_html = ''sample Foo'' \<rparr>,
                             \<lparr> ls_id = ''bar'', ls_html = ''sample Bar'' \<rparr>]"
    using inst[THEN conjunct1]
    by (simp add: demoEnv_def demoSlug_def demoDocument_def toLowerCase_def lowerChar_def)
  obtain ms where ms: "flaws_macros (doc r) = Some ms" and
    fl: "map macro_flaw ms =
        [demoFlaw ''MacroBrokenLinkError''] @
        List.map_filter
          (\<lambda>s. map_option (\<lambda>fl. updateFileInfo demoEnv fl (fileInfo ?d))
                 (page_flaw (buildLiveSamplePage demoEnv (url ?d) (metadata.title (metadata ?d))
                    ''<p>demo</p>'' s))) [\<lparr> sample_id = ''Foo'' \<rparr>] @
        updateFileInfo demoEnv (demoFlaw ''MacroLiveSampleError'') (fileInfo ?d) #
        List.map_filter
          (\<lambda>s. map_option (\<lambda>fl. updateFileInfo demoEnv fl (fileInfo ?d))
                 (page_flaw (buildLiveSamplePage demoEnv (url ?d) (metadata.title (metadata ?d))
                    ''<p>demo</p>'' s))) [\<lparr> sample_id = ''Bar'' \<rparr>]"
    using inst[THEN conjunct2, THEN conjunct1, THEN mp, OF refl] by (elim exE conjE)
  have fl': "map macro_flaw ms =
        [demoFlaw ''MacroBrokenLinkError'',
         (demoFlaw ''MacroLiveSampleError'')\<lparr> filepath := Some ''en-us/web/demo/index.html'' \<rparr>]"
    unfolding fl
    by (simp add: demoEnv_def demoSlug_def demoDocument_def List.map_filter_simps)
  show ?thesis
    by (rule exI[of _ r], rule exI[of _ ms], rule conjI[OF r], rule conjI[OF ls],
        rule conjI[OF ms], rule fl')
qed

theorem failed_live_sample_unrecorded_counterexample:
  "page_flaw (buildLiveSamplePage demoEnv (url demoDocument) (metadata.title (metadata demoDocument))
                ''<p>demo</p>'' \<lparr> sample_id = ''Bad'' \<rparr>) = Some (demoFlaw ''MacroLiveSampleError'') \<and>
   map sample_id (getLiveSampleIDs demoEnv (slug (metadata demoDocument)) (rawHTML demoDocument)) =
     [''Foo'', ''Bad'', ''Bar''] \<and>
   (\<exists>r. buildDocument demoEnv demoDocument (demoOptions IGNORE) = ([], Inr r) \<and>
        map ls_id (liveSamples r) = [''foo'', ''bar''] \<and>
        flaws_macros (doc r) = None \<and> flaws_other (doc r) = [])"
proof -
  let ?opts = "mergeOptions (buildOptions demoEnv) (demoOptions IGNORE)"
  obtain r where r: "buildDocument demoEnv demoDocument (demoOptions IGNORE) = ([], Inr r)"
    and ls: "liveSamples r = [\<lparr> ls_id = ''foo'', ls_html = ''sample Foo'' \<rparr>,
                               \<lparr> ls_id = ''bar'', ls_html = ''sample Bar'' \<rparr>]"
    using demo_builds[OF validateSlug_demo, of IGNORE] by (auto simp: demoSlug_same)
  from buildDocument_Inr[OF r] obtain html macros dc att t bcd where
    rd: "renderDocument demoEnv ?opts demoDocument = ([], Inr (html, liveSamples r, macros))" and
    p: "prepareTree demoEnv ?opts demoDocument ((newDoc demoDocument)\<lparr> flaws_macros := macros \<rparr>) html =
          ([], Inr (dc, att, t))" and
    f: "finishDocument demoEnv ?opts demoDocument dc t = Inr (doc r, bcd)"
    by (elim exE conjE)
  have o: "flaws_other (doc r) = []"
    using demo_prepare_flaws_other[OF p] demo_finish_flaws_other[OF f] by (simp add: newDoc_def)
  have m: "flaws_macros (doc r) = None"
    using buildDocument_rendered[OF r demo_not_archived[of "''Web/Demo''", unfolded demoSlug_same]
        demo_render, THEN conjunct2, THEN conjunct1]
    by (simp add: macroFlawPolicy_def demo_level split: if_splits)
  have b: "page_flaw (buildLiveSamplePage demoEnv (url demoDocument)
      (metadata.title (metadata demoDocument)) ''<p>demo</p>'' \<lparr> sample_id = ''Bad'' \<rparr>) =
      Some (demoFlaw ''MacroLiveSampleError'')"
    by (simp add: demoEnv_def)
  have ex: "\<exists>r. buildDocument demoEnv demoDocument (demoOptions IGNORE) = ([], Inr r) \<and>
        map ls_id (liveSamples r) = [''foo'', ''bar''] \<and>
        flaws_macros (doc r) = None \<and> flaws_other (doc r) = []"
    by (rule exI[of _ r], rule conjI[OF r], rule conjI, simp add: ls, rule conjI[OF m], rule o)
  show ?thesis
    by (rule conjI[OF b], rule conjI, simp add: demo_ids, rule ex)
qed

end
